theory Spec2Isabelle
  imports Complex_Main
begin

section \<open>Blobs and the numeric type\<close>

text \<open>
  The two layers of \<^verbatim>\<open>src/caffe/layers\<close> (\<^verbatim>\<open>round_layer.cpp\<close> and
  \<^verbatim>\<open>smooth_L1_loss_layer.cpp\<close>) are templates over \<^verbatim>\<open>Dtype\<close> (float or double).
  The embedding takes \<^verbatim>\<open>Dtype\<close> to be the real numbers: every arithmetic operation of the
  source is the exact operation, in the source's order. Rounding error, overflow to an
  infinity and NaN are outside this model. The two places where the source divides by a
  quantity that can be zero are written out: \<^verbatim>\<open>1.0 / sigma2_\<close> in a comparison (an IEEE
  infinity, so the comparison holds for every finite left-hand side) and the division
  by \<^verbatim>\<open>num()\<close> (a quotient by zero that is stored is not a finite number: the error
  \<open>NotFinite\<close>). The two properties of the loss layer that turn on overflow are stated over a
  second embedding, at \<^verbatim>\<open>Dtype = float\<close> with infinities and NaN, given after the first.
  Blobs and the layer record are polymorphic in the element type, so that \<^verbatim>\<open>Reshape\<close>, which
  does no arithmetic, is one function for both.
\<close>

type_synonym Dtype = real

text \<open>
  Modelled from the spec: \<^verbatim>\<open>Blob\<close> (\<^verbatim>\<open>caffe/blob.hpp\<close> is not among the sources). A blob
  is a shape-tagged dense buffer with a value view (\<^verbatim>\<open>cpu_data\<close>) and a gradient view
  (\<^verbatim>\<open>cpu_diff\<close>). The layers read the shape only through \<^verbatim>\<open>num()\<close>, \<^verbatim>\<open>channels()\<close>,
  \<^verbatim>\<open>height()\<close>, \<^verbatim>\<open>width()\<close> and \<^verbatim>\<open>count()\<close>, so the shape is these four dimensions.
\<close>

record 'a Blob =
  num :: nat
  channels :: nat
  height :: nat
  width :: nat
  cpu_data :: "'a list"
  cpu_diff :: "'a list"

type_synonym blob = "Dtype Blob"

definition count :: "'a Blob \<Rightarrow> nat" where
  "count b = num b * channels b * height b * width b"

text \<open>A blob whose two views hold exactly \<open>count\<close> elements.\<close>

definition blob_ok :: "'a Blob \<Rightarrow> bool" where
  "blob_ok b = (length (cpu_data b) = count b \<and> length (cpu_diff b) = count b)"

text \<open>
  Modelled from the spec: \<^verbatim>\<open>Blob::Reshape(num, channels, height, width)\<close> and
  \<^verbatim>\<open>Blob::ReshapeLike\<close>. The blob takes the new shape; both views hold \<open>count\<close> elements
  afterwards, the old contents as far as they reach and zeros after them.
\<close>

definition Blob_Reshape :: "nat \<Rightarrow> nat \<Rightarrow> nat \<Rightarrow> nat \<Rightarrow> 'a::zero Blob \<Rightarrow> 'a Blob" where
  "Blob_Reshape n c h w b =
     (let k = n * c * h * w in
      b\<lparr>num := n, channels := c, height := h, width := w,
        cpu_data := take k (cpu_data b @ replicate k 0),
        cpu_diff := take k (cpu_diff b @ replicate k 0)\<rparr>)"

definition ReshapeLike :: "'a::zero Blob \<Rightarrow> 'a Blob \<Rightarrow> 'a Blob" where
  "ReshapeLike other b =
     Blob_Reshape (num other) (channels other) (height other) (width other) b"

text \<open>
  What a call can end in other than its result: a failed \<^verbatim>\<open>CHECK_EQ\<close> (fatal), an index
  past the end of a vector or buffer (undefined behaviour in C++), and a division by a
  zero \<^verbatim>\<open>num()\<close> (an infinity or NaN in IEEE arithmetic).
\<close>

datatype error = CheckFailed | OutOfRange | NotFinite

definition and_then :: "error + 'a \<Rightarrow> ('a \<Rightarrow> error + 'b) \<Rightarrow> error + 'b" where
  "and_then m f = (case m of Inl e \<Rightarrow> Inl e | Inr x \<Rightarrow> f x)"

definition CHECK_EQ :: "nat \<Rightarrow> nat \<Rightarrow> error + 'a \<Rightarrow> error + 'a" where
  "CHECK_EQ a b k = (if a = b then k else Inl CheckFailed)"

section \<open>The math functions the loss layer calls\<close>

text \<open>
  Modelled from the spec: \<^verbatim>\<open>caffe_sub\<close>, \<^verbatim>\<open>caffe_mul\<close>, \<^verbatim>\<open>caffe_cpu_axpby\<close> and
  \<^verbatim>\<open>caffe_cpu_dot\<close> (\<^verbatim>\<open>caffe/util/math_functions.hpp\<close> is not among the sources). Each
  works on the first \<open>n\<close> elements of its buffers; the last buffer of the first three is
  the one written, and the elements after the first \<open>n\<close> stay as they are.
\<close>

definition caffe_sub :: "nat \<Rightarrow> Dtype list \<Rightarrow> Dtype list \<Rightarrow> Dtype list \<Rightarrow> error + Dtype list" where
  "caffe_sub n a b y =
     (if n \<le> length a \<and> n \<le> length b \<and> n \<le> length y
      then Inr (map (\<lambda>i. a ! i - b ! i) [0..<n] @ drop n y)
      else Inl OutOfRange)"

definition caffe_mul :: "nat \<Rightarrow> Dtype list \<Rightarrow> Dtype list \<Rightarrow> Dtype list \<Rightarrow> error + Dtype list" where
  "caffe_mul n a b y =
     (if n \<le> length a \<and> n \<le> length b \<and> n \<le> length y
      then Inr (map (\<lambda>i. a ! i * b ! i) [0..<n] @ drop n y)
      else Inl OutOfRange)"

definition caffe_cpu_axpby ::
  "nat \<Rightarrow> Dtype \<Rightarrow> Dtype list \<Rightarrow> Dtype \<Rightarrow> Dtype list \<Rightarrow> error + Dtype list" where
  "caffe_cpu_axpby n alpha x beta y =
     (if n \<le> length x \<and> n \<le> length y
      then Inr (map (\<lambda>i. alpha * x ! i + beta * y ! i) [0..<n] @ drop n y)
      else Inl OutOfRange)"

definition caffe_cpu_dot :: "nat \<Rightarrow> Dtype list \<Rightarrow> Dtype list \<Rightarrow> error + Dtype" where
  "caffe_cpu_dot n x y =
     (if n \<le> length x \<and> n \<le> length y
      then Inr (sum_list (map (\<lambda>i. x ! i * y ! i) [0..<n]))
      else Inl OutOfRange)"

section \<open>RoundLayer\<close>

text \<open>
  \<^verbatim>\<open>rint\<close> of the C library in the default rounding mode, on the reals: the nearest
  integer, the even one of the two when the argument is half-way between them. On a
  finite floating-point argument the C function is exact, so this is its value.
\<close>

definition rint :: "Dtype \<Rightarrow> Dtype" where
  "rint x =
     (let f = \<lfloor>x\<rfloor>; r = x - of_int f in
      if r < 1 / 2 then of_int f
      else if 1 / 2 < r then of_int (f + 1)
      else if even f then of_int f else of_int (f + 1))"

text \<open>\<^verbatim>\<open>RoundLayer::Reshape\<close>.\<close>

definition Round_Reshape :: "blob list \<Rightarrow> blob list \<Rightarrow> error + blob list" where
  "Round_Reshape bottom tops =
     (if bottom = [] \<or> tops = [] then Inl OutOfRange
      else
        let cnt = count (bottom ! 0);
            tops' = tops[0 := ReshapeLike (bottom ! 0) (tops ! 0)]
        in CHECK_EQ cnt (count (tops' ! 0)) (Inr tops'))"

text \<open>
  The loop of \<^verbatim>\<open>RoundLayer::Forward_cpu\<close>: \<open>round_loop bottom_data n top_data\<close> is
  \<open>top_data\<close> after the iterations \<open>i = 0, ..., n - 1\<close>.
\<close>

primrec round_loop :: "Dtype list \<Rightarrow> nat \<Rightarrow> Dtype list \<Rightarrow> Dtype list" where
  "round_loop bottom_data 0 top_data = top_data"
| "round_loop bottom_data (Suc n) top_data =
     (round_loop bottom_data n top_data)[n := rint (bottom_data ! n)]"

definition Round_Forward_cpu :: "blob list \<Rightarrow> blob list \<Rightarrow> error + blob list" where
  "Round_Forward_cpu bottom tops =
     (if bottom = [] \<or> tops = [] then Inl OutOfRange
      else
        let bottom_data = cpu_data (bottom ! 0);
            top_data = cpu_data (tops ! 0);
            cnt = count (bottom ! 0)
        in if cnt \<le> length bottom_data \<and> cnt \<le> length top_data
           then Inr (tops[0 := (tops ! 0)\<lparr>cpu_data := round_loop bottom_data cnt top_data\<rparr>])
           else Inl OutOfRange)"

section \<open>SmoothL1LossLayer\<close>

record 'a SmoothL1Loss =
  sigma2 :: 'a
  has_weights :: bool
  diff :: "'a Blob"
  errors :: "'a Blob"
  ones :: "'a Blob"

type_synonym SmoothL1LossLayer = "Dtype SmoothL1Loss"

text \<open>
  \<^verbatim>\<open>SmoothL1LossLayer::LayerSetUp\<close>; \<open>sigma\<close> is \<^verbatim>\<open>loss_param.sigma()\<close>. The base class's
  \<^verbatim>\<open>LossLayer::LayerSetUp\<close> is not among the sources; it touches none of these fields.
\<close>

definition LayerSetUp :: "Dtype \<Rightarrow> SmoothL1LossLayer \<Rightarrow> blob list \<Rightarrow> SmoothL1LossLayer" where
  "LayerSetUp sigma L bottom =
     L\<lparr>sigma2 := sigma * sigma, has_weights := (3 \<le> length bottom)\<rparr>"

text \<open>
  Modelled from the spec: \<^verbatim>\<open>LossLayer::Reshape\<close> of the base class
  (\<^verbatim>\<open>caffe/layers/loss_layer.hpp\<close> is not among the sources). The spec has the leading
  dimension of the inputs free to differ and the loss a scalar, so the base class checks
  nothing on \<open>bottom\<close> and gives \<open>top[0]\<close> the shape of a scalar.
\<close>

definition LossLayer_Reshape :: "'a::zero Blob list \<Rightarrow> 'a Blob list \<Rightarrow> error + 'a Blob list" where
  "LossLayer_Reshape bottom tops =
     (if tops = [] then Inl OutOfRange
      else Inr (tops[0 := Blob_Reshape 1 1 1 1 (tops ! 0)]))"

text \<open>The loop of \<^verbatim>\<open>Reshape\<close> that fills \<^verbatim>\<open>ones_\<close>.\<close>

primrec ones_loop :: "nat \<Rightarrow> 'a::one list \<Rightarrow> 'a list" where
  "ones_loop 0 ones_data = ones_data"
| "ones_loop (Suc n) ones_data = (ones_loop n ones_data)[n := 1]"

text \<open>\<^verbatim>\<open>SmoothL1LossLayer::Reshape\<close>.\<close>

definition SmoothL1Loss_Reshape ::
  "'a::{zero,one} SmoothL1Loss \<Rightarrow> 'a Blob list \<Rightarrow> 'a Blob list \<Rightarrow>
     error + 'a SmoothL1Loss \<times> 'a Blob list" where
  "SmoothL1Loss_Reshape L bottom tops =
     and_then (LossLayer_Reshape bottom tops) (\<lambda>tops'.
       if length bottom < 2 then Inl OutOfRange
       else
         CHECK_EQ (channels (bottom ! 0)) (channels (bottom ! 1))
        (CHECK_EQ (height (bottom ! 0)) (height (bottom ! 1))
        (CHECK_EQ (width (bottom ! 0)) (width (bottom ! 1))
        (and_then
          (if has_weights L then
             if length bottom < 3 then Inl OutOfRange
             else
               CHECK_EQ (channels (bottom ! 0)) (channels (bottom ! 2))
              (CHECK_EQ (height (bottom ! 0)) (height (bottom ! 2))
              (CHECK_EQ (width (bottom ! 0)) (width (bottom ! 2))
              (if 3 < length bottom then
                 CHECK_EQ (channels (bottom ! 0)) (channels (bottom ! 3))
                (CHECK_EQ (height (bottom ! 0)) (height (bottom ! 3))
                (CHECK_EQ (width (bottom ! 0)) (width (bottom ! 3))
                (Inr ())))
               else Inr ())))
           else Inr ())
          (\<lambda>_.
            let b0 = bottom ! 0;
                diff' = Blob_Reshape (num b0) (channels b0) (height b0) (width b0) (diff L);
                errors' = Blob_Reshape (num b0) (channels b0) (height b0) (width b0) (errors L);
                ones' = Blob_Reshape (num b0) (channels b0) (height b0) (width b0) (ones L);
                ones'' = ones'\<lparr>cpu_data := ones_loop (count b0) (cpu_data ones')\<rparr>
            in Inr (L\<lparr>diff := diff', errors := errors', ones := ones''\<rparr>, tops'))))))"

text \<open>
  The comparison \<^verbatim>\<open>abs_val < 1.0 / sigma2_\<close>. When \<^verbatim>\<open>sigma2_\<close> is zero the quotient is
  the IEEE infinity and the comparison holds; otherwise it is the comparison of reals.
\<close>

definition less_inv :: "Dtype \<Rightarrow> Dtype \<Rightarrow> bool" where
  "less_inv abs_val s2 = (if s2 = 0 then True else abs_val < 1 / s2)"

text \<open>The body of the loop of \<^verbatim>\<open>Forward_cpu\<close>, and the loop.\<close>

definition smooth_l1 :: "Dtype \<Rightarrow> Dtype \<Rightarrow> Dtype" where
  "smooth_l1 s2 val =
     (let abs_val = \<bar>val\<bar> in
      if less_inv abs_val s2 then 0.5 * val * val * s2
      else abs_val - 0.5 / s2)"

primrec errors_loop :: "Dtype \<Rightarrow> Dtype list \<Rightarrow> nat \<Rightarrow> Dtype list \<Rightarrow> Dtype list" where
  "errors_loop s2 diff_data 0 error_data = error_data"
| "errors_loop s2 diff_data (Suc n) error_data =
     (errors_loop s2 diff_data n error_data)[n := smooth_l1 s2 (diff_data ! n)]"

text \<open>
  \<^verbatim>\<open>SmoothL1LossLayer::Forward_cpu\<close>. The result is the layer with its scratch buffers
  written and \<open>top\<close> with the loss in \<open>top[0]\<close>.
\<close>

definition SmoothL1Loss_Forward_cpu ::
  "SmoothL1LossLayer \<Rightarrow> blob list \<Rightarrow> blob list \<Rightarrow> error + SmoothL1LossLayer \<times> blob list" where
  "SmoothL1Loss_Forward_cpu L bottom tops =
     (if length bottom < 2 then Inl OutOfRange
      else
        let cnt = count (bottom ! 0) in
        and_then (caffe_sub cnt (cpu_data (bottom ! 0)) (cpu_data (bottom ! 1))
                    (cpu_data (diff L))) (\<lambda>d0.
        and_then (if has_weights L then
                    if length bottom < 3 then Inl OutOfRange
                    else caffe_mul cnt (cpu_data (bottom ! 2)) d0 d0
                  else Inr d0) (\<lambda>d1.
        and_then (if cnt \<le> length (cpu_data (errors L))
                  then Inr (errors_loop (sigma2 L) d1 cnt (cpu_data (errors L)))
                  else Inl OutOfRange) (\<lambda>e0.
        and_then (if has_weights L \<and> 3 < length bottom
                  then caffe_mul cnt (cpu_data (bottom ! 3)) e0 e0
                  else Inr e0) (\<lambda>e1.
        and_then (caffe_cpu_dot cnt (cpu_data (ones L)) e1) (\<lambda>s.
          if num (bottom ! 0) = 0 then Inl NotFinite
          else if tops = [] \<or> cpu_data (tops ! 0) = [] then Inl OutOfRange
          else
            Inr (L\<lparr>diff := (diff L)\<lparr>cpu_data := d1\<rparr>,
                   errors := (errors L)\<lparr>cpu_data := e1\<rparr>\<rparr>,
                 tops[0 := (tops ! 0)\<lparr>cpu_data :=
                    (cpu_data (tops ! 0))[0 := s / real (num (bottom ! 0))]\<rparr>])))))))"

text \<open>
  The first loop of \<^verbatim>\<open>Backward_cpu\<close>: the derivative, written over \<^verbatim>\<open>diff_\<close> in place.
  \<^verbatim>\<open>(Dtype(0) < val) - (val < Dtype(0))\<close> subtracts two truth values as integers.
\<close>

definition smooth_l1_grad :: "Dtype \<Rightarrow> Dtype \<Rightarrow> Dtype" where
  "smooth_l1_grad s2 val =
     (if less_inv \<bar>val\<bar> s2 then s2 * val
      else of_int ((if 0 < val then 1 else 0) - (if val < 0 then 1 else 0)))"

primrec grad_loop :: "Dtype \<Rightarrow> nat \<Rightarrow> Dtype list \<Rightarrow> Dtype list" where
  "grad_loop s2 0 diff_data = diff_data"
| "grad_loop s2 (Suc n) diff_data =
     (let d = grad_loop s2 n diff_data in d[n := smooth_l1_grad s2 (d ! n)])"

text \<open>
  The body of the second loop of \<^verbatim>\<open>Backward_cpu\<close>, for the input \<open>i\<close>; \<open>L\<close> is the layer
  after the first loop.
\<close>

definition Backward_input ::
  "SmoothL1LossLayer \<Rightarrow> blob list \<Rightarrow> bool list \<Rightarrow> nat \<Rightarrow> blob list \<Rightarrow> error + blob list" where
  "Backward_input L tops propagate_down i bottom =
     (if length propagate_down \<le> i then Inl OutOfRange
      else if \<not> propagate_down ! i then Inr bottom
      else if tops = [] \<or> cpu_diff (tops ! 0) = [] \<or> length bottom \<le> i then Inl OutOfRange
      else
        let cnt = count (diff L);
            sign = (if i = 0 then 1 else - 1)
        in if num (bottom ! i) = 0 \<and> 0 < cnt then Inl NotFinite
           else
             let alpha = sign * cpu_diff (tops ! 0) ! 0 / real (num (bottom ! i)) in
             and_then (caffe_cpu_axpby cnt alpha (cpu_data (diff L)) 0
                         (cpu_diff (bottom ! i))) (\<lambda>g0.
             and_then (if has_weights L then
                         if length bottom < 3 then Inl OutOfRange
                         else caffe_mul cnt (cpu_data (bottom ! 2)) g0 g0
                       else Inr g0) (\<lambda>g1.
             and_then (if has_weights L \<and> 3 < length bottom
                       then caffe_mul cnt (cpu_data (bottom ! 3)) g1 g1
                       else Inr g1) (\<lambda>g2.
               Inr (bottom[i := (bottom ! i)\<lparr>cpu_diff := g2\<rparr>])))))"

text \<open>
  \<^verbatim>\<open>SmoothL1LossLayer::Backward_cpu\<close>. The result is the layer with \<^verbatim>\<open>diff_\<close> overwritten
  and \<open>bottom\<close> with the gradients of the propagated inputs.
\<close>

definition SmoothL1Loss_Backward_cpu ::
  "SmoothL1LossLayer \<Rightarrow> blob list \<Rightarrow> bool list \<Rightarrow> blob list \<Rightarrow>
     error + SmoothL1LossLayer \<times> blob list" where
  "SmoothL1Loss_Backward_cpu L tops propagate_down bottom =
     (let cnt = count (diff L) in
      if length (cpu_data (diff L)) < cnt then Inl OutOfRange
      else
        let L' = L\<lparr>diff := (diff L)\<lparr>cpu_data := grad_loop (sigma2 L) cnt (cpu_data (diff L))\<rparr>\<rparr>
        in and_then (Backward_input L' tops propagate_down 0 bottom) (\<lambda>bottom0.
           and_then (Backward_input L' tops propagate_down 1 bottom0) (\<lambda>bottom1.
             Inr (L', bottom1))))"

section \<open>The loss layer in floating-point arithmetic with overflow\<close>

text \<open>
  A second embedding of \<^verbatim>\<open>SmoothL1LossLayer\<close>, for \<^verbatim>\<open>Dtype = float\<close>, in which a value
  is a finite real, an infinity or NaN. An operation on finite values gives the exact
  result when that lies below the overflow threshold of its format (the largest finite
  value plus half a unit in the last place) and the infinity of its sign from there on; on
  infinities and NaN it follows IEEE 754: \<open>inf - inf\<close>, \<open>0 * inf\<close>, \<open>0 / 0\<close> and
  \<open>inf / inf\<close> are NaN, NaN propagates, and a comparison with NaN is false. The rounding
  of a result that is in range, underflow and the sign of zero are not modelled; the
  divisors of the layer that can be zero (\<^verbatim>\<open>sigma2_\<close>, a square, and \<^verbatim>\<open>num()\<close>) are \<open>+0\<close>.
\<close>

datatype ieee = Finite real | PosInf | NegInf | NaN

instantiation ieee :: "{zero, one}"
begin

definition zero_ieee :: ieee where
  "zero_ieee = Finite 0"

definition one_ieee :: ieee where
  "one_ieee = Finite 1"

instance ..

end

text \<open>
  The result of an operation whose exact value is \<open>r\<close>, in a format that overflows at
  \<open>T\<close>; the formats \<^verbatim>\<open>float\<close> (binary32) and \<^verbatim>\<open>double\<close> (binary64), and the largest
  finite \<^verbatim>\<open>float\<close>. A conversion between the formats changes a finite value only.
\<close>

definition overflow_to :: "real \<Rightarrow> real \<Rightarrow> ieee" where
  "overflow_to T r = (if T \<le> r then PosInf else if r \<le> - T then NegInf else Finite r)"

definition to_float :: "real \<Rightarrow> ieee" where
  "to_float = overflow_to (2 ^ 128 - 2 ^ 103)"

definition to_double :: "real \<Rightarrow> ieee" where
  "to_double = overflow_to (2 ^ 1024 - 2 ^ 970)"

definition FLT_MAX :: real where
  "FLT_MAX = 2 ^ 128 - 2 ^ 104"

definition ieee_cast :: "(real \<Rightarrow> ieee) \<Rightarrow> ieee \<Rightarrow> ieee" where
  "ieee_cast fmt x = (case x of Finite r \<Rightarrow> fmt r | _ \<Rightarrow> x)"

text \<open>The arithmetic operations; \<open>fmt\<close> is the format the operation is carried out in.\<close>

fun ieee_neg :: "ieee \<Rightarrow> ieee" where
  "ieee_neg (Finite r) = Finite (- r)"
| "ieee_neg PosInf = NegInf"
| "ieee_neg NegInf = PosInf"
| "ieee_neg NaN = NaN"

fun ieee_add :: "(real \<Rightarrow> ieee) \<Rightarrow> ieee \<Rightarrow> ieee \<Rightarrow> ieee" where
  "ieee_add fmt NaN y = NaN"
| "ieee_add fmt x NaN = NaN"
| "ieee_add fmt (Finite a) (Finite b) = fmt (a + b)"
| "ieee_add fmt PosInf NegInf = NaN"
| "ieee_add fmt NegInf PosInf = NaN"
| "ieee_add fmt PosInf y = PosInf"
| "ieee_add fmt NegInf y = NegInf"
| "ieee_add fmt (Finite a) y = y"

definition ieee_sub :: "(real \<Rightarrow> ieee) \<Rightarrow> ieee \<Rightarrow> ieee \<Rightarrow> ieee" where
  "ieee_sub fmt x y = ieee_add fmt x (ieee_neg y)"

fun ieee_mul :: "(real \<Rightarrow> ieee) \<Rightarrow> ieee \<Rightarrow> ieee \<Rightarrow> ieee" where
  "ieee_mul fmt NaN y = NaN"
| "ieee_mul fmt x NaN = NaN"
| "ieee_mul fmt (Finite a) (Finite b) = fmt (a * b)"
| "ieee_mul fmt (Finite a) y =
     (if a = 0 then NaN else if 0 < a then y else ieee_neg y)"
| "ieee_mul fmt x (Finite b) =
     (if b = 0 then NaN else if 0 < b then x else ieee_neg x)"
| "ieee_mul fmt PosInf y = y"
| "ieee_mul fmt NegInf y = ieee_neg y"

fun ieee_div :: "(real \<Rightarrow> ieee) \<Rightarrow> ieee \<Rightarrow> ieee \<Rightarrow> ieee" where
  "ieee_div fmt NaN y = NaN"
| "ieee_div fmt x NaN = NaN"
| "ieee_div fmt (Finite a) (Finite b) =
     (if b = 0 then (if a = 0 then NaN else if 0 < a then PosInf else NegInf)
      else fmt (a / b))"
| "ieee_div fmt (Finite a) y = Finite 0"
| "ieee_div fmt x (Finite b) = (if 0 \<le> b then x else ieee_neg x)"
| "ieee_div fmt x y = NaN"

fun ieee_fabs :: "ieee \<Rightarrow> ieee" where
  "ieee_fabs (Finite r) = Finite \<bar>r\<bar>"
| "ieee_fabs PosInf = PosInf"
| "ieee_fabs NegInf = PosInf"
| "ieee_fabs NaN = NaN"

text \<open>The comparisons \<^verbatim>\<open><\<close> and \<^verbatim>\<open><=\<close>.\<close>

fun ieee_less :: "ieee \<Rightarrow> ieee \<Rightarrow> bool" where
  "ieee_less NaN y = False"
| "ieee_less x NaN = False"
| "ieee_less (Finite a) (Finite b) = (a < b)"
| "ieee_less x NegInf = False"
| "ieee_less PosInf y = False"
| "ieee_less NegInf y = True"
| "ieee_less (Finite a) PosInf = True"


text \<open>
  Modelled from the spec: \<^verbatim>\<open>caffe_sub\<close>, \<^verbatim>\<open>caffe_mul\<close>, \<^verbatim>\<open>caffe_cpu_axpby\<close> and
  \<^verbatim>\<open>caffe_cpu_dot\<close> at \<^verbatim>\<open>float\<close>, as above with every operation a \<^verbatim>\<open>float\<close> operation.
  The dot product adds the products from the first to the last.
\<close>

definition caffe_sub_ieee :: "nat \<Rightarrow> ieee list \<Rightarrow> ieee list \<Rightarrow> ieee list \<Rightarrow> error + ieee list" where
  "caffe_sub_ieee n a b y =
     (if n \<le> length a \<and> n \<le> length b \<and> n \<le> length y
      then Inr (map (\<lambda>i. ieee_sub to_float (a ! i) (b ! i)) [0..<n] @ drop n y)
      else Inl OutOfRange)"

definition caffe_mul_ieee :: "nat \<Rightarrow> ieee list \<Rightarrow> ieee list \<Rightarrow> ieee list \<Rightarrow> error + ieee list" where
  "caffe_mul_ieee n a b y =
     (if n \<le> length a \<and> n \<le> length b \<and> n \<le> length y
      then Inr (map (\<lambda>i. ieee_mul to_float (a ! i) (b ! i)) [0..<n] @ drop n y)
      else Inl OutOfRange)"

definition caffe_cpu_axpby_ieee ::
  "nat \<Rightarrow> ieee \<Rightarrow> ieee list \<Rightarrow> ieee \<Rightarrow> ieee list \<Rightarrow> error + ieee list" where
  "caffe_cpu_axpby_ieee n alpha x beta y =
     (if n \<le> length x \<and> n \<le> length y
      then Inr (map (\<lambda>i. ieee_add to_float (ieee_mul to_float alpha (x ! i))
                          (ieee_mul to_float beta (y ! i))) [0..<n] @ drop n y)
      else Inl OutOfRange)"

definition caffe_cpu_dot_ieee :: "nat \<Rightarrow> ieee list \<Rightarrow> ieee list \<Rightarrow> error + ieee" where
  "caffe_cpu_dot_ieee n x y =
     (if n \<le> length x \<and> n \<le> length y
      then Inr (foldl (\<lambda>s i. ieee_add to_float s (ieee_mul to_float (x ! i) (y ! i)))
                  (Finite 0) [0..<n])
      else Inl OutOfRange)"

text \<open>
  \<^verbatim>\<open>SmoothL1LossLayer::LayerSetUp\<close>: the product of two \<^verbatim>\<open>float\<close> values. \<^verbatim>\<open>Reshape\<close> does
  no arithmetic: it is \<open>SmoothL1Loss_Reshape\<close> above.
\<close>

definition LayerSetUp_ieee :: "ieee \<Rightarrow> ieee SmoothL1Loss \<Rightarrow> ieee Blob list \<Rightarrow> ieee SmoothL1Loss" where
  "LayerSetUp_ieee sigma L bottom =
     L\<lparr>sigma2 := ieee_mul to_float sigma sigma, has_weights := (3 \<le> length bottom)\<rparr>"

text \<open>
  The body of the loop of \<^verbatim>\<open>Forward_cpu\<close>, and the loop. The literals \<^verbatim>\<open>1.0\<close> and \<^verbatim>\<open>0.5\<close>
  are of type \<^verbatim>\<open>double\<close>, so the quotients, the comparison, the products and the
  difference are \<^verbatim>\<open>double\<close> operations, and the assignment to \<^verbatim>\<open>error_data[i]\<close> converts
  to \<^verbatim>\<open>float\<close>.
\<close>

definition smooth_l1_ieee :: "ieee \<Rightarrow> ieee \<Rightarrow> ieee" where
  "smooth_l1_ieee s2 val =
     (let abs_val = ieee_fabs val in
      if ieee_less abs_val (ieee_div to_double (Finite 1.0) s2)
      then ieee_cast to_float
             (ieee_mul to_double (ieee_mul to_double (ieee_mul to_double (Finite 0.5) val) val) s2)
      else ieee_cast to_float (ieee_sub to_double abs_val (ieee_div to_double (Finite 0.5) s2)))"

primrec errors_loop_ieee :: "ieee \<Rightarrow> ieee list \<Rightarrow> nat \<Rightarrow> ieee list \<Rightarrow> ieee list" where
  "errors_loop_ieee s2 diff_data 0 error_data = error_data"
| "errors_loop_ieee s2 diff_data (Suc n) error_data =
     (errors_loop_ieee s2 diff_data n error_data)[n := smooth_l1_ieee s2 (diff_data ! n)]"

text \<open>
  \<^verbatim>\<open>SmoothL1LossLayer::Forward_cpu\<close>. The quotient by \<^verbatim>\<open>num()\<close> is a \<^verbatim>\<open>float\<close> division,
  also when \<^verbatim>\<open>num()\<close> is zero.
\<close>

definition SmoothL1Loss_Forward_cpu_ieee ::
  "ieee SmoothL1Loss \<Rightarrow> ieee Blob list \<Rightarrow> ieee Blob list \<Rightarrow>
     error + ieee SmoothL1Loss \<times> ieee Blob list" where
  "SmoothL1Loss_Forward_cpu_ieee L bottom tops =
     (if length bottom < 2 then Inl OutOfRange
      else
        let cnt = count (bottom ! 0) in
        and_then (caffe_sub_ieee cnt (cpu_data (bottom ! 0)) (cpu_data (bottom ! 1))
                    (cpu_data (diff L))) (\<lambda>d0.
        and_then (if has_weights L then
                    if length bottom < 3 then Inl OutOfRange
                    else caffe_mul_ieee cnt (cpu_data (bottom ! 2)) d0 d0
                  else Inr d0) (\<lambda>d1.
        and_then (if cnt \<le> length (cpu_data (errors L))
                  then Inr (errors_loop_ieee (sigma2 L) d1 cnt (cpu_data (errors L)))
                  else Inl OutOfRange) (\<lambda>e0.
        and_then (if has_weights L \<and> 3 < length bottom
                  then caffe_mul_ieee cnt (cpu_data (bottom ! 3)) e0 e0
                  else Inr e0) (\<lambda>e1.
        and_then (caffe_cpu_dot_ieee cnt (cpu_data (ones L)) e1) (\<lambda>s.
          if tops = [] \<or> cpu_data (tops ! 0) = [] then Inl OutOfRange
          else
            Inr (L\<lparr>diff := (diff L)\<lparr>cpu_data := d1\<rparr>,
                   errors := (errors L)\<lparr>cpu_data := e1\<rparr>\<rparr>,
                 tops[0 := (tops ! 0)\<lparr>cpu_data :=
                    (cpu_data (tops ! 0))[0 :=
                       ieee_div to_float s (Finite (real (num (bottom ! 0))))]\<rparr>])))))))"

text \<open>
  The first loop of \<^verbatim>\<open>Backward_cpu\<close>: the comparison is a \<^verbatim>\<open>double\<close> comparison, the
  product a \<^verbatim>\<open>float\<close> product, and the difference of the two truth values an integer.
\<close>

definition smooth_l1_grad_ieee :: "ieee \<Rightarrow> ieee \<Rightarrow> ieee" where
  "smooth_l1_grad_ieee s2 val =
     (if ieee_less (ieee_fabs val) (ieee_div to_double (Finite 1.0) s2)
      then ieee_mul to_float s2 val
      else Finite (of_int ((if ieee_less (Finite 0) val then 1 else 0)
                           - (if ieee_less val (Finite 0) then 1 else 0))))"

primrec grad_loop_ieee :: "ieee \<Rightarrow> nat \<Rightarrow> ieee list \<Rightarrow> ieee list" where
  "grad_loop_ieee s2 0 diff_data = diff_data"
| "grad_loop_ieee s2 (Suc n) diff_data =
     (let d = grad_loop_ieee s2 n diff_data in d[n := smooth_l1_grad_ieee s2 (d ! n)])"

text \<open>
  The body of the second loop of \<^verbatim>\<open>Backward_cpu\<close>, for the input \<open>i\<close>, and
  \<^verbatim>\<open>Backward_cpu\<close>. \<^verbatim>\<open>alpha\<close> is a \<^verbatim>\<open>float\<close> product divided by \<^verbatim>\<open>num()\<close> as a \<^verbatim>\<open>float\<close>.
\<close>

definition Backward_input_ieee ::
  "ieee SmoothL1Loss \<Rightarrow> ieee Blob list \<Rightarrow> bool list \<Rightarrow> nat \<Rightarrow> ieee Blob list \<Rightarrow>
     error + ieee Blob list" where
  "Backward_input_ieee L tops propagate_down i bottom =
     (if length propagate_down \<le> i then Inl OutOfRange
      else if \<not> propagate_down ! i then Inr bottom
      else if tops = [] \<or> cpu_diff (tops ! 0) = [] \<or> length bottom \<le> i then Inl OutOfRange
      else
        let cnt = count (diff L);
            sign = (if i = 0 then Finite 1 else Finite (- 1));
            alpha = ieee_div to_float (ieee_mul to_float sign (cpu_diff (tops ! 0) ! 0))
                      (Finite (real (num (bottom ! i))))
        in and_then (caffe_cpu_axpby_ieee cnt alpha (cpu_data (diff L)) (Finite 0)
                       (cpu_diff (bottom ! i))) (\<lambda>g0.
           and_then (if has_weights L then
                       if length bottom < 3 then Inl OutOfRange
                       else caffe_mul_ieee cnt (cpu_data (bottom ! 2)) g0 g0
                     else Inr g0) (\<lambda>g1.
           and_then (if has_weights L \<and> 3 < length bottom
                     then caffe_mul_ieee cnt (cpu_data (bottom ! 3)) g1 g1
                     else Inr g1) (\<lambda>g2.
             Inr (bottom[i := (bottom ! i)\<lparr>cpu_diff := g2\<rparr>])))))"

definition SmoothL1Loss_Backward_cpu_ieee ::
  "ieee SmoothL1Loss \<Rightarrow> ieee Blob list \<Rightarrow> bool list \<Rightarrow> ieee Blob list \<Rightarrow>
     error + ieee SmoothL1Loss \<times> ieee Blob list" where
  "SmoothL1Loss_Backward_cpu_ieee L tops propagate_down bottom =
     (let cnt = count (diff L) in
      if length (cpu_data (diff L)) < cnt then Inl OutOfRange
      else
        let L' = L\<lparr>diff := (diff L)\<lparr>cpu_data :=
                   grad_loop_ieee (sigma2 L) cnt (cpu_data (diff L))\<rparr>\<rparr>
        in and_then (Backward_input_ieee L' tops propagate_down 0 bottom) (\<lambda>bottom0.
           and_then (Backward_input_ieee L' tops propagate_down 1 bottom0) (\<lambda>bottom1.
             Inr (L', bottom1))))"

section \<open>Notions used to state the properties\<close>

text \<open>The four dimensions of a blob, and agreement of two blobs in the last three.\<close>

definition shape :: "'a Blob \<Rightarrow> nat \<times> nat \<times> nat \<times> nat" where
  "shape b = (num b, channels b, height b, width b)"

definition same_chw :: "'a Blob \<Rightarrow> 'a Blob \<Rightarrow> bool" where
  "same_chw a b = (channels a = channels b \<and> height a = height b \<and> width a = width b)"

text \<open>
  The layer as a successful \<^verbatim>\<open>Reshape\<close> leaves it: the three scratch blobs with the
  shape of \<open>bottom[0]\<close>, and \<^verbatim>\<open>ones_\<close> filled with 1.
\<close>

definition reshaped_layer :: "'a::{zero,one} SmoothL1Loss \<Rightarrow> 'a Blob \<Rightarrow> 'a SmoothL1Loss" where
  "reshaped_layer L b0 =
     L\<lparr>diff := Blob_Reshape (num b0) (channels b0) (height b0) (width b0) (diff L),
       errors := Blob_Reshape (num b0) (channels b0) (height b0) (width b0) (errors L),
       ones := (Blob_Reshape (num b0) (channels b0) (height b0) (width b0) (ones L))
                 \<lparr>cpu_data := replicate (count b0) 1\<rparr>\<rparr>"

text \<open>
  The inputs the host hands to \<^verbatim>\<open>Forward_cpu\<close> and \<^verbatim>\<open>Backward_cpu\<close>: every blob holds
  as many elements as its shape says, and no input is shorter than \<open>bottom[0]\<close>, whose
  element count bounds every loop.
\<close>

definition inputs_ok :: "'a Blob list \<Rightarrow> bool" where
  "inputs_ok bottom = (\<forall>b \<in> set bottom. blob_ok b \<and> count (bottom ! 0) \<le> count b)"

text \<open>
  Element \<open>i\<close> of the gradient buffer of input \<open>k\<close> as the body of the second loop of
  \<^verbatim>\<open>Backward_cpu\<close> computes it, step by step: \<^verbatim>\<open>caffe_cpu_axpby\<close> with \<open>beta = 0\<close>, then
  the two \<^verbatim>\<open>caffe_mul\<close>; \<open>L\<close> is the layer after the first loop.
\<close>

definition grad_written :: "SmoothL1LossLayer \<Rightarrow> blob list \<Rightarrow> blob list \<Rightarrow> nat \<Rightarrow> nat \<Rightarrow> Dtype" where
  "grad_written L tops bottom k i =
     (let alpha = (if k = 0 then 1 else - 1) * cpu_diff (tops ! 0) ! 0 / real (num (bottom ! k));
          g0 = alpha * cpu_data (diff L) ! i;
          g1 = (if has_weights L then cpu_data (bottom ! 2) ! i * g0 else g0)
      in if has_weights L \<and> 3 < length bottom then cpu_data (bottom ! 3) ! i * g1 else g1)"

text \<open>
  Notions for the floating-point embedding: a value that is finite; a value that is a
  finite \<^verbatim>\<open>float\<close>; inputs all of whose values and gradient elements are finite
  \<^verbatim>\<open>float\<close> values; a value that is not negative, NaN included; and the element the
  second loop of \<^verbatim>\<open>Backward_cpu\<close> writes, step by step in \<^verbatim>\<open>float\<close> operations.
\<close>

fun is_finite :: "ieee \<Rightarrow> bool" where
  "is_finite (Finite r) = True"
| "is_finite PosInf = False"
| "is_finite NegInf = False"
| "is_finite NaN = False"

definition finite_float :: "ieee \<Rightarrow> bool" where
  "finite_float x = (case x of Finite r \<Rightarrow> \<bar>r\<bar> \<le> FLT_MAX | _ \<Rightarrow> False)"

definition finite_inputs :: "ieee Blob list \<Rightarrow> bool" where
  "finite_inputs bottom =
     (\<forall>b \<in> set bottom. (\<forall>x \<in> set (cpu_data b). finite_float x) \<and>
        (\<forall>x \<in> set (cpu_diff b). finite_float x))"


definition grad_written_ieee ::
  "ieee SmoothL1Loss \<Rightarrow> ieee Blob list \<Rightarrow> ieee Blob list \<Rightarrow> nat \<Rightarrow> nat \<Rightarrow> ieee" where
  "grad_written_ieee L tops bottom k i =
     (let alpha = ieee_div to_float
                    (ieee_mul to_float (if k = 0 then Finite 1 else Finite (- 1))
                       (cpu_diff (tops ! 0) ! 0))
                    (Finite (real (num (bottom ! k))));
          g0 = ieee_add to_float (ieee_mul to_float alpha (cpu_data (diff L) ! i))
                 (ieee_mul to_float (Finite 0) (cpu_diff (bottom ! k) ! i));
          g1 = (if has_weights L then ieee_mul to_float (cpu_data (bottom ! 2) ! i) g0 else g0)
      in if has_weights L \<and> 3 < length bottom
         then ieee_mul to_float (cpu_data (bottom ! 3) ! i) g1 else g1)"

section \<open>Concrete inputs for the examples\<close>

text \<open>
  A blob of \<open>n\<close> samples of one element each with the given values and a zero gradient
  view, a blob that was never reshaped, and a layer as constructed, before
  \<^verbatim>\<open>LayerSetUp\<close>.
\<close>

definition example_blob :: "nat \<Rightarrow> 'a::zero list \<Rightarrow> 'a Blob" where
  "example_blob n xs =
     \<lparr>num = n, channels = 1, height = 1, width = 1, cpu_data = xs,
      cpu_diff = replicate (length xs) 0\<rparr>"

definition empty_blob :: "'a Blob" where
  "empty_blob = \<lparr>num = 0, channels = 0, height = 0, width = 0, cpu_data = [], cpu_diff = []\<rparr>"

definition new_layer :: "'a::zero SmoothL1Loss" where
  "new_layer = \<lparr>sigma2 = 0, has_weights = False, diff = empty_blob, errors = empty_blob,
     ones = empty_blob\<rparr>"

text \<open>
  Prediction, target, inside and outside weights for two samples (used with
  \<open>sigma = 2\<close>), the layer after \<^verbatim>\<open>LayerSetUp\<close> and \<^verbatim>\<open>Reshape\<close> on them, the output blob
  after \<^verbatim>\<open>Reshape\<close>, and an output blob carrying the upstream gradient \<open>g\<close>.
\<close>

definition example_inputs :: "blob list" where
  "example_inputs =
     [example_blob 2 [1, 0.3], example_blob 2 [0, 0.2], example_blob 2 [1, 2],
      example_blob 2 [2, 1]]"

definition example_layer :: SmoothL1LossLayer where
  "example_layer = reshaped_layer (LayerSetUp 2 new_layer example_inputs) (example_inputs ! 0)"

definition example_tops :: "'a::zero Blob list" where
  "example_tops = [Blob_Reshape 1 1 1 1 empty_blob]"

definition example_top_grad :: "'a::zero \<Rightarrow> 'a Blob list" where
  "example_top_grad g = [(Blob_Reshape 1 1 1 1 empty_blob)\<lparr>cpu_diff := [g]\<rparr>]"

text \<open>
  Inputs whose target has two samples and a gradient buffer holding 9, against a
  prediction of one sample, and the same inputs with a zero gradient buffer; inputs that
  differ in channels; an input of the rounding layer.
\<close>

definition uneven_inputs :: "blob list" where
  "uneven_inputs = [example_blob 1 [5], (example_blob 2 [0, 7])\<lparr>cpu_diff := [9, 9]\<rparr>]"

definition fresh_inputs :: "blob list" where
  "fresh_inputs = [example_blob 1 [5], example_blob 2 [0, 7]]"

definition mismatched_inputs :: "blob list" where
  "mismatched_inputs =
     [example_blob 1 [5],
      \<lparr>num = 1, channels = 2, height = 1, width = 1, cpu_data = [0, 0], cpu_diff = [0, 0]\<rparr>]"

definition round_inputs :: "blob list" where
  "round_inputs = [example_blob 3 [2.5, 3.5, - 2.5]]"

text \<open>
  A prediction of 0.1 against a target of 0 (used with \<open>sigma = 2\<close>, so \<open>sigma2 = 4\<close>):
  the layer with \<open>d\<close> in \<^verbatim>\<open>diff_\<close>, and the inputs with the gradients \<open>g\<close> and \<open>- g\<close>.
\<close>

definition small_inputs :: "blob list" where
  "small_inputs = [example_blob 1 [0.1], example_blob 1 [0]]"

definition small_layer :: "Dtype \<Rightarrow> SmoothL1LossLayer" where
  "small_layer d =
     \<lparr>sigma2 = 4, has_weights = False, diff = example_blob 1 [d],
      errors = example_blob 1 [1 / 50], ones = example_blob 1 [1]\<rparr>"

definition small_grads :: "Dtype \<Rightarrow> blob list" where
  "small_grads g =
     [(example_blob 1 [0.1])\<lparr>cpu_diff := [g]\<rparr>, (example_blob 1 [0])\<lparr>cpu_diff := [- g]\<rparr>]"

text \<open>
  A prediction of 0.5 against a target of 0 (used with \<open>sigma = 1\<close>), and the layer as
  \<^verbatim>\<open>Forward_cpu\<close> leaves it on them.
\<close>

definition half_inputs :: "blob list" where
  "half_inputs = [example_blob 1 [1 / 2], example_blob 1 [0]]"

definition half_layer :: SmoothL1LossLayer where
  "half_layer =
     (reshaped_layer (LayerSetUp 1 new_layer half_inputs) (half_inputs ! 0))
       \<lparr>diff := example_blob 1 [1 / 2], errors := example_blob 1 [1 / 8]\<rparr>"


definition masked_float_inputs :: "ieee Blob list" where
  "masked_float_inputs =
     [example_blob 1 [Finite 5], (example_blob 1 [Finite 0])\<lparr>cpu_diff := [Finite 9]\<rparr>,
      example_blob 1 [Finite 0]]"

definition masked_overflow_inputs :: "ieee Blob list" where
  "masked_overflow_inputs =
     [example_blob 1 [Finite FLT_MAX], example_blob 1 [Finite (- FLT_MAX)],
      example_blob 1 [Finite 0]]"


definition float_layer :: "ieee \<Rightarrow> ieee Blob list \<Rightarrow> ieee SmoothL1Loss" where
  "float_layer sigma bottom =
     reshaped_layer (LayerSetUp_ieee sigma new_layer bottom) (bottom ! 0)"

section \<open>Auxiliary facts\<close>

lemma and_then_Inr [simp]: "and_then (Inr x) f = f x"
  by (simp add: and_then_def)

lemma and_then_Inl [simp]: "and_then (Inl e) f = Inl e"
  by (simp add: and_then_def)

lemma length_errors_loop [simp]: "length (errors_loop s2 d n e) = length e"
  by (induction n) simp_all

lemma nth_errors_loop:
  "n \<le> length e \<Longrightarrow> i < length e \<Longrightarrow>
   errors_loop s2 d n e ! i = (if i < n then smooth_l1 s2 (d ! i) else e ! i)"
  by (induction n) (auto simp: nth_list_update less_Suc_eq)

lemma length_grad_loop [simp]: "length (grad_loop s2 n d) = length d"
  by (induction n) (simp_all add: Let_def)

lemma nth_grad_loop:
  "n \<le> length d \<Longrightarrow> i < length d \<Longrightarrow>
   grad_loop s2 n d ! i = (if i < n then smooth_l1_grad s2 (d ! i) else d ! i)"
  by (induction n) (auto simp: nth_list_update less_Suc_eq Let_def)

lemma length_round_loop [simp]: "length (round_loop b n t) = length t"
  by (induction n) simp_all

lemma nth_round_loop:
  "n \<le> length t \<Longrightarrow> i < length t \<Longrightarrow>
   round_loop b n t ! i = (if i < n then rint (b ! i) else t ! i)"
  by (induction n) (auto simp: nth_list_update less_Suc_eq)

lemma length_ones_loop [simp]: "length (ones_loop n xs) = length xs"
  by (induction n) simp_all

lemma nth_ones_loop:
  "n \<le> length xs \<Longrightarrow> i < length xs \<Longrightarrow>
   ones_loop n xs ! i = (if i < n then 1 else xs ! i)"
  by (induction n) (auto simp: nth_list_update less_Suc_eq)

lemma ones_loop_all: "length xs = n \<Longrightarrow> ones_loop n xs = replicate n 1"
  by (rule nth_equalityI) (simp_all add: nth_ones_loop)

lemma and_then_eq_Inr:
  "and_then m f = Inr y \<longleftrightarrow> (\<exists>x. m = Inr x \<and> f x = Inr y)"
  by (cases m) (simp_all add: and_then_def)

lemma caffe_sub_Inr:
  assumes "caffe_sub n a b y = Inr r"
  shows "n \<le> length a" "n \<le> length b" "n \<le> length y" "length r = length y"
    "\<And>i. i < n \<Longrightarrow> r ! i = a ! i - b ! i"
    "\<And>i. n \<le> i \<Longrightarrow> i < length y \<Longrightarrow> r ! i = y ! i"
  using assms by (auto simp: caffe_sub_def nth_append split: if_splits)

lemma caffe_mul_Inr:
  assumes "caffe_mul n a b y = Inr r"
  shows "n \<le> length a" "n \<le> length b" "n \<le> length y" "length r = length y"
    "\<And>i. i < n \<Longrightarrow> r ! i = a ! i * b ! i"
    "\<And>i. n \<le> i \<Longrightarrow> i < length y \<Longrightarrow> r ! i = y ! i"
  using assms by (auto simp: caffe_mul_def nth_append split: if_splits)

lemma caffe_cpu_axpby_Inr:
  assumes "caffe_cpu_axpby n alpha x beta y = Inr r"
  shows "n \<le> length x" "n \<le> length y" "length r = length y"
    "\<And>i. i < n \<Longrightarrow> r ! i = alpha * x ! i + beta * y ! i"
    "\<And>i. n \<le> i \<Longrightarrow> i < length y \<Longrightarrow> r ! i = y ! i"
  using assms by (auto simp: caffe_cpu_axpby_def nth_append split: if_splits)

lemma caffe_cpu_dot_Inr:
  assumes "caffe_cpu_dot n x y = Inr s"
  shows "n \<le> length x" "n \<le> length y" "s = (\<Sum>i<n. x ! i * y ! i)"
  using assms
  by (auto simp: caffe_cpu_dot_def interv_sum_list_conv_sum_set_nat atLeast0LessThan split: if_splits)

text \<open>What a successful Forward_cpu has done.\<close>

lemma Forward_Inr:
  assumes F: "SmoothL1Loss_Forward_cpu L bottom tops = Inr (L', tops')"
  shows "2 \<le> length bottom" "0 < num (bottom ! 0)" "tops \<noteq> []" "cpu_data (tops ! 0) \<noteq> []"
    "sigma2 L' = sigma2 L" "has_weights L' = has_weights L" "ones L' = ones L"
    "count (diff L') = count (diff L)"
    "length (cpu_data (diff L')) = length (cpu_data (diff L))"
    "length (cpu_data (errors L')) = length (cpu_data (errors L))"
    "count (bottom ! 0) \<le> length (cpu_data (diff L))"
    "count (bottom ! 0) \<le> length (cpu_data (errors L))"
    "\<And>i. i < count (bottom ! 0) \<Longrightarrow> cpu_data (diff L') ! i =
        (if has_weights L
         then cpu_data (bottom ! 2) ! i * (cpu_data (bottom ! 0) ! i - cpu_data (bottom ! 1) ! i)
         else cpu_data (bottom ! 0) ! i - cpu_data (bottom ! 1) ! i)"
    "\<And>i. i < count (bottom ! 0) \<Longrightarrow> cpu_data (errors L') ! i =
        (if has_weights L \<and> 3 < length bottom
         then cpu_data (bottom ! 3) ! i * smooth_l1 (sigma2 L) (cpu_data (diff L') ! i)
         else smooth_l1 (sigma2 L) (cpu_data (diff L') ! i))"
    "cpu_data (tops' ! 0) ! 0 =
        (\<Sum>i<count (bottom ! 0). cpu_data (ones L) ! i * cpu_data (errors L') ! i)
          / real (num (bottom ! 0))"
    "length tops' = length tops"
    "has_weights L \<longrightarrow> 3 \<le> length bottom"
proof -
  let ?cnt = "count (bottom ! 0)"
  from F have len: "2 \<le> length bottom"
    by (auto simp: SmoothL1Loss_Forward_cpu_def split: if_splits)
  with F obtain d0 d1 e0 e1 s where
    d0: "caffe_sub ?cnt (cpu_data (bottom ! 0)) (cpu_data (bottom ! 1)) (cpu_data (diff L)) = Inr d0"
    and d1: "(if has_weights L then
                if length bottom < 3 then Inl OutOfRange
                else caffe_mul ?cnt (cpu_data (bottom ! 2)) d0 d0
              else Inr d0) = Inr d1"
    and e0: "(if ?cnt \<le> length (cpu_data (errors L))
              then Inr (errors_loop (sigma2 L) d1 ?cnt (cpu_data (errors L)))
              else Inl OutOfRange) = Inr e0"
    and e1: "(if has_weights L \<and> 3 < length bottom
              then caffe_mul ?cnt (cpu_data (bottom ! 3)) e0 e0
              else Inr e0) = Inr e1"
    and s: "caffe_cpu_dot ?cnt (cpu_data (ones L)) e1 = Inr s"
    and rest: "(if num (bottom ! 0) = 0 then Inl NotFinite
          else if tops = [] \<or> cpu_data (tops ! 0) = [] then Inl OutOfRange
          else
            Inr (L\<lparr>diff := (diff L)\<lparr>cpu_data := d1\<rparr>,
                   errors := (errors L)\<lparr>cpu_data := e1\<rparr>\<rparr>,
                 tops[0 := (tops ! 0)\<lparr>cpu_data :=
                    (cpu_data (tops ! 0))[0 := s / real (num (bottom ! 0))]\<rparr>])) = Inr (L', tops')"
  proof -
    from len have "\<not> length bottom < 2" by simp
    from F [unfolded SmoothL1Loss_Forward_cpu_def Let_def if_not_P [OF this] and_then_eq_Inr]
    show ?thesis using that by blast
  qed
  from rest have num: "0 < num (bottom ! 0)" and t: "tops \<noteq> []" "cpu_data (tops ! 0) \<noteq> []"
    and L': "L' = L\<lparr>diff := (diff L)\<lparr>cpu_data := d1\<rparr>, errors := (errors L)\<lparr>cpu_data := e1\<rparr>\<rparr>"
    and tops': "tops' = tops[0 := (tops ! 0)\<lparr>cpu_data :=
                    (cpu_data (tops ! 0))[0 := s / real (num (bottom ! 0))]\<rparr>]"
    by (auto split: if_splits)
  note D0 = caffe_sub_Inr [OF d0]
  have ld1: "length d1 = length d0"
    using d1 by (auto split: if_splits dest: caffe_mul_Inr(4))
  from e0 have le: "?cnt \<le> length (cpu_data (errors L))"
    and e0_eq: "e0 = errors_loop (sigma2 L) d1 ?cnt (cpu_data (errors L))"
    by (auto split: if_splits)
  have le0: "length e0 = length (cpu_data (errors L))"
    by (simp add: e0_eq)
  have le1: "length e1 = length e0"
    using e1 by (auto split: if_splits dest: caffe_mul_Inr(4))
  show "2 \<le> length bottom" by (rule len)
  show "0 < num (bottom ! 0)" by (rule num)
  show "tops \<noteq> []" "cpu_data (tops ! 0) \<noteq> []" by (rule t)+
  show "sigma2 L' = sigma2 L" "has_weights L' = has_weights L" "ones L' = ones L"
    by (simp_all add: L')
  show "count (diff L') = count (diff L)" by (simp add: L' count_def)
  show "length (cpu_data (diff L')) = length (cpu_data (diff L))"
    by (simp add: L' ld1 D0(4))
  show "length (cpu_data (errors L')) = length (cpu_data (errors L))"
    by (simp add: L' le1 le0)
  show "?cnt \<le> length (cpu_data (diff L))" by (rule D0(3))
  show "?cnt \<le> length (cpu_data (errors L))" by (rule le)
  have dnth: "cpu_data (diff L') ! i =
        (if has_weights L
         then cpu_data (bottom ! 2) ! i * (cpu_data (bottom ! 0) ! i - cpu_data (bottom ! 1) ! i)
         else cpu_data (bottom ! 0) ! i - cpu_data (bottom ! 1) ! i)" if "i < ?cnt" for i
  proof (cases "has_weights L")
    case True
    with d1 have "caffe_mul ?cnt (cpu_data (bottom ! 2)) d0 d0 = Inr d1"
      by (auto split: if_splits)
    from caffe_mul_Inr(5) [OF this that] D0(5) [OF that] True show ?thesis
      by (simp add: L')
  next
    case False
    with d1 have "d1 = d0" by simp
    with D0(5) [OF that] False show ?thesis by (simp add: L')
  qed
  then show "\<And>i. i < count (bottom ! 0) \<Longrightarrow> cpu_data (diff L') ! i =
        (if has_weights L
         then cpu_data (bottom ! 2) ! i * (cpu_data (bottom ! 0) ! i - cpu_data (bottom ! 1) ! i)
         else cpu_data (bottom ! 0) ! i - cpu_data (bottom ! 1) ! i)" .
  have e0nth: "e0 ! i = smooth_l1 (sigma2 L) (d1 ! i)" if "i < ?cnt" for i
    using that le by (simp add: e0_eq nth_errors_loop)
  show "cpu_data (errors L') ! i =
        (if has_weights L \<and> 3 < length bottom
         then cpu_data (bottom ! 3) ! i * smooth_l1 (sigma2 L) (cpu_data (diff L') ! i)
         else smooth_l1 (sigma2 L) (cpu_data (diff L') ! i))" if "i < ?cnt" for i
  proof (cases "has_weights L \<and> 3 < length bottom")
    case True
    with e1 have "caffe_mul ?cnt (cpu_data (bottom ! 3)) e0 e0 = Inr e1"
      by (auto split: if_splits)
    from caffe_mul_Inr(5) [OF this that] e0nth [OF that] True show ?thesis
      by (simp add: L')
  next
    case False
    with e1 have "e1 = e0" by (auto split: if_splits)
    with e0nth [OF that] False show ?thesis by (auto simp add: L')
  qed
  show "cpu_data (tops' ! 0) ! 0 =
        (\<Sum>i<count (bottom ! 0). cpu_data (ones L) ! i * cpu_data (errors L') ! i)
          / real (num (bottom ! 0))"
    using t caffe_cpu_dot_Inr(3) [OF s] by (simp add: tops' L')
  show "length tops' = length tops" by (simp add: tops')
  show "has_weights L \<longrightarrow> 3 \<le> length bottom"
    using d1 by (auto split: if_splits)
qed

lemma Backward_input_skip:
  "i < length propagate_down \<Longrightarrow> \<not> propagate_down ! i \<Longrightarrow>
   Backward_input L tops propagate_down i bottom = Inr bottom"
  by (simp add: Backward_input_def)

lemma Backward_input_Inr:
  assumes B: "Backward_input L tops propagate_down k bottom = Inr bottom'"
    and pd: "propagate_down ! k"
  obtains g where
    "k < length bottom" "tops \<noteq> []" "cpu_diff (tops ! 0) \<noteq> []"
    "bottom' = bottom[k := (bottom ! k)\<lparr>cpu_diff := g\<rparr>]"
    "length g = length (cpu_diff (bottom ! k))"
    "count (diff L) \<le> length g"
    "count (diff L) \<le> length (cpu_data (diff L))"
    "\<And>i. i < count (diff L) \<Longrightarrow> g ! i =
       (let alpha = (if k = 0 then 1 else - 1) * cpu_diff (tops ! 0) ! 0 / real (num (bottom ! k));
            g0 = alpha * cpu_data (diff L) ! i;
            g1 = (if has_weights L then cpu_data (bottom ! 2) ! i * g0 else g0)
        in if has_weights L \<and> 3 < length bottom then cpu_data (bottom ! 3) ! i * g1 else g1)"
    "\<And>i. count (diff L) \<le> i \<Longrightarrow> i < length g \<Longrightarrow> g ! i = cpu_diff (bottom ! k) ! i"
proof -
  let ?cnt = "count (diff L)"
  let ?alpha = "(if k = 0 then 1 else - 1) * cpu_diff (tops ! 0) ! 0 / real (num (bottom ! k))"
  from B pd have c: "\<not> length propagate_down \<le> k"
    "\<not> (tops = [] \<or> cpu_diff (tops ! 0) = [] \<or> length bottom \<le> k)"
    "\<not> (num (bottom ! k) = 0 \<and> 0 < ?cnt)"
    by (auto simp: Backward_input_def Let_def split: if_splits)
  have pd': "\<not> \<not> propagate_down ! k" using pd by simp
  from B [unfolded Backward_input_def Let_def if_not_P [OF c(1)] if_not_P [OF pd']
      if_not_P [OF c(2)] if_not_P [OF c(3)] and_then_eq_Inr]
  obtain g0 g1 g2 where
    g0: "caffe_cpu_axpby ?cnt ?alpha (cpu_data (diff L)) 0 (cpu_diff (bottom ! k)) = Inr g0"
    and g1: "(if has_weights L then
                if length bottom < 3 then Inl OutOfRange
                else caffe_mul ?cnt (cpu_data (bottom ! 2)) g0 g0
              else Inr g0) = Inr g1"
    and g2: "(if has_weights L \<and> 3 < length bottom
              then caffe_mul ?cnt (cpu_data (bottom ! 3)) g1 g1
              else Inr g1) = Inr g2"
    and b': "bottom' = bottom[k := (bottom ! k)\<lparr>cpu_diff := g2\<rparr>]"
    by auto
  note G0 = caffe_cpu_axpby_Inr [OF g0]
  have G1: "length g1 = length g0"
    "\<And>i. i < ?cnt \<Longrightarrow> g1 ! i = (if has_weights L then cpu_data (bottom ! 2) ! i * g0 ! i else g0 ! i)"
    "\<And>i. ?cnt \<le> i \<Longrightarrow> i < length g0 \<Longrightarrow> g1 ! i = g0 ! i"
    using g1 by (auto split: if_splits dest: caffe_mul_Inr(4,5,6))
  have G2: "length g2 = length g1"
    "\<And>i. i < ?cnt \<Longrightarrow> g2 ! i =
       (if has_weights L \<and> 3 < length bottom then cpu_data (bottom ! 3) ! i * g1 ! i else g1 ! i)"
    "\<And>i. ?cnt \<le> i \<Longrightarrow> i < length g1 \<Longrightarrow> g2 ! i = g1 ! i"
    using g2 by (auto split: if_splits dest: caffe_mul_Inr(4,5,6))
  show thesis
  proof (rule that [of g2])
    show "k < length bottom" "tops \<noteq> []" "cpu_diff (tops ! 0) \<noteq> []"
      using c(2) by auto
    show "bottom' = bottom[k := (bottom ! k)\<lparr>cpu_diff := g2\<rparr>]" by (rule b')
    show "length g2 = length (cpu_diff (bottom ! k))"
      by (simp add: G2(1) G1(1) G0(3))
    show "?cnt \<le> length g2"
      by (simp add: G2(1) G1(1) G0(3) G0(2))
    show "?cnt \<le> length (cpu_data (diff L))" by (rule G0(1))
    show "g2 ! i =
       (let alpha = ?alpha;
            g0 = alpha * cpu_data (diff L) ! i;
            g1 = (if has_weights L then cpu_data (bottom ! 2) ! i * g0 else g0)
        in if has_weights L \<and> 3 < length bottom then cpu_data (bottom ! 3) ! i * g1 else g1)"
      if "i < ?cnt" for i
      using G2(2) [OF that] G1(2) [OF that] G0(4) [OF that]
      by (simp add: Let_def)
    show "g2 ! i = cpu_diff (bottom ! k) ! i" if "?cnt \<le> i" "i < length g2" for i
      using that G2(3) [of i] G1(3) [of i] G0(5) [of i]
      by (simp add: G2(1) G1(1) G0(3))
  qed
qed

lemma Blob_Reshape_simps [simp]:
  "num (Blob_Reshape n c h w b) = n"
  "channels (Blob_Reshape n c h w b) = c"
  "height (Blob_Reshape n c h w b) = h"
  "width (Blob_Reshape n c h w b) = w"
  "length (cpu_data (Blob_Reshape n c h w b)) = n * c * h * w"
  "length (cpu_diff (Blob_Reshape n c h w b)) = n * c * h * w"
  "count (Blob_Reshape n c h w b) = n * c * h * w"
  by (simp_all add: Blob_Reshape_def Let_def count_def)

lemma CHECK_EQ3:
  "CHECK_EQ (channels a) (channels b) (CHECK_EQ (height a) (height b)
     (CHECK_EQ (width a) (width b) k)) = (if same_chw a b then k else Inl CheckFailed)"
  by (simp add: CHECK_EQ_def same_chw_def)

lemma Reshape_eq:
  assumes "2 \<le> length bottom" "tops \<noteq> []" "has_weights L \<longrightarrow> 3 \<le> length bottom"
  shows "SmoothL1Loss_Reshape L bottom tops =
    (if \<not> same_chw (bottom ! 0) (bottom ! 1)
        \<or> (has_weights L \<and> \<not> same_chw (bottom ! 0) (bottom ! 2))
        \<or> (has_weights L \<and> 3 < length bottom \<and> \<not> same_chw (bottom ! 0) (bottom ! 3))
     then Inl CheckFailed
     else Inr (reshaped_layer L (bottom ! 0), tops[0 := Blob_Reshape 1 1 1 1 (tops ! 0)]))"
proof -
  have ones: "ones_loop (count (bottom ! 0))
      (cpu_data (Blob_Reshape (num (bottom ! 0)) (channels (bottom ! 0)) (height (bottom ! 0))
         (width (bottom ! 0)) (ones L))) = replicate (count (bottom ! 0)) 1"
    by (rule ones_loop_all) (simp add: count_def)
  have "length bottom < 3 \<longleftrightarrow> \<not> 3 \<le> length bottom" by auto
  then show ?thesis
    using assms
    by (simp add: SmoothL1Loss_Reshape_def LossLayer_Reshape_def CHECK_EQ3 Let_def
        ones reshaped_layer_def)
qed

lemma inputs_okD:
  "inputs_ok bottom \<Longrightarrow> k < length bottom \<Longrightarrow>
   count (bottom ! 0) \<le> length (cpu_data (bottom ! k)) \<and>
   count (bottom ! 0) \<le> length (cpu_diff (bottom ! k)) \<and>
   length (cpu_data (bottom ! k)) = count (bottom ! k) \<and>
   length (cpu_diff (bottom ! k)) = count (bottom ! k)"
  by (auto simp: inputs_ok_def blob_ok_def)

lemma Forward_ok:
  assumes "2 \<le> length bottom" "has_weights L \<longrightarrow> 3 \<le> length bottom"
    and "\<And>k. k < length bottom \<Longrightarrow> count (bottom ! 0) \<le> length (cpu_data (bottom ! k))"
    and "count (bottom ! 0) \<le> length (cpu_data (diff L))"
    and "count (bottom ! 0) \<le> length (cpu_data (errors L))"
    and "count (bottom ! 0) \<le> length (cpu_data (ones L))"
    and "0 < num (bottom ! 0)" "tops \<noteq> []" "cpu_data (tops ! 0) \<noteq> []"
  shows "\<exists>L' tops'. SmoothL1Loss_Forward_cpu L bottom tops = Inr (L', tops')"
proof -
  have b: "count (bottom ! 0) \<le> length (cpu_data (bottom ! 0))"
    "count (bottom ! 0) \<le> length (cpu_data (bottom ! 1))"
    "has_weights L \<Longrightarrow> count (bottom ! 0) \<le> length (cpu_data (bottom ! 2))"
    "3 < length bottom \<Longrightarrow> count (bottom ! 0) \<le> length (cpu_data (bottom ! 3))"
    using assms(1,2) by (auto intro!: assms(3))
  have l3: "has_weights L \<Longrightarrow> \<not> length bottom < 3" using assms(2) by auto
  show ?thesis
    using assms(1,4-) b l3
    by (simp add: SmoothL1Loss_Forward_cpu_def Let_def caffe_sub_def caffe_mul_def
        caffe_cpu_dot_def)
qed

lemma Reshape_Inr:
  assumes R: "SmoothL1Loss_Reshape (LayerSetUp sigma L0 bottom) bottom tops0 = Inr (L, tops)"
  shows "2 \<le> length bottom" "tops0 \<noteq> []"
    "L = reshaped_layer (LayerSetUp sigma L0 bottom) (bottom ! 0)"
    "tops = tops0[0 := Blob_Reshape 1 1 1 1 (tops0 ! 0)]"
    "sigma2 L = sigma * sigma" "has_weights L = (3 \<le> length bottom)"
    "count (diff L) = count (bottom ! 0)"
    "length (cpu_data (diff L)) = count (bottom ! 0)"
    "length (cpu_data (errors L)) = count (bottom ! 0)"
    "cpu_data (ones L) = replicate (count (bottom ! 0)) 1"
    "tops \<noteq> []" "cpu_data (tops ! 0) \<noteq> []"
    "same_chw (bottom ! 0) (bottom ! 1)"
    "3 \<le> length bottom \<Longrightarrow> same_chw (bottom ! 0) (bottom ! 2)"
    "3 < length bottom \<Longrightarrow> same_chw (bottom ! 0) (bottom ! 3)"
proof -
  from R show len: "2 \<le> length bottom" and t0: "tops0 \<noteq> []"
    by (auto simp: SmoothL1Loss_Reshape_def LossLayer_Reshape_def split: if_splits)
  have hw: "has_weights (LayerSetUp sigma L0 bottom) \<longrightarrow> 3 \<le> length bottom"
    by (simp add: LayerSetUp_def)
  from R [unfolded Reshape_eq [OF len t0 hw]]
  have ok: "\<not> (\<not> same_chw (bottom ! 0) (bottom ! 1)
        \<or> (has_weights (LayerSetUp sigma L0 bottom) \<and> \<not> same_chw (bottom ! 0) (bottom ! 2))
        \<or> (has_weights (LayerSetUp sigma L0 bottom) \<and> 3 < length bottom
              \<and> \<not> same_chw (bottom ! 0) (bottom ! 3)))"
    and L: "L = reshaped_layer (LayerSetUp sigma L0 bottom) (bottom ! 0)"
    and t: "tops = tops0[0 := Blob_Reshape 1 1 1 1 (tops0 ! 0)]"
    by (auto split: if_splits)
  show "L = reshaped_layer (LayerSetUp sigma L0 bottom) (bottom ! 0)" by (rule L)
  show "tops = tops0[0 := Blob_Reshape 1 1 1 1 (tops0 ! 0)]" by (rule t)
  show "sigma2 L = sigma * sigma" "has_weights L = (3 \<le> length bottom)"
    by (simp_all add: L reshaped_layer_def LayerSetUp_def)
  show "count (diff L) = count (bottom ! 0)"
    "length (cpu_data (diff L)) = count (bottom ! 0)"
    "length (cpu_data (errors L)) = count (bottom ! 0)"
    "cpu_data (ones L) = replicate (count (bottom ! 0)) 1"
    by (simp_all add: L reshaped_layer_def LayerSetUp_def count_def)
  show "tops \<noteq> []" "cpu_data (tops ! 0) \<noteq> []"
    using t0 by (auto simp: t dest: arg_cong [where f = length])
  show "same_chw (bottom ! 0) (bottom ! 1)" using ok by simp
  show "3 \<le> length bottom \<Longrightarrow> same_chw (bottom ! 0) (bottom ! 2)"
    using ok by (simp add: LayerSetUp_def)
  show "3 < length bottom \<Longrightarrow> same_chw (bottom ! 0) (bottom ! 3)"
    using ok by (simp add: LayerSetUp_def)
qed

text \<open>After Reshape, on well-formed inputs with a sample, Forward_cpu returns.\<close>

lemma Forward_after_Reshape:
  assumes R: "SmoothL1Loss_Reshape (LayerSetUp sigma L0 bottom) bottom tops0 = Inr (L, tops)"
    and I: "inputs_ok bottom" and N: "0 < num (bottom ! 0)"
  shows "\<exists>L' tops'. SmoothL1Loss_Forward_cpu L bottom tops = Inr (L', tops')"
proof -
  note r = Reshape_Inr [OF R]
  show ?thesis
  proof (rule Forward_ok)
    show "2 \<le> length bottom" by (rule r(1))
    show "has_weights L \<longrightarrow> 3 \<le> length bottom" by (simp add: r(6))
    show "count (bottom ! 0) \<le> length (cpu_data (bottom ! k))" if "k < length bottom" for k
      using inputs_okD [OF I that] by simp
    show "count (bottom ! 0) \<le> length (cpu_data (diff L))" by (simp add: r(8))
    show "count (bottom ! 0) \<le> length (cpu_data (errors L))" by (simp add: r(9))
    show "count (bottom ! 0) \<le> length (cpu_data (ones L))" by (simp add: r(10))
    show "0 < num (bottom ! 0)" by (rule N)
    show "tops \<noteq> []" "cpu_data (tops ! 0) \<noteq> []" by (rule r(11) r(12))+
  qed
qed

lemma sum_ones:
  "(\<Sum>i<n. replicate n (1::real) ! i * e ! i) = (\<Sum>i<n. e ! i)"
  by (rule sum.cong) simp_all

lemma less_inv_nonzero: "s2 \<noteq> 0 \<Longrightarrow> less_inv a s2 = (a < 1 / s2)"
  by (simp add: less_inv_def)

section \<open>The forward pass of the loss layer\<close>

text \<open>
  Claim C1. After \<^verbatim>\<open>LayerSetUp\<close> and a successful \<^verbatim>\<open>Reshape\<close>, on well-formed inputs
  with at least one sample and with \<open>sigma\<close> not zero, \<^verbatim>\<open>Forward_cpu\<close> returns, and for
  every index \<open>i\<close> below \<open>count(bottom[0])\<close>: \<open>diff[i]\<close> is prediction minus target,
  multiplied by the inside weight when at least three inputs are supplied; \<open>errors[i]\<close> is
  \<open>0.5 * diff[i]\<^sup>2 * sigma2\<close> when \<open>|diff[i]| < 1 / sigma2\<close> and \<open>|diff[i]| - 0.5 / sigma2\<close>
  otherwise, with \<open>sigma2 = sigma * sigma\<close>, multiplied by the outside weight when more than
  three inputs are supplied.
\<close>

theorem Forward_cpu_elementwise:
  assumes R: "SmoothL1Loss_Reshape (LayerSetUp sigma L0 bottom) bottom tops0 = Inr (L, tops)"
    and I: "inputs_ok bottom" and N: "0 < num (bottom ! 0)"
    and S: "sigma \<noteq> 0" and i: "i < count (bottom ! 0)"
  shows "\<exists>L' tops'. SmoothL1Loss_Forward_cpu L bottom tops = Inr (L', tops') \<and>
    cpu_data (diff L') ! i =
      (if 3 \<le> length bottom
       then (cpu_data (bottom ! 0) ! i - cpu_data (bottom ! 1) ! i) * cpu_data (bottom ! 2) ! i
       else cpu_data (bottom ! 0) ! i - cpu_data (bottom ! 1) ! i) \<and>
    cpu_data (errors L') ! i =
      (let d = cpu_data (diff L') ! i;
           e = (if \<bar>d\<bar> < 1 / (sigma * sigma) then 0.5 * d\<^sup>2 * (sigma * sigma)
                else \<bar>d\<bar> - 0.5 / (sigma * sigma))
       in if 3 < length bottom then e * cpu_data (bottom ! 3) ! i else e)"
proof -
  from Forward_after_Reshape [OF R I N] obtain L' tops'
    where F: "SmoothL1Loss_Forward_cpu L bottom tops = Inr (L', tops')" by blast
  note r = Reshape_Inr [OF R]
  note f = Forward_Inr [OF F]
  have s2: "sigma2 L \<noteq> 0" using S by (simp add: r(5))
  have d: "cpu_data (diff L') ! i =
      (if 3 \<le> length bottom
       then (cpu_data (bottom ! 0) ! i - cpu_data (bottom ! 1) ! i) * cpu_data (bottom ! 2) ! i
       else cpu_data (bottom ! 0) ! i - cpu_data (bottom ! 1) ! i)"
    using f(13) [OF i] by (simp add: r(6) mult.commute)
  have e: "cpu_data (errors L') ! i =
      (let d = cpu_data (diff L') ! i;
           e = (if \<bar>d\<bar> < 1 / (sigma * sigma) then 0.5 * d\<^sup>2 * (sigma * sigma)
                else \<bar>d\<bar> - 0.5 / (sigma * sigma))
       in if 3 < length bottom then e * cpu_data (bottom ! 3) ! i else e)"
    using f(14) [OF i] s2
    by (simp add: r(6) r(5) smooth_l1_def less_inv_nonzero Let_def power2_eq_square
        mult.commute mult.left_commute)
  from F d e show ?thesis by blast
qed

theorem Forward_cpu_elementwise_witness:
  "\<exists>L' tops'.
     SmoothL1Loss_Forward_cpu
       (reshaped_layer (LayerSetUp 1 new_layer [example_blob 1 [5], example_blob 1 [0]])
          (example_blob 1 [5]))
       [example_blob 1 [5], example_blob 1 [0]] [Blob_Reshape 1 1 1 1 empty_blob]
       = Inr (L', tops') \<and>
     cpu_data (diff L') ! 0 = 5 \<and> cpu_data (errors L') ! 0 = 4.5"
proof -
  let ?bottom = "[example_blob 1 [5], example_blob 1 [0]]"
  have R: "SmoothL1Loss_Reshape (LayerSetUp 1 new_layer ?bottom) ?bottom [empty_blob]
      = Inr (reshaped_layer (LayerSetUp 1 new_layer ?bottom) (example_blob 1 [5]),
             [Blob_Reshape 1 1 1 1 empty_blob])"
    by (simp add: Reshape_eq LayerSetUp_def same_chw_def example_blob_def)
  have I: "inputs_ok ?bottom"
    by (simp add: inputs_ok_def blob_ok_def count_def example_blob_def)
  have N: "0 < num (?bottom ! 0)" by (simp add: example_blob_def)
  have i: "0 < count (?bottom ! 0)" by (simp add: example_blob_def count_def)
  from Forward_cpu_elementwise [OF R I N _ i, simplified Let_def]
  obtain L' tops' where
    F: "SmoothL1Loss_Forward_cpu
          (reshaped_layer (LayerSetUp 1 new_layer ?bottom) (example_blob 1 [5]))
          ?bottom [Blob_Reshape 1 1 1 1 empty_blob] = Inr (L', tops')"
    and d: "cpu_data (diff L') ! 0 = cpu_data (?bottom ! 0) ! 0 - cpu_data (?bottom ! 1) ! 0"
    and e: "cpu_data (errors L') ! 0 =
       (if \<bar>cpu_data (diff L') ! 0\<bar> < 1 then 0.5 * (cpu_data (diff L') ! 0)\<^sup>2
        else \<bar>cpu_data (diff L') ! 0\<bar> - 0.5)"
    by auto
  from d have d5: "cpu_data (diff L') ! 0 = 5" by (simp add: example_blob_def)
  from e have "cpu_data (errors L') ! 0 = 4.5" by (simp add: d5)
  with F d5 show ?thesis by blast
qed

text \<open>
  Claim C3. After \<^verbatim>\<open>LayerSetUp\<close> and a successful \<^verbatim>\<open>Reshape\<close>, on well-formed inputs
  with at least one sample, \<^verbatim>\<open>Forward_cpu\<close> returns and the value it writes into
  \<open>top[0]\<close> is the sum of \<open>errors[i]\<close> over all \<open>i\<close> below \<open>count(bottom[0])\<close>, divided by
  \<open>num(bottom[0])\<close>; the dot product of \<^verbatim>\<open>ones_\<close> with \<^verbatim>\<open>errors_\<close> that computes the sum
  is the plain sum of the errors.
\<close>

theorem Forward_cpu_loss:
  assumes R: "SmoothL1Loss_Reshape (LayerSetUp sigma L0 bottom) bottom tops0 = Inr (L, tops)"
    and I: "inputs_ok bottom" and N: "0 < num (bottom ! 0)"
  shows "\<exists>L' tops'. SmoothL1Loss_Forward_cpu L bottom tops = Inr (L', tops') \<and>
    cpu_data (tops' ! 0) ! 0 =
      (\<Sum>i<count (bottom ! 0). cpu_data (errors L') ! i) / real (num (bottom ! 0)) \<and>
    caffe_cpu_dot (count (bottom ! 0)) (cpu_data (ones L')) (cpu_data (errors L')) =
      Inr (\<Sum>i<count (bottom ! 0). cpu_data (errors L') ! i)"
proof -
  from Forward_after_Reshape [OF R I N] obtain L' tops'
    where F: "SmoothL1Loss_Forward_cpu L bottom tops = Inr (L', tops')" by blast
  note r = Reshape_Inr [OF R]
  note f = Forward_Inr [OF F]
  have loss: "cpu_data (tops' ! 0) ! 0 =
      (\<Sum>i<count (bottom ! 0). cpu_data (errors L') ! i) / real (num (bottom ! 0))"
    by (simp add: f(15) r(10) sum_ones)
  have len: "length (cpu_data (errors L')) = count (bottom ! 0)"
    by (simp add: f(10) r(9))
  have "caffe_cpu_dot (count (bottom ! 0)) (cpu_data (ones L')) (cpu_data (errors L')) =
      Inr (\<Sum>i<count (bottom ! 0). cpu_data (ones L') ! i * cpu_data (errors L') ! i)"
    by (simp add: caffe_cpu_dot_def f(7) r(10) len interv_sum_list_conv_sum_set_nat
        atLeast0LessThan)
  then have dot: "caffe_cpu_dot (count (bottom ! 0)) (cpu_data (ones L')) (cpu_data (errors L')) =
      Inr (\<Sum>i<count (bottom ! 0). cpu_data (errors L') ! i)"
    by (simp add: f(7) r(10) sum_ones)
  from F loss dot show ?thesis by blast
qed

lemma upt_2: "[0..<2] = [0, 1]"
  by (simp add: upt_rec)

lemmas example_defs =
  example_inputs_def example_layer_def example_tops_def example_blob_def empty_blob_def
  new_layer_def reshaped_layer_def LayerSetUp_def Blob_Reshape_def count_def Let_def

lemmas run_defs =
  SmoothL1Loss_Forward_cpu_def caffe_sub_def caffe_mul_def caffe_cpu_dot_def
  caffe_cpu_axpby_def smooth_l1_def smooth_l1_grad_def less_inv_def upt_2 numeral_2_eq_2

lemmas backward_defs =
  SmoothL1Loss_Backward_cpu_def Backward_input_def

lemma example_Reshape:
  "SmoothL1Loss_Reshape (LayerSetUp 2 new_layer example_inputs) example_inputs [empty_blob] =
     Inr (example_layer, example_tops)"
  by (simp add: Reshape_eq same_chw_def example_defs)

lemma example_inputs_ok: "inputs_ok example_inputs"
  by (simp add: inputs_ok_def blob_ok_def example_defs)

lemma example_num: "0 < num (example_inputs ! 0)"
  by (simp add: example_defs)

theorem Forward_cpu_loss_witness:
  "\<exists>L' tops'. SmoothL1Loss_Forward_cpu example_layer example_inputs example_tops = Inr (L', tops') \<and>
     cpu_data (errors L') = [7 / 4, 2 / 25] \<and>
     cpu_data (tops' ! 0) ! 0 = 183 / 200 \<and>
     caffe_cpu_dot 2 (cpu_data (ones L')) (cpu_data (errors L')) = Inr (183 / 100)"
proof -
  from Forward_cpu_loss [OF example_Reshape example_inputs_ok example_num]
  obtain L' tops' where
    F: "SmoothL1Loss_Forward_cpu example_layer example_inputs example_tops = Inr (L', tops')"
    and loss: "cpu_data (tops' ! 0) ! 0 =
      (\<Sum>i<count (example_inputs ! 0). cpu_data (errors L') ! i) / real (num (example_inputs ! 0))"
    and dot: "caffe_cpu_dot (count (example_inputs ! 0)) (cpu_data (ones L')) (cpu_data (errors L')) =
      Inr (\<Sum>i<count (example_inputs ! 0). cpu_data (errors L') ! i)"
    by blast
  have c: "count (example_inputs ! 0) = 2" "num (example_inputs ! 0) = 2"
    by (simp_all add: example_defs)
  from F have e: "cpu_data (errors L') = [7 / 4, 2 / 25]"
    by (auto simp add: example_defs run_defs)
  have s: "(\<Sum>i<2. cpu_data (errors L') ! i) = 183 / 100"
    by (simp add: e lessThan_Suc numeral_2_eq_2)
  from loss have "cpu_data (tops' ! 0) ! 0 = 183 / 200" by (simp add: c s)
  moreover from dot have "caffe_cpu_dot 2 (cpu_data (ones L')) (cpu_data (errors L')) = Inr (183 / 100)"
    by (simp add: c s)
  ultimately show ?thesis using F e by blast
qed

section \<open>The backward pass of the loss layer\<close>

lemma Backward_input_length:
  assumes "Backward_input L tops propagate_down k bottom = Inr bottom'"
  shows "k < length propagate_down"
  using assms by (auto simp: Backward_input_def split: if_splits)

lemma Backward_input_frame:
  assumes B: "Backward_input L tops propagate_down k bottom = Inr bottom'"
  shows "length bottom' = length bottom"
    "\<And>j. j \<noteq> k \<Longrightarrow> bottom' ! j = bottom ! j"
    "\<exists>g. bottom' ! k = (bottom ! k)\<lparr>cpu_diff := g\<rparr> \<and> length g = length (cpu_diff (bottom ! k))"
proof -
  have "length bottom' = length bottom \<and> (\<forall>j. j \<noteq> k \<longrightarrow> bottom' ! j = bottom ! j) \<and>
    (\<exists>g. bottom' ! k = (bottom ! k)\<lparr>cpu_diff := g\<rparr> \<and> length g = length (cpu_diff (bottom ! k)))"
  proof (cases "propagate_down ! k")
    case True
    from Backward_input_Inr [OF B True] obtain g where
      g: "k < length bottom" "bottom' = bottom[k := (bottom ! k)\<lparr>cpu_diff := g\<rparr>]"
         "length g = length (cpu_diff (bottom ! k))"
      by blast
    then show ?thesis by auto
  next
    case False
    with B Backward_input_length [OF B] have "bottom' = bottom"
      by (simp add: Backward_input_skip)
    moreover have "bottom ! k = (bottom ! k)\<lparr>cpu_diff := cpu_diff (bottom ! k)\<rparr>" by simp
    ultimately show ?thesis by blast
  qed
  then show "length bottom' = length bottom"
    "\<And>j. j \<noteq> k \<Longrightarrow> bottom' ! j = bottom ! j"
    "\<exists>g. bottom' ! k = (bottom ! k)\<lparr>cpu_diff := g\<rparr> \<and> length g = length (cpu_diff (bottom ! k))"
    by blast+
qed

lemma Backward_input_written:
  assumes B: "Backward_input L tops propagate_down k bottom = Inr bottom'"
    and pd: "propagate_down ! k"
  shows "count (diff L) \<le> length (cpu_diff (bottom ! k))"
    "\<And>i. i < count (diff L) \<Longrightarrow> cpu_diff (bottom' ! k) ! i = grad_written L tops bottom k i"
    "\<And>i. count (diff L) \<le> i \<Longrightarrow> i < length (cpu_diff (bottom ! k)) \<Longrightarrow>
       cpu_diff (bottom' ! k) ! i = cpu_diff (bottom ! k) ! i"
proof -
  from Backward_input_Inr [OF B pd] obtain g where
    g: "k < length bottom" "bottom' = bottom[k := (bottom ! k)\<lparr>cpu_diff := g\<rparr>]"
      "length g = length (cpu_diff (bottom ! k))" "count (diff L) \<le> length g"
      "\<And>i. i < count (diff L) \<Longrightarrow> g ! i = grad_written L tops bottom k i"
      "\<And>i. count (diff L) \<le> i \<Longrightarrow> i < length g \<Longrightarrow> g ! i = cpu_diff (bottom ! k) ! i"
    unfolding grad_written_def by blast
  from g(1,2) have gk: "cpu_diff (bottom' ! k) = g" by simp
  show "count (diff L) \<le> length (cpu_diff (bottom ! k))" using g(3,4) by simp
  show "\<And>i. i < count (diff L) \<Longrightarrow> cpu_diff (bottom' ! k) ! i = grad_written L tops bottom k i"
    by (simp add: gk g(5))
  show "\<And>i. count (diff L) \<le> i \<Longrightarrow> i < length (cpu_diff (bottom ! k)) \<Longrightarrow>
       cpu_diff (bottom' ! k) ! i = cpu_diff (bottom ! k) ! i"
    by (simp add: gk g(6) g(3))
qed

lemma Backward_input_ok:
  assumes "k < length propagate_down" "k < length bottom" "tops \<noteq> []" "cpu_diff (tops ! 0) \<noteq> []"
    and "0 < count (diff L) \<Longrightarrow> 0 < num (bottom ! k)"
    and "count (diff L) \<le> length (cpu_data (diff L))"
    and "count (diff L) \<le> length (cpu_diff (bottom ! k))"
    and "has_weights L \<Longrightarrow> 3 \<le> length bottom \<and> count (diff L) \<le> length (cpu_data (bottom ! 2))"
    and "3 < length bottom \<Longrightarrow> count (diff L) \<le> length (cpu_data (bottom ! 3))"
  shows "\<exists>bottom'. Backward_input L tops propagate_down k bottom = Inr bottom'"
proof -
  have l3: "has_weights L \<Longrightarrow> \<not> length bottom < 3" using assms(8) by auto
  have nf: "\<not> (num (bottom ! k) = 0 \<and> 0 < count (diff L))" using assms(5) by auto
  show ?thesis
    using assms(1-4,6-) l3 nf
    by (auto simp add: Backward_input_def Let_def caffe_cpu_axpby_def caffe_mul_def)
qed

lemma count_update [simp]:
  "count (b\<lparr>cpu_data := xs\<rparr>) = count b" "count (b\<lparr>cpu_diff := xs\<rparr>) = count b"
  by (simp_all add: count_def)

lemma grad_written_cong:
  assumes "length b' = length b" "num (b' ! k) = num (b ! k)"
    "cpu_data (b' ! 2) = cpu_data (b ! 2)" "cpu_data (b' ! 3) = cpu_data (b ! 3)"
  shows "grad_written L tops b' k i = grad_written L tops b k i"
  using assms by (simp add: grad_written_def Let_def)

lemma Backward_Inr:
  assumes B: "SmoothL1Loss_Backward_cpu L tops propagate_down bottom = Inr (L', bottom')"
  shows "count (diff L) \<le> length (cpu_data (diff L))"
    "L' = L\<lparr>diff := (diff L)\<lparr>cpu_data :=
             grad_loop (sigma2 L) (count (diff L)) (cpu_data (diff L))\<rparr>\<rparr>"
    "2 \<le> length propagate_down"
    "length bottom' = length bottom"
    "\<And>j. 2 \<le> j \<Longrightarrow> bottom' ! j = bottom ! j"
    "\<And>k. k < 2 \<Longrightarrow> \<not> propagate_down ! k \<Longrightarrow> bottom' ! k = bottom ! k"
    "\<And>k. k < 2 \<Longrightarrow> propagate_down ! k \<Longrightarrow>
       count (diff L) \<le> length (cpu_diff (bottom ! k)) \<and>
       length (cpu_diff (bottom' ! k)) = length (cpu_diff (bottom ! k))"
    "\<And>k i. k < 2 \<Longrightarrow> propagate_down ! k \<Longrightarrow> i < count (diff L) \<Longrightarrow>
       cpu_diff (bottom' ! k) ! i = grad_written L' tops bottom k i"
    "\<And>k i. k < 2 \<Longrightarrow> propagate_down ! k \<Longrightarrow> count (diff L) \<le> i \<Longrightarrow>
       i < length (cpu_diff (bottom ! k)) \<Longrightarrow>
       cpu_diff (bottom' ! k) ! i = cpu_diff (bottom ! k) ! i"
    "\<And>k. k < 2 \<Longrightarrow> propagate_down ! k \<Longrightarrow> k < length bottom"
proof -
  let ?cnt = "count (diff L)"
  let ?L' = "L\<lparr>diff := (diff L)\<lparr>cpu_data := grad_loop (sigma2 L) ?cnt (cpu_data (diff L))\<rparr>\<rparr>"
  from B have le: "\<not> length (cpu_data (diff L)) < ?cnt"
    by (auto simp: SmoothL1Loss_Backward_cpu_def Let_def split: if_splits)
  from B [unfolded SmoothL1Loss_Backward_cpu_def Let_def if_not_P [OF le] and_then_eq_Inr]
  obtain bottom0 where
    B0: "Backward_input ?L' tops propagate_down 0 bottom = Inr bottom0"
    and B1: "Backward_input ?L' tops propagate_down 1 bottom0 = Inr bottom'"
    and L': "L' = ?L'"
    by auto
  have cnt: "count (diff L') = ?cnt" by (simp add: L' count_def)
  note f0 = Backward_input_frame [OF B0]
  note f1 = Backward_input_frame [OF B1]
  show "?cnt \<le> length (cpu_data (diff L))" using le by simp
  show "L' = ?L'" by (rule L')
  show "2 \<le> length propagate_down" using Backward_input_length [OF B1] by simp
  show len: "length bottom' = length bottom" by (simp add: f1(1) f0(1))
  show "bottom' ! j = bottom ! j" if "2 \<le> j" for j
    using that by (simp add: f1(2) f0(2))
  have b0: "bottom' ! 0 = bottom0 ! 0" by (simp add: f1(2))
  have b1: "bottom0 ! 1 = bottom ! 1" "bottom0 ! 2 = bottom ! 2" "bottom0 ! 3 = bottom ! 3"
    by (simp_all add: f0(2))
  have skip0: "bottom0 = bottom" if "\<not> propagate_down ! 0"
    using B0 Backward_input_length [OF B0] that by (simp add: Backward_input_skip)
  have skip1: "bottom' = bottom0" if "\<not> propagate_down ! 1"
    using B1 Backward_input_length [OF B1] that by (simp add: Backward_input_skip)
  have k01: "k = 0 \<or> k = 1" if "k < 2" for k :: nat using that by auto
  show "bottom' ! k = bottom ! k" if "k < 2" "\<not> propagate_down ! k" for k
    using k01 [OF that(1)] that(2) skip0 skip1 b0 b1 by auto
  have w0: "?cnt \<le> length (cpu_diff (bottom ! 0))"
      "\<And>i. i < ?cnt \<Longrightarrow> cpu_diff (bottom' ! 0) ! i = grad_written L' tops bottom 0 i"
      "\<And>i. ?cnt \<le> i \<Longrightarrow> i < length (cpu_diff (bottom ! 0)) \<Longrightarrow>
         cpu_diff (bottom' ! 0) ! i = cpu_diff (bottom ! 0) ! i"
      "length (cpu_diff (bottom' ! 0)) = length (cpu_diff (bottom ! 0))"
    if pd: "propagate_down ! 0"
  proof -
    note w = Backward_input_written [OF B0 pd, unfolded L' [symmetric] cnt]
    show "?cnt \<le> length (cpu_diff (bottom ! 0))" by (rule w(1))
    show "\<And>i. i < ?cnt \<Longrightarrow> cpu_diff (bottom' ! 0) ! i = grad_written L' tops bottom 0 i"
      by (simp add: b0 w(2))
    show "\<And>i. ?cnt \<le> i \<Longrightarrow> i < length (cpu_diff (bottom ! 0)) \<Longrightarrow>
         cpu_diff (bottom' ! 0) ! i = cpu_diff (bottom ! 0) ! i"
      by (simp add: b0 w(3))
    from f0(3) show "length (cpu_diff (bottom' ! 0)) = length (cpu_diff (bottom ! 0))"
      by (auto simp: b0)
  qed
  have w1: "?cnt \<le> length (cpu_diff (bottom ! 1))"
      "\<And>i. i < ?cnt \<Longrightarrow> cpu_diff (bottom' ! 1) ! i = grad_written L' tops bottom 1 i"
      "\<And>i. ?cnt \<le> i \<Longrightarrow> i < length (cpu_diff (bottom ! 1)) \<Longrightarrow>
         cpu_diff (bottom' ! 1) ! i = cpu_diff (bottom ! 1) ! i"
      "length (cpu_diff (bottom' ! 1)) = length (cpu_diff (bottom ! 1))"
    if pd: "propagate_down ! 1"
  proof -
    note w = Backward_input_written [OF B1 pd, unfolded L' [symmetric] cnt b1]
    have gw: "grad_written L' tops bottom0 1 i = grad_written L' tops bottom 1 i" for i
      using b1 f0(1) by (intro grad_written_cong) simp_all
    show "?cnt \<le> length (cpu_diff (bottom ! 1))" by (rule w(1))
    show "\<And>i. i < ?cnt \<Longrightarrow> cpu_diff (bottom' ! 1) ! i = grad_written L' tops bottom 1 i"
      using w(2) gw by simp
    show "\<And>i. ?cnt \<le> i \<Longrightarrow> i < length (cpu_diff (bottom ! 1)) \<Longrightarrow>
         cpu_diff (bottom' ! 1) ! i = cpu_diff (bottom ! 1) ! i"
      using w(3) by simp
    show "length (cpu_diff (bottom' ! 1)) = length (cpu_diff (bottom ! 1))"
      using f1(3) b1 by auto
  qed
  show "?cnt \<le> length (cpu_diff (bottom ! k)) \<and>
       length (cpu_diff (bottom' ! k)) = length (cpu_diff (bottom ! k))"
    if "k < 2" "propagate_down ! k" for k
    using k01 [OF that(1)] that(2) w0(1,4) w1(1,4) by auto
  show "cpu_diff (bottom' ! k) ! i = grad_written L' tops bottom k i"
    if "k < 2" "propagate_down ! k" "i < ?cnt" for k i
    using k01 [OF that(1)] that(2,3) w0(2) w1(2) by auto
  show "cpu_diff (bottom' ! k) ! i = cpu_diff (bottom ! k) ! i"
    if "k < 2" "propagate_down ! k" "?cnt \<le> i" "i < length (cpu_diff (bottom ! k))" for k i
    using k01 [OF that(1)] that(2,3,4) w0(3) w1(3) by auto
  have "0 < length bottom" if "propagate_down ! 0"
    using Backward_input_Inr [OF B0 that] by blast
  moreover have "1 < length bottom" if "propagate_down ! 1"
    using Backward_input_Inr [OF B1 that] f0(1) by metis
  ultimately show "k < length bottom" if "k < 2" "propagate_down ! k" for k
    using k01 [OF that(1)] that(2) by auto
qed

lemma Backward_ok:
  assumes "2 \<le> length propagate_down" "2 \<le> length bottom" "tops \<noteq> []" "cpu_diff (tops ! 0) \<noteq> []"
    and "\<And>k. k < 2 \<Longrightarrow> 0 < count (diff L) \<Longrightarrow> 0 < num (bottom ! k)"
    and "count (diff L) \<le> length (cpu_data (diff L))"
    and "\<And>k. k < 2 \<Longrightarrow> count (diff L) \<le> length (cpu_diff (bottom ! k))"
    and "has_weights L \<Longrightarrow> 3 \<le> length bottom \<and> count (diff L) \<le> length (cpu_data (bottom ! 2))"
    and "3 < length bottom \<Longrightarrow> count (diff L) \<le> length (cpu_data (bottom ! 3))"
  shows "\<exists>L' bottom'. SmoothL1Loss_Backward_cpu L tops propagate_down bottom = Inr (L', bottom')"
proof -
  let ?cnt = "count (diff L)"
  let ?L' = "L\<lparr>diff := (diff L)\<lparr>cpu_data := grad_loop (sigma2 L) ?cnt (cpu_data (diff L))\<rparr>\<rparr>"
  have cnt: "count (diff ?L') = ?cnt" by (simp add: count_def)
  have "\<exists>bottom0. Backward_input ?L' tops propagate_down 0 bottom = Inr bottom0"
  proof (rule Backward_input_ok)
    show "0 < length propagate_down" "0 < length bottom" using assms(1,2) by auto
    show "tops \<noteq> []" "cpu_diff (tops ! 0) \<noteq> []" by (rule assms(3,4))+
    show "0 < count (diff ?L') \<Longrightarrow> 0 < num (bottom ! 0)" using assms(5) [of 0] by (simp add: cnt)
    show "count (diff ?L') \<le> length (cpu_data (diff ?L'))" using assms(6) by (simp add: cnt)
    show "count (diff ?L') \<le> length (cpu_diff (bottom ! 0))" using assms(7) [of 0] by (simp add: cnt)
    show "has_weights ?L' \<Longrightarrow>
        3 \<le> length bottom \<and> count (diff ?L') \<le> length (cpu_data (bottom ! 2))"
      using assms(8) by (simp add: cnt)
    show "3 < length bottom \<Longrightarrow> count (diff ?L') \<le> length (cpu_data (bottom ! 3))"
      using assms(9) by (simp add: cnt)
  qed
  then obtain bottom0 where B0: "Backward_input ?L' tops propagate_down 0 bottom = Inr bottom0" ..
  note f0 = Backward_input_frame [OF B0]
  have "\<exists>bottom1. Backward_input ?L' tops propagate_down 1 bottom0 = Inr bottom1"
  proof (rule Backward_input_ok)
    show "1 < length propagate_down" "1 < length bottom0" using assms(1,2) by (simp_all add: f0(1))
    show "tops \<noteq> []" "cpu_diff (tops ! 0) \<noteq> []" by (rule assms(3,4))+
    show "0 < count (diff ?L') \<Longrightarrow> 0 < num (bottom0 ! 1)"
      using assms(5) [of 1] by (simp add: cnt f0(2))
    show "count (diff ?L') \<le> length (cpu_data (diff ?L'))" using assms(6) by (simp add: cnt)
    show "count (diff ?L') \<le> length (cpu_diff (bottom0 ! 1))"
      using assms(7) [of 1] by (simp add: cnt f0(2))
    show "has_weights ?L' \<Longrightarrow>
        3 \<le> length bottom0 \<and> count (diff ?L') \<le> length (cpu_data (bottom0 ! 2))"
      using assms(8) by (simp add: cnt f0(1) f0(2))
    show "3 < length bottom0 \<Longrightarrow> count (diff ?L') \<le> length (cpu_data (bottom0 ! 3))"
      using assms(9) by (simp add: cnt f0(1) f0(2))
  qed
  then obtain bottom1 where B1: "Backward_input ?L' tops propagate_down 1 bottom0 = Inr bottom1" ..
  have le: "\<not> length (cpu_data (diff L)) < ?cnt" using assms(6) by simp
  show ?thesis
    unfolding SmoothL1Loss_Backward_cpu_def Let_def if_not_P [OF le]
    using B0 B1 by simp
qed

lemma inputs_ok_num:
  assumes I: "inputs_ok bottom" and k: "k < length bottom" and c: "0 < count (bottom ! 0)"
  shows "0 < num (bottom ! k)"
proof (rule ccontr)
  assume "\<not> 0 < num (bottom ! k)"
  then have "count (bottom ! k) = 0" by (simp add: count_def)
  moreover from I k have "count (bottom ! 0) \<le> count (bottom ! k)"
    by (simp add: inputs_ok_def)
  ultimately have "count (bottom ! 0) = 0" by simp
  with c show False by simp
qed

lemma Backward_after_Forward:
  assumes R: "SmoothL1Loss_Reshape (LayerSetUp sigma L0 bottom) bottom tops0 = Inr (L, tops)"
    and I: "inputs_ok bottom"
    and F: "SmoothL1Loss_Forward_cpu L bottom tops = Inr (L1, tops1)"
    and T: "tops2 \<noteq> []" "cpu_diff (tops2 ! 0) \<noteq> []"
    and P: "2 \<le> length propagate_down"
  shows "\<exists>L2 bottom'. SmoothL1Loss_Backward_cpu L1 tops2 propagate_down bottom = Inr (L2, bottom')"
    and "count (diff L1) = count (bottom ! 0)"
    and "sigma2 L1 = sigma * sigma"
    and "has_weights L1 = (3 \<le> length bottom)"
    and "length (cpu_data (diff L1)) = count (bottom ! 0)"
proof -
  note r = Reshape_Inr [OF R]
  note f = Forward_Inr [OF F]
  show cnt: "count (diff L1) = count (bottom ! 0)" by (simp add: f(8) r(7))
  show "sigma2 L1 = sigma * sigma" by (simp add: f(5) r(5))
  show hw: "has_weights L1 = (3 \<le> length bottom)" by (simp add: f(6) r(6))
  show len: "length (cpu_data (diff L1)) = count (bottom ! 0)" by (simp add: f(9) r(8))
  show "\<exists>L2 bottom'. SmoothL1Loss_Backward_cpu L1 tops2 propagate_down bottom = Inr (L2, bottom')"
  proof (rule Backward_ok)
    show "2 \<le> length propagate_down" by (rule P)
    show "2 \<le> length bottom" by (rule r(1))
    show "tops2 \<noteq> []" "cpu_diff (tops2 ! 0) \<noteq> []" by (rule T)+
    show "0 < num (bottom ! k)" if "k < 2" "0 < count (diff L1)" for k
      using that r(1) by (intro inputs_ok_num [OF I]) (simp_all add: cnt)
    show "count (diff L1) \<le> length (cpu_data (diff L1))" by (simp add: cnt len)
    show "count (diff L1) \<le> length (cpu_diff (bottom ! k))" if "k < 2" for k
      using inputs_okD [OF I, of k] that r(1) by (simp add: cnt)
    show "3 \<le> length bottom \<and> count (diff L1) \<le> length (cpu_data (bottom ! 2))"
      if "has_weights L1"
      using inputs_okD [OF I, of 2] that by (simp add: cnt hw)
    show "count (diff L1) \<le> length (cpu_data (bottom ! 3))" if "3 < length bottom"
      using inputs_okD [OF I, of 3] that by (simp add: cnt)
  qed
qed

lemma smooth_l1_grad_nonzero:
  "s2 \<noteq> 0 \<Longrightarrow> smooth_l1_grad s2 d =
     (if \<bar>d\<bar> < 1 / s2 then s2 * d else if 0 < d then 1 else if d < 0 then - 1 else 0)"
  by (simp add: smooth_l1_grad_def less_inv_def)

lemma Backward_diff_nth:
  assumes B: "SmoothL1Loss_Backward_cpu L tops propagate_down bottom = Inr (L', bottom')"
    and i: "i < count (diff L)"
  shows "cpu_data (diff L') ! i = smooth_l1_grad (sigma2 L) (cpu_data (diff L) ! i)"
  using Backward_Inr(1) [OF B] i
  by (simp add: Backward_Inr(2) [OF B] nth_grad_loop)

text \<open>
  Claim C2. After \<^verbatim>\<open>Reshape\<close> and \<^verbatim>\<open>Forward_cpu\<close> on well-formed inputs, with \<open>sigma\<close>
  not zero, \<^verbatim>\<open>Backward_cpu\<close> returns. For every index \<open>i\<close> below \<open>count(bottom[0])\<close> the
  derivative it leaves in \<^verbatim>\<open>diff_\<close> is \<open>sigma2 * diff[i]\<close> when \<open>|diff[i]| < 1 / sigma2\<close> and
  the sign of \<open>diff[i]\<close> (0 at 0) otherwise. For each input \<open>k\<close> of prediction (0) and target
  (1) whose propagate flag is set, element \<open>i\<close> of its gradient buffer is
  \<open>alpha * grad[i]\<close> with \<open>alpha = sign\<^sub>k * top_diff[0] / num(bottom[k])\<close>, \<open>sign\<^sub>k\<close> being 1
  for the prediction and -1 for the target, multiplied by the inside weight when at least
  three inputs are supplied and by the outside weight when more than three are. The
  previous content of the gradient buffer does not occur in the value: it is overwritten.
\<close>

theorem Backward_cpu_gradient:
  assumes R: "SmoothL1Loss_Reshape (LayerSetUp sigma L0 bottom) bottom tops0 = Inr (L, tops)"
    and I: "inputs_ok bottom"
    and F: "SmoothL1Loss_Forward_cpu L bottom tops = Inr (L1, tops1)"
    and T: "tops2 \<noteq> []" "cpu_diff (tops2 ! 0) \<noteq> []"
    and P: "2 \<le> length propagate_down"
    and S: "sigma \<noteq> 0"
    and k: "k < 2" "propagate_down ! k" and i: "i < count (bottom ! 0)"
  shows "\<exists>L2 bottom'.
    SmoothL1Loss_Backward_cpu L1 tops2 propagate_down bottom = Inr (L2, bottom') \<and>
    cpu_data (diff L2) ! i =
      (let d = cpu_data (diff L1) ! i in
       if \<bar>d\<bar> < 1 / (sigma * sigma) then sigma * sigma * d
       else if 0 < d then 1 else if d < 0 then - 1 else 0) \<and>
    cpu_diff (bottom' ! k) ! i =
      (let alpha = (if k = 0 then 1 else - 1) * cpu_diff (tops2 ! 0) ! 0 / real (num (bottom ! k));
           g = alpha * cpu_data (diff L2) ! i;
           g1 = (if 3 \<le> length bottom then g * cpu_data (bottom ! 2) ! i else g)
       in if 3 < length bottom then g1 * cpu_data (bottom ! 3) ! i else g1)"
proof -
  note a = Backward_after_Forward [OF R I F T P]
  from a(1) obtain L2 bottom' where
    B: "SmoothL1Loss_Backward_cpu L1 tops2 propagate_down bottom = Inr (L2, bottom')" by blast
  have i': "i < count (diff L1)" using i by (simp add: a(2))
  have s2: "sigma * sigma \<noteq> 0" using S by simp
  have d: "cpu_data (diff L2) ! i =
      (let d = cpu_data (diff L1) ! i in
       if \<bar>d\<bar> < 1 / (sigma * sigma) then sigma * sigma * d
       else if 0 < d then 1 else if d < 0 then - 1 else 0)"
    using Backward_diff_nth [OF B i'] smooth_l1_grad_nonzero [OF s2]
    by (simp add: a(3) Let_def)
  have hw: "has_weights L2 = (3 \<le> length bottom)"
    by (simp add: Backward_Inr(2) [OF B] a(4))
  have g: "cpu_diff (bottom' ! k) ! i =
      (let alpha = (if k = 0 then 1 else - 1) * cpu_diff (tops2 ! 0) ! 0 / real (num (bottom ! k));
           g = alpha * cpu_data (diff L2) ! i;
           g1 = (if 3 \<le> length bottom then g * cpu_data (bottom ! 2) ! i else g)
       in if 3 < length bottom then g1 * cpu_data (bottom ! 3) ! i else g1)"
    using Backward_Inr(8) [OF B k i']
    by (simp add: grad_written_def hw Let_def mult.commute)
  from B d g show ?thesis by blast
qed

lemma example_Forward:
  "\<exists>L1 tops1. SmoothL1Loss_Forward_cpu example_layer example_inputs example_tops = Inr (L1, tops1)"
  by (rule Forward_after_Reshape [OF example_Reshape example_inputs_ok example_num])

lemma example_Forward_diff:
  assumes "SmoothL1Loss_Forward_cpu example_layer example_inputs example_tops = Inr (L1, tops1)"
  shows "cpu_data (diff L1) = [1, 1 / 5]"
  using assms by (auto simp add: example_defs run_defs)

theorem Backward_cpu_gradient_witness:
  "\<exists>L1 tops1 L2 bottom'.
     SmoothL1Loss_Forward_cpu example_layer example_inputs example_tops = Inr (L1, tops1) \<and>
     SmoothL1Loss_Backward_cpu L1 (example_top_grad 1) [True, True, False, False] example_inputs
       = Inr (L2, bottom') \<and>
     cpu_data (diff L1) ! 1 = 1 / 5 \<and> cpu_data (diff L2) ! 1 = 4 / 5 \<and>
     cpu_diff (bottom' ! 1) ! 1 = - (4 / 5)"
proof -
  from example_Forward obtain L1 tops1 where
    F: "SmoothL1Loss_Forward_cpu example_layer example_inputs example_tops = Inr (L1, tops1)"
    by blast
  have d1: "cpu_data (diff L1) ! 1 = 1 / 5" by (simp add: example_Forward_diff [OF F])
  have T: "example_top_grad 1 \<noteq> []" "cpu_diff (example_top_grad 1 ! 0) \<noteq> []"
    by (simp_all add: example_top_grad_def)
  have P: "2 \<le> length [True, True, False, False]" by simp
  have S: "(2::real) \<noteq> 0" by simp
  have k: "(1::nat) < 2" "[True, True, False, False] ! 1" by simp_all
  have i: "1 < count (example_inputs ! 0)" by (simp add: example_defs)
  from Backward_cpu_gradient [OF example_Reshape example_inputs_ok F T P S k i]
  obtain L2 bottom' where
    B: "SmoothL1Loss_Backward_cpu L1 (example_top_grad 1) [True, True, False, False] example_inputs
       = Inr (L2, bottom')"
    and d: "cpu_data (diff L2) ! 1 =
      (let d = cpu_data (diff L1) ! 1 in
       if \<bar>d\<bar> < 1 / (2 * 2) then 2 * 2 * d
       else if 0 < d then 1 else if d < 0 then - 1 else 0)"
    and g: "cpu_diff (bottom' ! 1) ! 1 =
      (let alpha = (if (1::nat) = 0 then 1 else - 1) * cpu_diff (example_top_grad 1 ! 0) ! 0
                     / real (num (example_inputs ! 1));
           g = alpha * cpu_data (diff L2) ! 1;
           g1 = (if 3 \<le> length example_inputs then g * cpu_data (example_inputs ! 2) ! 1 else g)
       in if 3 < length example_inputs then g1 * cpu_data (example_inputs ! 3) ! 1 else g1)"
    by blast
  from d d1 have d2: "cpu_data (diff L2) ! 1 = 4 / 5" by (simp add: Let_def)
  from g d2 have "cpu_diff (bottom' ! 1) ! 1 = - (4 / 5)"
    by (simp add: example_top_grad_def example_defs)
  with F B d1 d2 show ?thesis by blast
qed

text \<open>
  Claim C10 fails as stated, in its last clause. With \<open>sigma = 1\<close>, a prediction of 0.5
  and a target of 0, \<^verbatim>\<open>Reshape\<close> and \<^verbatim>\<open>Forward_cpu\<close> leave the difference 0.5 in \<^verbatim>\<open>diff_\<close>.
  Its derivative is \<open>sigma2 * 0.5 = 0.5\<close>, so \<^verbatim>\<open>Backward_cpu\<close>, which writes the gradients
  0.5 and -0.5, leaves the layer, \<^verbatim>\<open>diff_\<close> included, exactly as it was: the difference
  is not destroyed.
\<close>

theorem Backward_cpu_frame_counterexample:
  "SmoothL1Loss_Reshape (LayerSetUp 1 new_layer half_inputs) half_inputs [empty_blob] =
     Inr (reshaped_layer (LayerSetUp 1 new_layer half_inputs) (half_inputs ! 0), example_tops) \<and>
   SmoothL1Loss_Forward_cpu (reshaped_layer (LayerSetUp 1 new_layer half_inputs) (half_inputs ! 0))
     half_inputs example_tops = Inr (half_layer, [example_blob 1 [1 / 8]]) \<and>
   cpu_data (diff half_layer) = [1 / 2] \<and>
   SmoothL1Loss_Backward_cpu half_layer (example_top_grad 1) [True, True] half_inputs =
     Inr (half_layer,
          [(example_blob 1 [1 / 2])\<lparr>cpu_diff := [1 / 2]\<rparr>,
           (example_blob 1 [0])\<lparr>cpu_diff := [- (1 / 2)]\<rparr>])"
proof -
  have 1: "SmoothL1Loss_Reshape (LayerSetUp 1 new_layer half_inputs) half_inputs [empty_blob] =
     Inr (reshaped_layer (LayerSetUp 1 new_layer half_inputs) (half_inputs ! 0), example_tops)"
    by (simp add: Reshape_eq same_chw_def half_inputs_def example_defs)
  have 2: "SmoothL1Loss_Forward_cpu
     (reshaped_layer (LayerSetUp 1 new_layer half_inputs) (half_inputs ! 0))
     half_inputs example_tops = Inr (half_layer, [example_blob 1 [1 / 8]])"
    by (simp add: half_inputs_def half_layer_def example_defs run_defs)
  have 3: "cpu_data (diff half_layer) = [1 / 2]"
    by (simp add: half_layer_def example_defs)
  have 4: "SmoothL1Loss_Backward_cpu half_layer (example_top_grad 1) [True, True] half_inputs =
     Inr (half_layer,
          [(example_blob 1 [1 / 2])\<lparr>cpu_diff := [1 / 2]\<rparr>,
           (example_blob 1 [0])\<lparr>cpu_diff := [- (1 / 2)]\<rparr>])"
    by (simp add: half_inputs_def half_layer_def example_top_grad_def example_defs run_defs
        backward_defs)
  from 1 2 3 4 show ?thesis by simp
qed

text \<open>
  Claim C10, as amended. After \<^verbatim>\<open>Reshape\<close> and \<^verbatim>\<open>Forward_cpu\<close> on well-formed inputs,
  \<^verbatim>\<open>Backward_cpu\<close> returns, and for each propagated input \<open>k\<close> (0 or 1): the element count of
  \<^verbatim>\<open>diff_\<close> is \<open>count(bottom[0])\<close>; \<^verbatim>\<open>diff_\<close> holds, in place of each of its former elements
  \<open>d\<close>, the derivative \<open>sigma2 * d\<close> when \<open>sigma = 0\<close> or \<open>|d| < 1 / sigma2\<close>, and the sign of
  \<open>d\<close> (1, -1, or 0 at 0) otherwise, so the difference that \<^verbatim>\<open>Forward_cpu\<close> computed stays
  only where it equals its derivative; the first \<open>count(bottom[0])\<close> elements of the
  gradient buffer of \<open>bottom[k]\<close> are that derivative times \<open>alpha\<close>, the upstream gradient
  with the sign of the input divided by \<open>num(bottom[k])\<close>, times the inside and the outside
  weight when supplied; and the elements after them are as they were.
\<close>

theorem Backward_cpu_frame:
  assumes R: "SmoothL1Loss_Reshape (LayerSetUp sigma L0 bottom) bottom tops0 = Inr (L, tops)"
    and I: "inputs_ok bottom"
    and F: "SmoothL1Loss_Forward_cpu L bottom tops = Inr (L1, tops1)"
    and T: "tops2 \<noteq> []" "cpu_diff (tops2 ! 0) \<noteq> []"
    and P: "2 \<le> length propagate_down"
    and k: "k < 2" "propagate_down ! k"
  shows "\<exists>L2 bottom'.
    SmoothL1Loss_Backward_cpu L1 tops2 propagate_down bottom = Inr (L2, bottom') \<and>
    count (diff L1) = count (bottom ! 0) \<and>
    length (cpu_data (diff L1)) = count (bottom ! 0) \<and>
    cpu_data (diff L2) =
      map (\<lambda>d. if sigma = 0 \<or> \<bar>d\<bar> < 1 / (sigma * sigma) then sigma * sigma * d
               else if 0 < d then 1 else if d < 0 then - 1 else 0) (cpu_data (diff L1)) \<and>
    count (bottom ! 0) \<le> length (cpu_diff (bottom ! k)) \<and>
    length (cpu_diff (bottom' ! k)) = length (cpu_diff (bottom ! k)) \<and>
    take (count (bottom ! 0)) (cpu_diff (bottom' ! k)) =
      map (\<lambda>i.
        let alpha = (if k = 0 then 1 else - 1) * cpu_diff (tops2 ! 0) ! 0 / real (num (bottom ! k));
            g = alpha * cpu_data (diff L2) ! i
        in if 3 < length bottom then cpu_data (bottom ! 3) ! i * (cpu_data (bottom ! 2) ! i * g)
           else if 3 \<le> length bottom then cpu_data (bottom ! 2) ! i * g
           else g) [0..<count (bottom ! 0)] \<and>
    drop (count (bottom ! 0)) (cpu_diff (bottom' ! k)) =
      drop (count (bottom ! 0)) (cpu_diff (bottom ! k))"
proof -
  let ?cnt = "count (bottom ! 0)"
  note a = Backward_after_Forward [OF R I F T P]
  from a(1) obtain L2 bottom' where
    B: "SmoothL1Loss_Backward_cpu L1 tops2 propagate_down bottom = Inr (L2, bottom')" by blast
  note b = Backward_Inr [OF B, unfolded a(2)]
  from b(7) [OF k] have le: "?cnt \<le> length (cpu_diff (bottom ! k))"
    and len: "length (cpu_diff (bottom' ! k)) = length (cpu_diff (bottom ! k))"
    by simp_all
  have hw: "has_weights L2 = (3 \<le> length bottom)" by (simp add: b(2) a(4))
  have tk: "take ?cnt (cpu_diff (bottom' ! k)) =
      map (\<lambda>i.
        let alpha = (if k = 0 then 1 else - 1) * cpu_diff (tops2 ! 0) ! 0 / real (num (bottom ! k));
            g = alpha * cpu_data (diff L2) ! i
        in if 3 < length bottom then cpu_data (bottom ! 3) ! i * (cpu_data (bottom ! 2) ! i * g)
           else if 3 \<le> length bottom then cpu_data (bottom ! 2) ! i * g
           else g) [0..<?cnt]"
    using le by (intro nth_equalityI) (auto simp add: len b(8) [OF k] grad_written_def hw Let_def)
  have dr: "drop ?cnt (cpu_diff (bottom' ! k)) = drop ?cnt (cpu_diff (bottom ! k))"
    using le by (intro nth_equalityI) (simp_all add: len b(9) [OF k])
  have df: "cpu_data (diff L2) =
      map (\<lambda>d. if sigma = 0 \<or> \<bar>d\<bar> < 1 / (sigma * sigma) then sigma * sigma * d
               else if 0 < d then 1 else if d < 0 then - 1 else 0) (cpu_data (diff L1))"
    by (intro nth_equalityI)
      (auto simp add: b(2) a(2) a(3) a(5) nth_grad_loop smooth_l1_grad_def less_inv_def)
  from B a(2) a(5) df le len tk dr show ?thesis by blast
qed

theorem Backward_cpu_frame_witness:
  "\<exists>L1 tops1 L2 bottom'.
     SmoothL1Loss_Forward_cpu
       (reshaped_layer (LayerSetUp 1 new_layer uneven_inputs) (uneven_inputs ! 0))
       uneven_inputs example_tops = Inr (L1, tops1) \<and>
     SmoothL1Loss_Backward_cpu L1 (example_top_grad 1) [True, True] uneven_inputs
       = Inr (L2, bottom') \<and>
     cpu_data (diff L1) = [5] \<and> cpu_data (diff L2) = [1] \<and>
     cpu_diff (uneven_inputs ! 1) = [9, 9] \<and> cpu_diff (bottom' ! 1) = [- (1 / 2), 9]"
proof -
  let ?L = "reshaped_layer (LayerSetUp 1 new_layer uneven_inputs) (uneven_inputs ! 0)"
  have R: "SmoothL1Loss_Reshape (LayerSetUp 1 new_layer uneven_inputs) uneven_inputs [empty_blob]
     = Inr (?L, example_tops)"
    by (simp add: Reshape_eq same_chw_def uneven_inputs_def example_defs)
  have I: "inputs_ok uneven_inputs"
    by (simp add: inputs_ok_def blob_ok_def uneven_inputs_def example_defs)
  have N: "0 < num (uneven_inputs ! 0)" by (simp add: uneven_inputs_def example_defs)
  from Forward_after_Reshape [OF R I N] obtain L1 tops1 where
    F: "SmoothL1Loss_Forward_cpu ?L uneven_inputs example_tops = Inr (L1, tops1)" by blast
  then have d1: "cpu_data (diff L1) = [5]"
    by (auto simp add: uneven_inputs_def example_defs run_defs)
  have T: "example_top_grad 1 \<noteq> []" "cpu_diff (example_top_grad 1 ! 0) \<noteq> []"
    by (simp_all add: example_top_grad_def)
  have P: "2 \<le> length [True, True]" by simp
  have k: "(1::nat) < 2" "[True, True] ! 1" by simp_all
  from Backward_cpu_frame [OF R I F T P k] obtain L2 bottom' where
    B: "SmoothL1Loss_Backward_cpu L1 (example_top_grad 1) [True, True] uneven_inputs
       = Inr (L2, bottom')"
    and df: "cpu_data (diff L2) =
      map (\<lambda>d. if (1::real) = 0 \<or> \<bar>d\<bar> < 1 / (1 * 1) then 1 * 1 * d
               else if 0 < d then 1 else if d < 0 then - 1 else 0) (cpu_data (diff L1))"
    and len: "length (cpu_diff (bottom' ! 1)) = length (cpu_diff (uneven_inputs ! 1))"
    and tk: "take (count (uneven_inputs ! 0)) (cpu_diff (bottom' ! 1)) =
      map (\<lambda>i.
        let alpha = (if (1::nat) = 0 then 1 else - 1) * cpu_diff (example_top_grad 1 ! 0) ! 0
                      / real (num (uneven_inputs ! 1));
            g = alpha * cpu_data (diff L2) ! i
        in if 3 < length uneven_inputs
           then cpu_data (uneven_inputs ! 3) ! i * (cpu_data (uneven_inputs ! 2) ! i * g)
           else if 3 \<le> length uneven_inputs then cpu_data (uneven_inputs ! 2) ! i * g
           else g) [0..<count (uneven_inputs ! 0)]"
    and dr: "drop (count (uneven_inputs ! 0)) (cpu_diff (bottom' ! 1)) =
      drop (count (uneven_inputs ! 0)) (cpu_diff (uneven_inputs ! 1))"
    by blast
  have c: "count (uneven_inputs ! 0) = 1" by (simp add: uneven_inputs_def example_defs)
  from df have d2: "cpu_data (diff L2) = [1]"
    by (simp add: d1)
  from tk have t1: "take 1 (cpu_diff (bottom' ! 1)) = [- (1 / 2)]"
    by (simp add: c d2 example_top_grad_def uneven_inputs_def example_defs)
  from dr have d9: "drop 1 (cpu_diff (bottom' ! 1)) = [9]"
    by (simp add: c uneven_inputs_def example_defs)
  have "cpu_diff (bottom' ! 1) = take 1 (cpu_diff (bottom' ! 1)) @ drop 1 (cpu_diff (bottom' ! 1))"
    by simp
  then have g: "cpu_diff (bottom' ! 1) = [- (1 / 2), 9]" by (simp only: t1 d9) simp
  have old: "cpu_diff (uneven_inputs ! 1) = [9, 9]" by (simp add: uneven_inputs_def example_defs)
  from F B d1 d2 old g show ?thesis by blast
qed

section \<open>Reshape of the loss layer\<close>

lemma same_chw_num_update [simp]:
  "same_chw (a\<lparr>num := n\<rparr>) b = same_chw a b" "same_chw a (b\<lparr>num := n\<rparr>) = same_chw a b"
  by (simp_all add: same_chw_def)

lemma same_chw_nth_update:
  "j < length bottom \<Longrightarrow> j' < length bottom \<Longrightarrow>
   same_chw (bottom[k := (bottom ! k)\<lparr>num := n\<rparr>] ! j) (bottom[k := (bottom ! k)\<lparr>num := n\<rparr>] ! j')
     = same_chw (bottom ! j) (bottom ! j')"
  by (cases "j = k"; cases "j' = k") simp_all

lemma reshaped_layer_ok:
  "shape (diff (reshaped_layer L b0)) = shape b0"
  "shape (errors (reshaped_layer L b0)) = shape b0"
  "shape (ones (reshaped_layer L b0)) = shape b0"
  "blob_ok (diff (reshaped_layer L b0))"
  "blob_ok (errors (reshaped_layer L b0))"
  "blob_ok (ones (reshaped_layer L b0))"
  "cpu_data (ones (reshaped_layer L b0)) = replicate (count b0) 1"
  by (simp_all add: reshaped_layer_def shape_def blob_ok_def count_def)

text \<open>
  Claim C4. With at least two inputs and an output blob, \<^verbatim>\<open>Reshape\<close> after \<^verbatim>\<open>LayerSetUp\<close>
  fails exactly when \<open>bottom[0]\<close> and \<open>bottom[1]\<close> differ in channels, height or width, or
  at least three inputs are supplied and \<open>bottom[0]\<close> and \<open>bottom[2]\<close> differ so, or more
  than three are supplied and \<open>bottom[0]\<close> and \<open>bottom[3]\<close> differ so; the failure is the
  fatal check. Changing the leading dimension \<open>num\<close> of any input changes nothing about
  whether it fails. When it does not fail, \<^verbatim>\<open>diff_\<close>, \<^verbatim>\<open>errors_\<close> and \<^verbatim>\<open>ones_\<close> have the
  shape of \<open>bottom[0]\<close> and as many elements, and \<^verbatim>\<open>ones_\<close> holds 1 everywhere.
  The base class's \<^verbatim>\<open>LossLayer::Reshape\<close>, called first, is \<open>LossLayer_Reshape\<close>, the
  model from the spec.
\<close>

theorem Reshape_fails_iff:
  assumes len: "2 \<le> length bottom" and t: "tops \<noteq> []"
  shows
   "(isl (SmoothL1Loss_Reshape (LayerSetUp sigma L0 bottom) bottom tops) \<longleftrightarrow>
       \<not> same_chw (bottom ! 0) (bottom ! 1)
       \<or> (3 \<le> length bottom \<and> \<not> same_chw (bottom ! 0) (bottom ! 2))
       \<or> (3 < length bottom \<and> \<not> same_chw (bottom ! 0) (bottom ! 3))) \<and>
    (isl (SmoothL1Loss_Reshape (LayerSetUp sigma L0 bottom) bottom tops) \<longrightarrow>
       SmoothL1Loss_Reshape (LayerSetUp sigma L0 bottom) bottom tops = Inl CheckFailed) \<and>
    isl (SmoothL1Loss_Reshape (LayerSetUp sigma L0 bottom)
           (bottom[k := (bottom ! k)\<lparr>num := n\<rparr>]) tops) =
      isl (SmoothL1Loss_Reshape (LayerSetUp sigma L0 bottom) bottom tops) \<and>
    (\<not> isl (SmoothL1Loss_Reshape (LayerSetUp sigma L0 bottom) bottom tops) \<longrightarrow>
       (\<exists>L' tops'.
          SmoothL1Loss_Reshape (LayerSetUp sigma L0 bottom) bottom tops = Inr (L', tops') \<and>
          shape (diff L') = shape (bottom ! 0) \<and> shape (errors L') = shape (bottom ! 0) \<and>
          shape (ones L') = shape (bottom ! 0) \<and>
          blob_ok (diff L') \<and> blob_ok (errors L') \<and> blob_ok (ones L') \<and>
          cpu_data (ones L') = replicate (count (bottom ! 0)) 1))"
proof -
  let ?L = "LayerSetUp sigma L0 bottom"
  let ?bottom' = "bottom[k := (bottom ! k)\<lparr>num := n\<rparr>]"
  have hw: "has_weights ?L = (3 \<le> length bottom)" by (simp add: LayerSetUp_def)
  have hw': "has_weights ?L \<longrightarrow> 3 \<le> length bottom" by (simp add: hw)
  note eq = Reshape_eq [OF len t hw', unfolded hw]
  have len': "2 \<le> length ?bottom'" using len by simp
  have hw'': "has_weights ?L \<longrightarrow> 3 \<le> length ?bottom'" by (simp add: hw)
  note eq' = Reshape_eq [OF len' t hw'', unfolded hw]
  have s1: "same_chw (?bottom' ! 0) (?bottom' ! 1) = same_chw (bottom ! 0) (bottom ! 1)"
    using len by (intro same_chw_nth_update) auto
  have s2: "same_chw (?bottom' ! 0) (?bottom' ! 2) = same_chw (bottom ! 0) (bottom ! 2)"
    if "3 \<le> length bottom"
    using that by (intro same_chw_nth_update) auto
  have s3: "same_chw (?bottom' ! 0) (?bottom' ! 3) = same_chw (bottom ! 0) (bottom ! 3)"
    if "3 < length bottom"
    using that by (intro same_chw_nth_update) auto
  have a: "isl (SmoothL1Loss_Reshape ?L bottom tops) \<longleftrightarrow>
       \<not> same_chw (bottom ! 0) (bottom ! 1)
       \<or> (3 \<le> length bottom \<and> \<not> same_chw (bottom ! 0) (bottom ! 2))
       \<or> (3 < length bottom \<and> \<not> same_chw (bottom ! 0) (bottom ! 3))"
    unfolding eq by auto
  have b: "isl (SmoothL1Loss_Reshape ?L bottom tops) \<longrightarrow>
       SmoothL1Loss_Reshape ?L bottom tops = Inl CheckFailed"
    unfolding eq by auto
  have "isl (SmoothL1Loss_Reshape ?L ?bottom' tops) \<longleftrightarrow>
       \<not> same_chw (bottom ! 0) (bottom ! 1)
       \<or> (3 \<le> length bottom \<and> \<not> same_chw (bottom ! 0) (bottom ! 2))
       \<or> (3 < length bottom \<and> \<not> same_chw (bottom ! 0) (bottom ! 3))"
    unfolding eq' using s1 s2 s3 by auto
  with a have c: "isl (SmoothL1Loss_Reshape ?L ?bottom' tops) =
      isl (SmoothL1Loss_Reshape ?L bottom tops)" by blast
  have d: "\<not> isl (SmoothL1Loss_Reshape ?L bottom tops) \<longrightarrow>
       (\<exists>L' tops'.
          SmoothL1Loss_Reshape ?L bottom tops = Inr (L', tops') \<and>
          shape (diff L') = shape (bottom ! 0) \<and> shape (errors L') = shape (bottom ! 0) \<and>
          shape (ones L') = shape (bottom ! 0) \<and>
          blob_ok (diff L') \<and> blob_ok (errors L') \<and> blob_ok (ones L') \<and>
          cpu_data (ones L') = replicate (count (bottom ! 0)) 1)"
    unfolding eq by (auto simp: reshaped_layer_ok)
  from a b c d show ?thesis by blast
qed

theorem Reshape_fails_iff_witness:
  "\<not> isl (SmoothL1Loss_Reshape (LayerSetUp 1 new_layer uneven_inputs) uneven_inputs [empty_blob]) \<and>
   num (uneven_inputs ! 0) = 1 \<and> num (uneven_inputs ! 1) = 2 \<and>
   SmoothL1Loss_Reshape (LayerSetUp 1 new_layer mismatched_inputs) mismatched_inputs [empty_blob]
     = Inl CheckFailed"
proof -
  have l: "2 \<le> length uneven_inputs" "2 \<le> length mismatched_inputs"
    by (simp_all add: uneven_inputs_def mismatched_inputs_def)
  have t: "[empty_blob] \<noteq> []" by simp
  have u: "same_chw (uneven_inputs ! 0) (uneven_inputs ! 1)" "\<not> 3 \<le> length uneven_inputs"
    by (simp_all add: uneven_inputs_def same_chw_def example_defs)
  have m: "\<not> same_chw (mismatched_inputs ! 0) (mismatched_inputs ! 1)"
    by (simp add: mismatched_inputs_def same_chw_def example_defs)
  from Reshape_fails_iff [OF l(1) t, of 1 new_layer 0 1] u
  have 1: "\<not> isl (SmoothL1Loss_Reshape (LayerSetUp 1 new_layer uneven_inputs) uneven_inputs
      [empty_blob])"
    by simp
  from Reshape_fails_iff [OF l(2) t, of 1 new_layer 0 1] m
  have 2: "SmoothL1Loss_Reshape (LayerSetUp 1 new_layer mismatched_inputs) mismatched_inputs
      [empty_blob] = Inl CheckFailed"
    by simp
  have 3: "num (uneven_inputs ! 0) = 1" "num (uneven_inputs ! 1) = 2"
    by (simp_all add: uneven_inputs_def example_defs)
  from 1 2 3 show ?thesis by simp
qed

section \<open>The rounding layer\<close>

lemma rint_nearest:
  obtains z :: int where "rint x = of_int z" "\<bar>of_int z - x\<bar> \<le> 1 / 2"
    "\<bar>of_int z - x\<bar> = 1 / 2 \<Longrightarrow> even z"
proof -
  let ?f = "\<lfloor>x\<rfloor>"
  let ?r = "x - of_int ?f"
  have r: "0 \<le> ?r" "?r < 1" by linarith+
  consider "?r < 1 / 2" | "1 / 2 < ?r" | "?r = 1 / 2" "even ?f" | "?r = 1 / 2" "odd ?f"
    by fastforce
  then show thesis
  proof cases
    case 1
    then have "rint x = of_int ?f" by (simp add: rint_def Let_def)
    moreover from 1 r have "\<bar>of_int ?f - x\<bar> < 1 / 2" by linarith
    ultimately show thesis by (intro that [of ?f]) simp_all
  next
    case 2
    then have "rint x = of_int (?f + 1)" by (simp add: rint_def Let_def)
    moreover from 2 r have "\<bar>of_int (?f + 1) - x\<bar> < 1 / 2" by (simp; linarith?)
    ultimately show thesis by (intro that [of "?f + 1"]) simp_all
  next
    case 3
    then have "rint x = of_int ?f" by (simp add: rint_def Let_def)
    moreover from 3 have "\<bar>of_int ?f - x\<bar> \<le> 1 / 2" by linarith
    ultimately show thesis using 3(2) by (intro that [of ?f]) simp_all
  next
    case 4
    then have "rint x = of_int (?f + 1)" by (simp add: rint_def Let_def)
    moreover from 4 have "\<bar>of_int (?f + 1) - x\<bar> \<le> 1 / 2" by (simp; linarith?)
    ultimately show thesis using 4(2) by (intro that [of "?f + 1"]) simp_all
  qed
qed

lemma nearest_int:
  fixes z m :: int and x :: real
  assumes "\<bar>of_int z - x\<bar> \<le> 1 / 2"
  shows "\<bar>of_int z - x\<bar> \<le> \<bar>of_int m - x\<bar>"
proof (cases "m = z")
  case True
  then show ?thesis by simp
next
  case False
  then have "1 \<le> \<bar>m - z\<bar>" by linarith
  then have "1 \<le> \<bar>(of_int m :: real) - of_int z\<bar>"
    by (metis of_int_1 of_int_abs of_int_diff of_int_le_iff)
  with assms show ?thesis by linarith
qed

lemma rint_examples: "rint 2.5 = 2" "rint 3.5 = 4" "rint (- 2.5) = - 2"
  by (simp_all add: rint_def Let_def)

lemma ReshapeLike_simps [simp]:
  "shape (ReshapeLike other b) = shape other"
  "count (ReshapeLike other b) = count other"
  "length (cpu_data (ReshapeLike other b)) = count other"
  by (simp_all add: ReshapeLike_def shape_def count_def)

lemma Round_Reshape_eq:
  "bottom \<noteq> [] \<Longrightarrow> tops \<noteq> [] \<Longrightarrow>
   Round_Reshape bottom tops = Inr (tops[0 := ReshapeLike (bottom ! 0) (tops ! 0)])"
  by (simp add: Round_Reshape_def CHECK_EQ_def Let_def)

lemma shape_cpu_data_update [simp]: "shape (b\<lparr>cpu_data := xs\<rparr>) = shape b"
  by (simp add: shape_def)

text \<open>
  Claim C5. For a well-formed input blob, \<^verbatim>\<open>RoundLayer::Reshape\<close> followed by
  \<^verbatim>\<open>RoundLayer::Forward_cpu\<close> returns; the output blob has the shape of the input blob, and
  for every index \<open>i\<close> below \<open>count\<close> the output element is \<^verbatim>\<open>rint\<close> of the input element:
  an integer, no farther from the input element than any other integer, and even when
  the input element is half-way between two integers. So 2.5 gives 2, 3.5 gives 4 and
  -2.5 gives -2.
\<close>

theorem Round_Forward_cpu_nearest_even:
  assumes b: "bottom \<noteq> []" and t: "tops \<noteq> []" and ok: "blob_ok (bottom ! 0)"
    and i: "i < count (bottom ! 0)"
  shows "\<exists>tops1 tops2.
    Round_Reshape bottom tops = Inr tops1 \<and> Round_Forward_cpu bottom tops1 = Inr tops2 \<and>
    shape (tops2 ! 0) = shape (bottom ! 0) \<and>
    length (cpu_data (tops2 ! 0)) = count (bottom ! 0) \<and>
    cpu_data (tops2 ! 0) ! i = rint (cpu_data (bottom ! 0) ! i) \<and>
    (\<exists>z::int. cpu_data (tops2 ! 0) ! i = of_int z \<and>
       (\<forall>m::int. \<bar>of_int z - cpu_data (bottom ! 0) ! i\<bar> \<le> \<bar>of_int m - cpu_data (bottom ! 0) ! i\<bar>) \<and>
       (\<bar>of_int z - cpu_data (bottom ! 0) ! i\<bar> = 1 / 2 \<longrightarrow> even z)) \<and>
    rint 2.5 = 2 \<and> rint 3.5 = 4 \<and> rint (- 2.5) = - 2"
proof -
  let ?cnt = "count (bottom ! 0)"
  let ?tops1 = "tops[0 := ReshapeLike (bottom ! 0) (tops ! 0)]"
  let ?tops2 = "?tops1[0 := (?tops1 ! 0)\<lparr>cpu_data :=
      round_loop (cpu_data (bottom ! 0)) ?cnt (cpu_data (?tops1 ! 0))\<rparr>]"
  from ok have lb: "length (cpu_data (bottom ! 0)) = ?cnt" by (simp add: blob_ok_def)
  have t1: "?tops1 ! 0 = ReshapeLike (bottom ! 0) (tops ! 0)" using t by simp
  have R: "Round_Reshape bottom tops = Inr ?tops1" by (rule Round_Reshape_eq [OF b t])
  have F: "Round_Forward_cpu bottom ?tops1 = Inr ?tops2"
    using b t by (simp add: Round_Forward_cpu_def Let_def lb)
  have t2: "?tops2 ! 0 = (ReshapeLike (bottom ! 0) (tops ! 0))\<lparr>cpu_data :=
      round_loop (cpu_data (bottom ! 0)) ?cnt (cpu_data (ReshapeLike (bottom ! 0) (tops ! 0)))\<rparr>"
    using t by simp
  have sh: "shape (?tops2 ! 0) = shape (bottom ! 0)" by (simp only: t2) simp
  have ln: "length (cpu_data (?tops2 ! 0)) = ?cnt" by (simp only: t2) simp
  have v: "cpu_data (?tops2 ! 0) ! i = rint (cpu_data (bottom ! 0) ! i)"
    using i by (simp only: t2) (simp add: nth_round_loop)
  obtain z :: int where z: "rint (cpu_data (bottom ! 0) ! i) = of_int z"
    "\<bar>of_int z - cpu_data (bottom ! 0) ! i\<bar> \<le> 1 / 2"
    "\<bar>of_int z - cpu_data (bottom ! 0) ! i\<bar> = 1 / 2 \<Longrightarrow> even z"
    by (rule rint_nearest [of "cpu_data (bottom ! 0) ! i"]) blast
  have n: "\<exists>z::int. cpu_data (?tops2 ! 0) ! i = of_int z \<and>
       (\<forall>m::int. \<bar>of_int z - cpu_data (bottom ! 0) ! i\<bar> \<le> \<bar>of_int m - cpu_data (bottom ! 0) ! i\<bar>) \<and>
       (\<bar>of_int z - cpu_data (bottom ! 0) ! i\<bar> = 1 / 2 \<longrightarrow> even z)"
    using z nearest_int [OF z(2)] unfolding v by blast
  from R F sh ln v n rint_examples show ?thesis by blast
qed

theorem Round_Forward_cpu_nearest_even_witness:
  "\<exists>tops1 tops2.
    Round_Reshape round_inputs [empty_blob] = Inr tops1 \<and>
    Round_Forward_cpu round_inputs tops1 = Inr tops2 \<and>
    shape (tops2 ! 0) = (3, 1, 1, 1) \<and> cpu_data (tops2 ! 0) ! 2 = - 2"
proof -
  have b: "round_inputs \<noteq> []" by (simp add: round_inputs_def)
  have t: "[empty_blob] \<noteq> []" by simp
  have ok: "blob_ok (round_inputs ! 0)"
    by (simp add: round_inputs_def blob_ok_def example_defs)
  have i: "2 < count (round_inputs ! 0)" by (simp add: round_inputs_def example_defs)
  from Round_Forward_cpu_nearest_even [OF b t ok i] obtain tops1 tops2 where
    R: "Round_Reshape round_inputs [empty_blob] = Inr tops1"
    and F: "Round_Forward_cpu round_inputs tops1 = Inr tops2"
    and s: "shape (tops2 ! 0) = shape (round_inputs ! 0)"
    and v: "cpu_data (tops2 ! 0) ! 2 = rint (cpu_data (round_inputs ! 0) ! 2)"
    by blast
  from s have s': "shape (tops2 ! 0) = (3, 1, 1, 1)"
    by (simp add: round_inputs_def shape_def example_defs)
  have "cpu_data (round_inputs ! 0) ! 2 = - 2.5" by (simp add: round_inputs_def example_defs)
  with v have "cpu_data (tops2 ! 0) ! 2 = - 2" by (simp only: rint_examples)
  with R F s' show ?thesis by blast
qed

section \<open>Continuity at the knee\<close>

lemma smooth_l1_closed_form:
  assumes "0 < s2"
  shows "smooth_l1 s2 x = s2 / 2 * (min \<bar>x\<bar> (1 / s2))\<^sup>2 + (\<bar>x\<bar> - min \<bar>x\<bar> (1 / s2))"
proof (cases "\<bar>x\<bar> < 1 / s2")
  case True
  then show ?thesis
    using assms by (simp add: smooth_l1_def less_inv_def min_def power2_eq_square)
next
  case False
  then have "min \<bar>x\<bar> (1 / s2) = 1 / s2" by (simp add: min_def)
  with False assms show ?thesis
    by (simp add: smooth_l1_def less_inv_def power2_eq_square)
qed

lemma smooth_l1_grad_closed_form:
  assumes "0 < s2"
  shows "smooth_l1_grad s2 x = s2 * max (- (1 / s2)) (min x (1 / s2))"
proof -
  have k: "0 < 1 / s2" using assms by simp
  consider "\<bar>x\<bar> < 1 / s2" | "1 / s2 \<le> x" | "x \<le> - (1 / s2)" by linarith
  then show ?thesis
  proof cases
    case 1
    then have "max (- (1 / s2)) (min x (1 / s2)) = x" by (simp add: min_def max_def) linarith
    with 1 assms show ?thesis by (simp add: smooth_l1_grad_def less_inv_def)
  next
    case 2
    then have m: "max (- (1 / s2)) (min x (1 / s2)) = 1 / s2" using k by (simp add: min_def max_def)
    from 2 k have "\<not> \<bar>x\<bar> < 1 / s2" "0 < x" by linarith+
    with assms show ?thesis by (simp add: m smooth_l1_grad_def less_inv_def)
  next
    case 3
    moreover from 3 k have "x \<le> 1 / s2" by linarith
    ultimately have m: "max (- (1 / s2)) (min x (1 / s2)) = - (1 / s2)"
      by (simp add: min_def max_def)
    from 3 k have "\<not> \<bar>x\<bar> < 1 / s2" "x < 0" by linarith+
    with assms show ?thesis by (simp add: m smooth_l1_grad_def less_inv_def)
  qed
qed

lemma isCont_smooth_l1:
  assumes "0 < s2"
  shows "isCont (smooth_l1 s2) x"
proof -
  have "smooth_l1 s2 = (\<lambda>x. s2 / 2 * (min \<bar>x\<bar> (1 / s2))\<^sup>2 + (\<bar>x\<bar> - min \<bar>x\<bar> (1 / s2)))"
    by (rule ext) (rule smooth_l1_closed_form [OF assms])
  then show ?thesis by (simp only:) (intro continuous_intros)
qed

lemma isCont_smooth_l1_grad:
  assumes "0 < s2"
  shows "isCont (smooth_l1_grad s2) x"
proof -
  have "smooth_l1_grad s2 = (\<lambda>x. s2 * max (- (1 / s2)) (min x (1 / s2)))"
    by (rule ext) (rule smooth_l1_grad_closed_form [OF assms])
  then show ?thesis by (simp only:) (intro continuous_intros)
qed

text \<open>
  Claim C6. For \<open>sigma\<close> not zero (so for every positive \<open>sigma\<close>) and \<open>sigma2\<close> as
  \<^verbatim>\<open>LayerSetUp\<close> computes it, at a difference \<open>d\<close> with \<open>|d| = 1 / sigma2\<close>: the two
  expressions of the forward loop are both \<open>0.5 / sigma2\<close>, which is also the value of the
  loss there; the two expressions of the backward loop, \<open>sigma2 * d\<close> and
  \<open>(0 < d) - (d < 0)\<close>, are equal, of magnitude 1, and equal to the derivative the loop
  stores; and both the elementwise loss and its derivative are continuous at \<open>d\<close>.
\<close>

theorem knee_continuity:
  assumes S: "sigma \<noteq> 0" and K: "\<bar>d\<bar> = 1 / sigma2 (LayerSetUp sigma L0 bottom)"
  shows "0.5 * d * d * sigma2 (LayerSetUp sigma L0 bottom) = 0.5 / sigma2 (LayerSetUp sigma L0 bottom) \<and>
    \<bar>d\<bar> - 0.5 / sigma2 (LayerSetUp sigma L0 bottom) = 0.5 / sigma2 (LayerSetUp sigma L0 bottom) \<and>
    smooth_l1 (sigma2 (LayerSetUp sigma L0 bottom)) d = 0.5 / sigma2 (LayerSetUp sigma L0 bottom) \<and>
    sigma2 (LayerSetUp sigma L0 bottom) * d =
      of_int ((if 0 < d then 1 else 0) - (if d < 0 then 1 else 0)) \<and>
    \<bar>sigma2 (LayerSetUp sigma L0 bottom) * d\<bar> = 1 \<and>
    smooth_l1_grad (sigma2 (LayerSetUp sigma L0 bottom)) d =
      sigma2 (LayerSetUp sigma L0 bottom) * d \<and>
    isCont (smooth_l1 (sigma2 (LayerSetUp sigma L0 bottom))) d \<and>
    isCont (smooth_l1_grad (sigma2 (LayerSetUp sigma L0 bottom))) d"
proof -
  define s2 where "s2 = sigma2 (LayerSetUp sigma L0 bottom)"
  have s2: "s2 = sigma * sigma" by (simp add: s2_def LayerSetUp_def)
  from S have "s2 \<noteq> 0" "0 \<le> s2" by (simp_all add: s2)
  then have pos: "0 < s2" by simp
  from K have K': "\<bar>d\<bar> = 1 / s2" by (simp add: s2_def)
  have dd: "d * d = 1 / s2 * (1 / s2)"
    using K' by (metis abs_mult_self_eq)
  have 1: "0.5 * d * d * s2 = 0.5 / s2"
    using pos dd by (simp add: mult.assoc)
  have 2: "\<bar>d\<bar> - 0.5 / s2 = 0.5 / s2" using K' pos by (simp add: field_simps)
  have 3: "smooth_l1 s2 d = 0.5 / s2"
    using K' pos 2 by (simp add: smooth_l1_def less_inv_def)
  have 4: "s2 * d = of_int ((if 0 < d then 1 else 0) - (if d < 0 then 1 else 0))"
  proof (cases "0 < d")
    case True
    with K' have "d = 1 / s2" by simp
    with True pos show ?thesis by simp
  next
    case False
    with K' pos have "d < 0" by (cases "d = 0") auto
    with K' have "d = - (1 / s2)" by simp
    with \<open>d < 0\<close> pos show ?thesis by simp
  qed
  have 5: "\<bar>s2 * d\<bar> = 1" using K' pos by (simp add: abs_mult)
  have 6: "smooth_l1_grad s2 d = s2 * d"
    using K' pos 4 by (simp add: smooth_l1_grad_def less_inv_def)
  from 1 2 3 4 5 6 isCont_smooth_l1 [OF pos] isCont_smooth_l1_grad [OF pos]
  show ?thesis unfolding s2_def by blast
qed

theorem knee_continuity_witness:
  "smooth_l1 (sigma2 (LayerSetUp 2 new_layer example_inputs)) (1 / 4) = 1 / 8 \<and>
   smooth_l1_grad (sigma2 (LayerSetUp 2 new_layer example_inputs)) (1 / 4) = 1 \<and>
   isCont (smooth_l1 (sigma2 (LayerSetUp 2 new_layer example_inputs))) (1 / 4) \<and>
   isCont (smooth_l1_grad (sigma2 (LayerSetUp 2 new_layer example_inputs))) (1 / 4)"
proof -
  have s: "sigma2 (LayerSetUp 2 new_layer example_inputs) = 4" by (simp add: LayerSetUp_def)
  have S: "(2::real) \<noteq> 0" by simp
  have K: "\<bar>1 / 4 :: real\<bar> = 1 / sigma2 (LayerSetUp 2 new_layer example_inputs)"
    by (simp add: s)
  from knee_continuity [OF S K] show ?thesis by (simp add: s)
qed

section \<open>Determinism\<close>

text \<open>
  Claim C9 fails as stated. With \<open>sigma = 2\<close>, a prediction of 0.1 and a target of 0,
  \<^verbatim>\<open>Reshape\<close> and \<^verbatim>\<open>Forward_cpu\<close> leave 0.1 in \<^verbatim>\<open>diff_\<close>. A first \<^verbatim>\<open>Backward_cpu\<close> writes
  the gradients 0.4 and -0.4 and leaves 0.4 in \<^verbatim>\<open>diff_\<close>; a second \<^verbatim>\<open>Backward_cpu\<close> with
  the same output blob, the same flags, the same inputs and the same configuration
  writes the gradients 1 and -1.
\<close>

theorem determinism_counterexample:
  "SmoothL1Loss_Reshape (LayerSetUp 2 new_layer small_inputs) small_inputs [empty_blob] =
     Inr (reshaped_layer (LayerSetUp 2 new_layer small_inputs) (small_inputs ! 0), example_tops) \<and>
   SmoothL1Loss_Forward_cpu
     (reshaped_layer (LayerSetUp 2 new_layer small_inputs) (small_inputs ! 0))
     small_inputs example_tops = Inr (small_layer (1 / 10), [example_blob 1 [1 / 50]]) \<and>
   SmoothL1Loss_Backward_cpu (small_layer (1 / 10)) (example_top_grad 1) [True, True] small_inputs
     = Inr (small_layer (2 / 5), small_grads (2 / 5)) \<and>
   SmoothL1Loss_Backward_cpu (small_layer (2 / 5)) (example_top_grad 1) [True, True] small_inputs
     = Inr (small_layer 1, small_grads 1) \<and>
   sigma2 (small_layer (1 / 10)) = sigma2 (small_layer (2 / 5)) \<and>
   has_weights (small_layer (1 / 10)) = has_weights (small_layer (2 / 5)) \<and>
   small_grads (2 / 5) \<noteq> small_grads 1"
proof -
  have 1: "SmoothL1Loss_Reshape (LayerSetUp 2 new_layer small_inputs) small_inputs [empty_blob] =
     Inr (reshaped_layer (LayerSetUp 2 new_layer small_inputs) (small_inputs ! 0), example_tops)"
    by (simp add: Reshape_eq same_chw_def small_inputs_def example_defs)
  have 2: "SmoothL1Loss_Forward_cpu
     (reshaped_layer (LayerSetUp 2 new_layer small_inputs) (small_inputs ! 0))
     small_inputs example_tops = Inr (small_layer (1 / 10), [example_blob 1 [1 / 50]])"
    by (simp add: small_inputs_def small_layer_def example_defs run_defs)
  have 3: "SmoothL1Loss_Backward_cpu (small_layer (1 / 10)) (example_top_grad 1) [True, True]
     small_inputs = Inr (small_layer (2 / 5), small_grads (2 / 5))"
    by (simp add: small_inputs_def small_layer_def small_grads_def example_top_grad_def
        example_defs run_defs backward_defs)
  have 4: "SmoothL1Loss_Backward_cpu (small_layer (2 / 5)) (example_top_grad 1) [True, True]
     small_inputs = Inr (small_layer 1, small_grads 1)"
    by (simp add: small_inputs_def small_layer_def small_grads_def example_top_grad_def
        example_defs run_defs backward_defs)
  have 5: "sigma2 (small_layer (1 / 10)) = sigma2 (small_layer (2 / 5))"
    "has_weights (small_layer (1 / 10)) = has_weights (small_layer (2 / 5))"
    "small_grads (2 / 5) \<noteq> small_grads 1"
    by (simp_all add: small_layer_def small_grads_def example_blob_def)
  from 1 2 3 4 5 show ?thesis by blast
qed

lemma shape_eqD:
  "shape a = shape b \<Longrightarrow> count a = count b \<and> num a = num b"
  by (simp add: shape_def count_def)

lemma map_eq_nthD:
  "map f xs = map f ys \<Longrightarrow> k < length xs \<Longrightarrow> f (xs ! k) = f (ys ! k)"
  by (metis length_map nth_map)

text \<open>Two returned forward passes from layers and inputs that agree give the same data.\<close>

lemma Forward_agree:
  assumes FA: "SmoothL1Loss_Forward_cpu LA bA tA = Inr (LA1, tA1)"
    and FB: "SmoothL1Loss_Forward_cpu LB bB tB = Inr (LB1, tB1)"
    and cfg: "sigma2 LA = sigma2 LB" "has_weights LA = has_weights LB"
      "cpu_data (ones LA) = cpu_data (ones LB)"
    and lenA: "length (cpu_data (diff LA)) = count (bA ! 0)"
      "length (cpu_data (errors LA)) = count (bA ! 0)"
    and lenB: "length (cpu_data (diff LB)) = count (bB ! 0)"
      "length (cpu_data (errors LB)) = count (bB ! 0)"
    and sh: "map shape bA = map shape bB" and da: "map cpu_data bA = map cpu_data bB"
  shows "cpu_data (diff LA1) = cpu_data (diff LB1)"
    "cpu_data (errors LA1) = cpu_data (errors LB1)"
    "cpu_data (tA1 ! 0) ! 0 = cpu_data (tB1 ! 0) ! 0"
proof -
  note a = Forward_Inr [OF FA]
  note b = Forward_Inr [OF FB]
  from sh have len: "length bA = length bB" by (rule map_eq_imp_length_eq)
  from a(1) have "0 < length bA" by auto
  then have s0: "shape (bA ! 0) = shape (bB ! 0)"
    by (rule map_eq_nthD [OF sh])
  have cnt: "count (bA ! 0) = count (bB ! 0)" and num: "num (bA ! 0) = num (bB ! 0)"
    using shape_eqD [OF s0] by simp_all
  have d: "cpu_data (bA ! j) = cpu_data (bB ! j)" if "j < length bA" for j
    using map_eq_nthD [OF da that] .
  have hw3: "2 < length bA" if hw: "has_weights LA"
    using a(17) hw by simp
  have dn: "cpu_data (diff LA1) ! i = cpu_data (diff LB1) ! i" if "i < count (bA ! 0)" for i
  proof -
    from that have i': "i < count (bB ! 0)" by (simp add: cnt)
    have 0: "cpu_data (bA ! 0) = cpu_data (bB ! 0)"
      using a(1) by (intro d) auto
    have 1: "cpu_data (bA ! 1) = cpu_data (bB ! 1)"
      using a(1) by (intro d) auto
    show ?thesis
    proof (cases "has_weights LA")
      case True
      then have 2: "cpu_data (bA ! 2) = cpu_data (bB ! 2)"
        using hw3 by (intro d) auto
      from True cfg(2) have "has_weights LB" by simp
      with True show ?thesis
        by (simp only: a(13) [OF that] b(13) [OF i'] 0 1 2 if_True)
    next
      case False
      with cfg(2) have "\<not> has_weights LB" by simp
      with False show ?thesis
        by (simp only: a(13) [OF that] b(13) [OF i'] 0 1 if_False)
    qed
  qed
  show dd: "cpu_data (diff LA1) = cpu_data (diff LB1)"
    by (rule nth_equalityI) (simp_all add: a(9) b(9) lenA lenB cnt dn)
  have en: "cpu_data (errors LA1) ! i = cpu_data (errors LB1) ! i" if "i < count (bA ! 0)" for i
  proof -
    from that have i': "i < count (bB ! 0)" by (simp add: cnt)
    have dd': "cpu_data (diff LA1) ! i = cpu_data (diff LB1) ! i" by (simp only: dd)
    show ?thesis
    proof (cases "has_weights LA \<and> 3 < length bA")
      case True
      then have 3: "cpu_data (bA ! 3) = cpu_data (bB ! 3)" by (intro d) auto
      from True cfg(2) len have "has_weights LB \<and> 3 < length bB" by simp
      with True show ?thesis
        by (simp only: a(14) [OF that] b(14) [OF i'] 3 dd' cfg(1) if_True)
    next
      case False
      with cfg(2) len have "\<not> (has_weights LB \<and> 3 < length bB)" by simp
      with False show ?thesis
        by (simp only: a(14) [OF that] b(14) [OF i'] dd' cfg(1) if_False)
    qed
  qed
  show ee: "cpu_data (errors LA1) = cpu_data (errors LB1)"
    by (rule nth_equalityI) (simp_all add: a(10) b(10) lenA lenB cnt en)
  show "cpu_data (tA1 ! 0) ! 0 = cpu_data (tB1 ! 0) ! 0"
    by (simp add: a(15) b(15) ee cfg(3) cnt num)
qed

lemma Backward_agree:
  assumes BA: "SmoothL1Loss_Backward_cpu LA1 tA propagate_down bA = Inr (LA2, bA')"
    and BB: "SmoothL1Loss_Backward_cpu LB1 tB propagate_down bB = Inr (LB2, bB')"
    and cfg: "sigma2 LA1 = sigma2 LB1" "has_weights LA1 = has_weights LB1"
      "count (diff LA1) = count (diff LB1)" "cpu_data (diff LA1) = cpu_data (diff LB1)"
      "has_weights LA1 \<longrightarrow> 3 \<le> length bA"
    and sh: "map shape bA = map shape bB" and da: "map cpu_data bA = map cpu_data bB"
    and G: "cpu_diff (tA ! 0) ! 0 = cpu_diff (tB ! 0) ! 0"
    and k: "k < 2" "propagate_down ! k"
  shows "cpu_data (diff LA2) = cpu_data (diff LB2)"
    "take (count (diff LA1)) (cpu_diff (bA' ! k)) = take (count (diff LA1)) (cpu_diff (bB' ! k))"
proof -
  note a = Backward_Inr [OF BA]
  note b = Backward_Inr [OF BB]
  from sh have len: "length bA = length bB" by (rule map_eq_imp_length_eq)
  show dd: "cpu_data (diff LA2) = cpu_data (diff LB2)"
    by (simp add: a(2) b(2) cfg)
  have hw: "has_weights LA2 = has_weights LA1" "has_weights LB2 = has_weights LB1"
    by (simp_all add: a(2) b(2))
  have kl: "k < length bA" by (rule a(10) [OF k])
  have nk: "num (bA ! k) = num (bB ! k)"
    using shape_eqD [OF map_eq_nthD [OF sh kl]] by simp
  have d: "cpu_data (bA ! j) = cpu_data (bB ! j)" if "j < length bA" for j
    using map_eq_nthD [OF da that] .
  have gw: "grad_written LA2 tA bA k i = grad_written LB2 tB bB k i" for i
  proof (cases "has_weights LA1")
    case True
    with cfg(5) have l3: "3 \<le> length bA" by simp
    then have 2: "cpu_data (bA ! 2) = cpu_data (bB ! 2)" by (intro d) auto
    show ?thesis
    proof (cases "3 < length bA")
      case l4: True
      then have 3: "cpu_data (bA ! 3) = cpu_data (bB ! 3)" by (intro d) auto
      from True l4 cfg(2) len show ?thesis
        by (simp add: grad_written_def hw G nk dd 2 3)
    next
      case False
      with True cfg(2) len show ?thesis
        by (simp add: grad_written_def hw G nk dd 2)
    qed
  next
    case False
    with cfg(2) show ?thesis
      by (simp add: grad_written_def hw G nk dd)
  qed
  from a(7) [OF k] have la: "count (diff LA1) \<le> length (cpu_diff (bA' ! k))" by simp
  from b(7) [OF k] have lb: "count (diff LA1) \<le> length (cpu_diff (bB' ! k))"
    by (simp add: cfg(3))
  show "take (count (diff LA1)) (cpu_diff (bA' ! k)) = take (count (diff LA1)) (cpu_diff (bB' ! k))"
  proof (rule nth_equalityI)
    show "length (take (count (diff LA1)) (cpu_diff (bA' ! k))) =
        length (take (count (diff LA1)) (cpu_diff (bB' ! k)))"
      using la lb by simp
    fix i assume "i < length (take (count (diff LA1)) (cpu_diff (bA' ! k)))"
    then have i: "i < count (diff LA1)" by simp
    then have i': "i < count (diff LB1)" by (simp add: cfg(3))
    from i show "take (count (diff LA1)) (cpu_diff (bA' ! k)) ! i =
        take (count (diff LA1)) (cpu_diff (bB' ! k)) ! i"
      by (simp add: a(8) [OF k i] b(8) [OF k i'] gw)
  qed
qed

lemma same_chw_shape:
  "shape a = shape a' \<Longrightarrow> shape b = shape b' \<Longrightarrow> same_chw a b = same_chw a' b'"
  by (simp add: shape_def same_chw_def)

lemma Reshape_agree:
  assumes RA: "SmoothL1Loss_Reshape (LayerSetUp sigma LA0 bA) bA tA0 = Inr (LA, tA)"
    and sh: "map shape bA = map shape bB" and t: "tB0 \<noteq> []"
  shows "SmoothL1Loss_Reshape (LayerSetUp sigma LB0 bB) bB tB0 =
    Inr (reshaped_layer (LayerSetUp sigma LB0 bB) (bB ! 0), tB0[0 := Blob_Reshape 1 1 1 1 (tB0 ! 0)])"
proof -
  note r = Reshape_Inr [OF RA]
  from sh have len: "length bA = length bB" by (rule map_eq_imp_length_eq)
  have s: "shape (bA ! j) = shape (bB ! j)" if "j < length bA" for j
    using map_eq_nthD [OF sh that] .
  have l2: "2 \<le> length bB" using r(1) len by simp
  have hw: "has_weights (LayerSetUp sigma LB0 bB) = (3 \<le> length bB)"
    by (simp add: LayerSetUp_def)
  have hw': "has_weights (LayerSetUp sigma LB0 bB) \<longrightarrow> 3 \<le> length bB" by (simp add: hw)
  have s0: "shape (bA ! 0) = shape (bB ! 0)" using r(1) by (intro s) auto
  have 1: "same_chw (bB ! 0) (bB ! 1)"
  proof -
    have "shape (bA ! 1) = shape (bB ! 1)" using r(1) by (intro s) auto
    from same_chw_shape [OF s0 this] r(13) show ?thesis by simp
  qed
  have 2: "same_chw (bB ! 0) (bB ! 2)" if "3 \<le> length bB"
  proof -
    have "shape (bA ! 2) = shape (bB ! 2)" using that len by (intro s) auto
    from same_chw_shape [OF s0 this] r(14) that len show ?thesis by simp
  qed
  have 3: "same_chw (bB ! 0) (bB ! 3)" if "3 < length bB"
  proof -
    have "shape (bA ! 3) = shape (bB ! 3)" using that len by (intro s) auto
    from same_chw_shape [OF s0 this] r(15) that len show ?thesis by simp
  qed
  show ?thesis
    unfolding Reshape_eq [OF l2 t hw'] hw using 1 2 3 by auto
qed

lemma round_loop_all:
  "length t = n \<Longrightarrow> round_loop b n t = map (\<lambda>i. rint (b ! i)) [0..<n]"
  by (rule nth_equalityI) (simp_all add: nth_round_loop)

lemma Round_run:
  assumes b: "bottom \<noteq> []" and t: "tops \<noteq> []" and ok: "blob_ok (bottom ! 0)"
  obtains tops1 tops2 where
    "Round_Reshape bottom tops = Inr tops1" "Round_Forward_cpu bottom tops1 = Inr tops2"
    "shape (tops2 ! 0) = shape (bottom ! 0)"
    "cpu_data (tops2 ! 0) = map (\<lambda>i. rint (cpu_data (bottom ! 0) ! i)) [0..<count (bottom ! 0)]"
proof -
  let ?cnt = "count (bottom ! 0)"
  let ?tops1 = "tops[0 := ReshapeLike (bottom ! 0) (tops ! 0)]"
  let ?tops2 = "?tops1[0 := (?tops1 ! 0)\<lparr>cpu_data :=
      round_loop (cpu_data (bottom ! 0)) ?cnt (cpu_data (?tops1 ! 0))\<rparr>]"
  from ok have lb: "length (cpu_data (bottom ! 0)) = ?cnt" by (simp add: blob_ok_def)
  have R: "Round_Reshape bottom tops = Inr ?tops1" by (rule Round_Reshape_eq [OF b t])
  have F: "Round_Forward_cpu bottom ?tops1 = Inr ?tops2"
    using b t by (simp add: Round_Forward_cpu_def Let_def lb)
  have t2: "?tops2 ! 0 = (ReshapeLike (bottom ! 0) (tops ! 0))\<lparr>cpu_data :=
      round_loop (cpu_data (bottom ! 0)) ?cnt (cpu_data (ReshapeLike (bottom ! 0) (tops ! 0)))\<rparr>"
    using t by simp
  have sh: "shape (?tops2 ! 0) = shape (bottom ! 0)" by (simp only: t2) simp
  have v: "cpu_data (?tops2 ! 0) = map (\<lambda>i. rint (cpu_data (bottom ! 0) ! i)) [0..<?cnt]"
    by (simp only: t2) (simp add: round_loop_all)
  from R F sh v show thesis by (rule that)
qed

text \<open>
  Claim C9, as amended. Run in the host's order, the calls are deterministic given their
  inputs. Two runs of \<^verbatim>\<open>LayerSetUp\<close>, \<^verbatim>\<open>Reshape\<close>, \<^verbatim>\<open>Forward_cpu\<close> and \<^verbatim>\<open>Backward_cpu\<close>
  with the same \<open>sigma\<close>, on well-formed inputs of equal shapes and equal values, with equal
  upstream gradient and equal propagate flags, both return, and they give the same loss,
  the same \<^verbatim>\<open>diff_\<close> and \<^verbatim>\<open>errors_\<close> after the forward pass, the same \<^verbatim>\<open>diff_\<close> after the
  backward pass and the same written elements in the gradient buffer of every propagated
  input, whatever the scratch buffers of the two layers, the output blobs and the gradient
  buffers held before. Two runs of \<^verbatim>\<open>RoundLayer\<close>'s \<^verbatim>\<open>Reshape\<close> and \<^verbatim>\<open>Forward_cpu\<close> on
  inputs of equal shape and values give outputs of equal shape and values. A single
  \<^verbatim>\<open>Backward_cpu\<close> call is not determined by its arguments and the configuration: it reads
  the \<^verbatim>\<open>diff_\<close> that \<^verbatim>\<open>Forward_cpu\<close> left, and overwrites it.
\<close>

theorem runs_deterministic:
  assumes RA: "SmoothL1Loss_Reshape (LayerSetUp sigma LA0 bA) bA tA0 = Inr (LA, tA)"
    and IA: "inputs_ok bA" and IB: "inputs_ok bB" and N: "0 < num (bA ! 0)"
    and sh: "map shape bA = map shape bB" and da: "map cpu_data bA = map cpu_data bB"
    and tB0: "tB0 \<noteq> []"
    and TA: "tA2 \<noteq> []" "cpu_diff (tA2 ! 0) \<noteq> []"
    and TB: "tB2 \<noteq> []" "cpu_diff (tB2 ! 0) \<noteq> []"
    and G: "cpu_diff (tA2 ! 0) ! 0 = cpu_diff (tB2 ! 0) ! 0"
    and P: "2 \<le> length propagate_down" and k: "k < 2" "propagate_down ! k"
    and rb: "rA \<noteq> []" "rB \<noteq> []" "shape (rA ! 0) = shape (rB ! 0)"
      "cpu_data (rA ! 0) = cpu_data (rB ! 0)" "blob_ok (rA ! 0)" "blob_ok (rB ! 0)"
    and rt: "rtA \<noteq> []" "rtB \<noteq> []"
  shows "\<exists>LB tB LA1 tA1 LB1 tB1 LA2 bA' LB2 bB' rtA1 rtA2 rtB1 rtB2.
    SmoothL1Loss_Reshape (LayerSetUp sigma LB0 bB) bB tB0 = Inr (LB, tB) \<and>
    map shape [diff LA, errors LA, ones LA] = map shape [diff LB, errors LB, ones LB] \<and>
    cpu_data (ones LA) = cpu_data (ones LB) \<and>
    SmoothL1Loss_Forward_cpu LA bA tA = Inr (LA1, tA1) \<and>
    SmoothL1Loss_Forward_cpu LB bB tB = Inr (LB1, tB1) \<and>
    cpu_data (tA1 ! 0) ! 0 = cpu_data (tB1 ! 0) ! 0 \<and>
    cpu_data (diff LA1) = cpu_data (diff LB1) \<and>
    cpu_data (errors LA1) = cpu_data (errors LB1) \<and>
    SmoothL1Loss_Backward_cpu LA1 tA2 propagate_down bA = Inr (LA2, bA') \<and>
    SmoothL1Loss_Backward_cpu LB1 tB2 propagate_down bB = Inr (LB2, bB') \<and>
    cpu_data (diff LA2) = cpu_data (diff LB2) \<and>
    take (count (bA ! 0)) (cpu_diff (bA' ! k)) = take (count (bA ! 0)) (cpu_diff (bB' ! k)) \<and>
    Round_Reshape rA rtA = Inr rtA1 \<and> Round_Forward_cpu rA rtA1 = Inr rtA2 \<and>
    Round_Reshape rB rtB = Inr rtB1 \<and> Round_Forward_cpu rB rtB1 = Inr rtB2 \<and>
    shape (rtA2 ! 0) = shape (rtB2 ! 0) \<and> cpu_data (rtA2 ! 0) = cpu_data (rtB2 ! 0)"
proof -
  define LB where "LB = reshaped_layer (LayerSetUp sigma LB0 bB) (bB ! 0)"
  define tB where "tB = tB0[0 := Blob_Reshape 1 1 1 1 (tB0 ! 0)]"
  have RB: "SmoothL1Loss_Reshape (LayerSetUp sigma LB0 bB) bB tB0 = Inr (LB, tB)"
    unfolding LB_def tB_def by (rule Reshape_agree [OF RA sh tB0])
  note ra = Reshape_Inr [OF RA]
  note rb' = Reshape_Inr [OF RB]
  have "0 < length bA" using ra(1) by auto
  then have s0: "shape (bA ! 0) = shape (bB ! 0)" by (rule map_eq_nthD [OF sh])
  have cnt: "count (bA ! 0) = count (bB ! 0)" and num: "num (bA ! 0) = num (bB ! 0)"
    using shape_eqD [OF s0] by simp_all
  have NB: "0 < num (bB ! 0)" using N by (simp add: num)
  have shapes: "map shape [diff LA, errors LA, ones LA] = map shape [diff LB, errors LB, ones LB]"
    by (simp add: ra(3) rb'(3) reshaped_layer_ok s0)
  have ones: "cpu_data (ones LA) = cpu_data (ones LB)" by (simp add: ra(10) rb'(10) cnt)
  from Forward_after_Reshape [OF RA IA N] obtain LA1 tA1 where
    FA: "SmoothL1Loss_Forward_cpu LA bA tA = Inr (LA1, tA1)" by blast
  from Forward_after_Reshape [OF RB IB NB] obtain LB1 tB1 where
    FB: "SmoothL1Loss_Forward_cpu LB bB tB = Inr (LB1, tB1)" by blast
  from sh have len: "length bA = length bB" by (rule map_eq_imp_length_eq)
  have fwd: "cpu_data (diff LA1) = cpu_data (diff LB1)"
    "cpu_data (errors LA1) = cpu_data (errors LB1)"
    "cpu_data (tA1 ! 0) ! 0 = cpu_data (tB1 ! 0) ! 0"
    by (rule Forward_agree [OF FA FB _ _ ones ra(8) ra(9) rb'(8) rb'(9) sh da];
        simp add: ra(5) ra(6) rb'(5) rb'(6) len)+
  note aa = Backward_after_Forward [OF RA IA FA TA P]
  note ab = Backward_after_Forward [OF RB IB FB TB P]
  from aa(1) obtain LA2 bA' where
    BA: "SmoothL1Loss_Backward_cpu LA1 tA2 propagate_down bA = Inr (LA2, bA')" by blast
  from ab(1) obtain LB2 bB' where
    BB: "SmoothL1Loss_Backward_cpu LB1 tB2 propagate_down bB = Inr (LB2, bB')" by blast
  have bwd: "cpu_data (diff LA2) = cpu_data (diff LB2)"
    "take (count (diff LA1)) (cpu_diff (bA' ! k)) = take (count (diff LA1)) (cpu_diff (bB' ! k))"
    by (rule Backward_agree [OF BA BB _ _ _ fwd(1) _ sh da G k];
        simp add: aa(2) aa(3) aa(4) ab(2) ab(3) ab(4) cnt len)+
  from bwd(2) have bwd2:
    "take (count (bA ! 0)) (cpu_diff (bA' ! k)) = take (count (bA ! 0)) (cpu_diff (bB' ! k))"
    by (simp add: aa(2))
  obtain rtA1 rtA2 where
    A: "Round_Reshape rA rtA = Inr rtA1" "Round_Forward_cpu rA rtA1 = Inr rtA2"
      "shape (rtA2 ! 0) = shape (rA ! 0)"
      "cpu_data (rtA2 ! 0) = map (\<lambda>i. rint (cpu_data (rA ! 0) ! i)) [0..<count (rA ! 0)]"
    by (rule Round_run [OF rb(1) rt(1) rb(5)])
  obtain rtB1 rtB2 where
    B: "Round_Reshape rB rtB = Inr rtB1" "Round_Forward_cpu rB rtB1 = Inr rtB2"
      "shape (rtB2 ! 0) = shape (rB ! 0)"
      "cpu_data (rtB2 ! 0) = map (\<lambda>i. rint (cpu_data (rB ! 0) ! i)) [0..<count (rB ! 0)]"
    by (rule Round_run [OF rb(2) rt(2) rb(6)])
  have rs: "shape (rtA2 ! 0) = shape (rtB2 ! 0)" by (simp add: A(3) B(3) rb(3))
  have rd: "cpu_data (rtA2 ! 0) = cpu_data (rtB2 ! 0)"
    using shape_eqD [OF rb(3)] by (simp add: A(4) B(4) rb(4))
  show ?thesis
    apply (intro exI conjI)
                     apply (rule RB)
                    apply (rule shapes)
                   apply (rule ones)
                  apply (rule FA)
                 apply (rule FB)
                apply (rule fwd(3))
               apply (rule fwd(1))
              apply (rule fwd(2))
             apply (rule BA)
            apply (rule BB)
           apply (rule bwd(1))
          apply (rule bwd2)
         apply (rule A(1))
        apply (rule A(2))
       apply (rule B(1))
      apply (rule B(2))
     apply (rule rs)
    apply (rule rd)
    done
qed

theorem runs_deterministic_witness:
  "\<exists>LA1 tA1 LB1 tB1 LA2 bA' LB2 bB'.
    SmoothL1Loss_Forward_cpu
      (reshaped_layer (LayerSetUp 1 new_layer uneven_inputs) (uneven_inputs ! 0))
      uneven_inputs example_tops = Inr (LA1, tA1) \<and>
    SmoothL1Loss_Forward_cpu
      (reshaped_layer (LayerSetUp 1 example_layer fresh_inputs) (fresh_inputs ! 0))
      fresh_inputs (example_tops[0 := Blob_Reshape 1 1 1 1 (example_tops ! 0)]) = Inr (LB1, tB1) \<and>
    cpu_data (tA1 ! 0) ! 0 = cpu_data (tB1 ! 0) ! 0 \<and>
    SmoothL1Loss_Backward_cpu LA1 (example_top_grad 1) [True, True] uneven_inputs = Inr (LA2, bA') \<and>
    SmoothL1Loss_Backward_cpu LB1 [(example_blob 1 [7])\<lparr>cpu_diff := [1]\<rparr>] [True, True]
      fresh_inputs = Inr (LB2, bB') \<and>
    cpu_data (diff LA2) = cpu_data (diff LB2) \<and>
    take 1 (cpu_diff (bA' ! 1)) = take 1 (cpu_diff (bB' ! 1)) \<and>
    cpu_diff (uneven_inputs ! 1) \<noteq> cpu_diff (fresh_inputs ! 1) \<and>
    diff new_layer \<noteq> diff example_layer"
proof -
  let ?LA = "reshaped_layer (LayerSetUp 1 new_layer uneven_inputs) (uneven_inputs ! 0)"
  let ?tB2 = "[(example_blob 1 [7])\<lparr>cpu_diff := [1]\<rparr>]"
  let ?rB = "[(example_blob 3 [2.5, 3.5, - 2.5])\<lparr>cpu_diff := [1, 1, 1]\<rparr>]"
  have RA: "SmoothL1Loss_Reshape (LayerSetUp 1 new_layer uneven_inputs) uneven_inputs [empty_blob]
     = Inr (?LA, example_tops)"
    by (simp add: Reshape_eq same_chw_def uneven_inputs_def example_defs)
  have IA: "inputs_ok uneven_inputs"
    by (simp add: inputs_ok_def blob_ok_def uneven_inputs_def example_defs)
  have IB: "inputs_ok fresh_inputs"
    by (simp add: inputs_ok_def blob_ok_def fresh_inputs_def example_defs)
  have N: "0 < num (uneven_inputs ! 0)" by (simp add: uneven_inputs_def example_defs)
  have sh: "map shape uneven_inputs = map shape fresh_inputs"
    by (simp add: uneven_inputs_def fresh_inputs_def shape_def example_defs)
  have da: "map cpu_data uneven_inputs = map cpu_data fresh_inputs"
    by (simp add: uneven_inputs_def fresh_inputs_def example_defs)
  have tB0: "example_tops \<noteq> []" by (simp add: example_tops_def)
  have TA: "example_top_grad 1 \<noteq> []" "cpu_diff (example_top_grad 1 ! 0) \<noteq> []"
    by (simp_all add: example_top_grad_def)
  have TB: "?tB2 \<noteq> []" "cpu_diff (?tB2 ! 0) \<noteq> []" by simp_all
  have G: "cpu_diff (example_top_grad 1 ! 0) ! 0 = cpu_diff (?tB2 ! 0) ! 0"
    by (simp add: example_top_grad_def)
  have P: "2 \<le> length [True, True]" by simp
  have k: "(1::nat) < 2" "[True, True] ! 1" by simp_all
  have rb: "round_inputs \<noteq> []" "?rB \<noteq> []" "shape (round_inputs ! 0) = shape (?rB ! 0)"
    "cpu_data (round_inputs ! 0) = cpu_data (?rB ! 0)" "blob_ok (round_inputs ! 0)"
    "blob_ok (?rB ! 0)"
    by (simp_all add: round_inputs_def shape_def blob_ok_def example_defs)
  have rt: "[empty_blob] \<noteq> []" "example_tops \<noteq> []" by (simp_all add: example_tops_def)
  have c: "count (uneven_inputs ! 0) = 1" by (simp add: uneven_inputs_def example_defs)
  have ne: "cpu_diff (uneven_inputs ! 1) \<noteq> cpu_diff (fresh_inputs ! 1)"
    "diff new_layer \<noteq> diff example_layer"
    by (simp_all add: uneven_inputs_def fresh_inputs_def example_defs)
  from runs_deterministic [OF RA IA IB N sh da tB0 TA TB G P k rb rt, of example_layer]
  obtain LB tB LA1 tA1 LB1 tB1 LA2 bA' LB2 bB' where
    RB: "SmoothL1Loss_Reshape (LayerSetUp 1 example_layer fresh_inputs) fresh_inputs example_tops
       = Inr (LB, tB)"
    and FA: "SmoothL1Loss_Forward_cpu ?LA uneven_inputs example_tops = Inr (LA1, tA1)"
    and FB: "SmoothL1Loss_Forward_cpu LB fresh_inputs tB = Inr (LB1, tB1)"
    and loss: "cpu_data (tA1 ! 0) ! 0 = cpu_data (tB1 ! 0) ! 0"
    and BA: "SmoothL1Loss_Backward_cpu LA1 (example_top_grad 1) [True, True] uneven_inputs
       = Inr (LA2, bA')"
    and BB: "SmoothL1Loss_Backward_cpu LB1 ?tB2 [True, True] fresh_inputs = Inr (LB2, bB')"
    and d2: "cpu_data (diff LA2) = cpu_data (diff LB2)"
    and g: "take (count (uneven_inputs ! 0)) (cpu_diff (bA' ! 1)) =
        take (count (uneven_inputs ! 0)) (cpu_diff (bB' ! 1))"
    by blast
  note r = Reshape_Inr(3,4) [OF RB]
  from FB have FB': "SmoothL1Loss_Forward_cpu
      (reshaped_layer (LayerSetUp 1 example_layer fresh_inputs) (fresh_inputs ! 0))
      fresh_inputs (example_tops[0 := Blob_Reshape 1 1 1 1 (example_tops ! 0)]) = Inr (LB1, tB1)"
    by (simp only: r)
  from g have g': "take 1 (cpu_diff (bA' ! 1)) = take 1 (cpu_diff (bB' ! 1))"
    by (simp only: c)
  from FA FB' loss BA BB d2 g' ne show ?thesis by blast
qed

section \<open>The loss layer with overflow\<close>

text \<open>
  The facts about a successful \<^verbatim>\<open>Reshape\<close>, \<^verbatim>\<open>Forward_cpu\<close> and \<^verbatim>\<open>Backward_cpu\<close> once more,
  for the floating-point embedding, followed by the arithmetic of zero and of values that
  are not negative.
\<close>

lemmas float_defs =
  float_layer_def LayerSetUp_ieee_def zero_ieee_def one_ieee_def example_tops_def
  example_blob_def empty_blob_def new_layer_def reshaped_layer_def Blob_Reshape_def count_def
  Let_def

lemmas float_run_defs =
  SmoothL1Loss_Forward_cpu_ieee_def caffe_sub_ieee_def caffe_mul_ieee_def
  caffe_cpu_dot_ieee_def smooth_l1_ieee_def ieee_sub_def ieee_cast_def to_float_def
  to_double_def overflow_to_def upt_2 numeral_2_eq_2

lemma length_errors_loop_ieee [simp]: "length (errors_loop_ieee s2 d n e) = length e"
  by (induction n) simp_all

lemma nth_errors_loop_ieee:
  "n \<le> length e \<Longrightarrow> i < length e \<Longrightarrow>
   errors_loop_ieee s2 d n e ! i = (if i < n then smooth_l1_ieee s2 (d ! i) else e ! i)"
  by (induction n) (auto simp: nth_list_update less_Suc_eq)

lemma length_grad_loop_ieee [simp]: "length (grad_loop_ieee s2 n d) = length d"
  by (induction n) (simp_all add: Let_def)

lemma nth_grad_loop_ieee:
  "n \<le> length d \<Longrightarrow> i < length d \<Longrightarrow>
   grad_loop_ieee s2 n d ! i = (if i < n then smooth_l1_grad_ieee s2 (d ! i) else d ! i)"
  by (induction n) (auto simp: nth_list_update less_Suc_eq Let_def)

lemma caffe_sub_ieee_Inr:
  assumes "caffe_sub_ieee n a b y = Inr r"
  shows "n \<le> length a" "n \<le> length b" "n \<le> length y" "length r = length y"
    "\<And>i. i < n \<Longrightarrow> r ! i = ieee_sub to_float (a ! i) (b ! i)"
    "\<And>i. n \<le> i \<Longrightarrow> i < length y \<Longrightarrow> r ! i = y ! i"
  using assms by (auto simp: caffe_sub_ieee_def nth_append split: if_splits)

lemma caffe_mul_ieee_Inr:
  assumes "caffe_mul_ieee n a b y = Inr r"
  shows "n \<le> length a" "n \<le> length b" "n \<le> length y" "length r = length y"
    "\<And>i. i < n \<Longrightarrow> r ! i = ieee_mul to_float (a ! i) (b ! i)"
    "\<And>i. n \<le> i \<Longrightarrow> i < length y \<Longrightarrow> r ! i = y ! i"
  using assms by (auto simp: caffe_mul_ieee_def nth_append split: if_splits)

lemma caffe_cpu_axpby_ieee_Inr:
  assumes "caffe_cpu_axpby_ieee n alpha x beta y = Inr r"
  shows "n \<le> length x" "n \<le> length y" "length r = length y"
    "\<And>i. i < n \<Longrightarrow> r ! i = ieee_add to_float (ieee_mul to_float alpha (x ! i)) (ieee_mul to_float beta (y ! i))"
    "\<And>i. n \<le> i \<Longrightarrow> i < length y \<Longrightarrow> r ! i = y ! i"
  using assms by (auto simp: caffe_cpu_axpby_ieee_def nth_append split: if_splits)

lemma caffe_cpu_dot_ieee_Inr:
  assumes "caffe_cpu_dot_ieee n x y = Inr s"
  shows "n \<le> length x" "n \<le> length y" "s = foldl (\<lambda>s i. ieee_add to_float s (ieee_mul to_float (x ! i) (y ! i))) (Finite 0) [0..<n]"
  using assms by (auto simp: caffe_cpu_dot_ieee_def split: if_splits)

lemma Forward_ieee_Inr:
  assumes F: "SmoothL1Loss_Forward_cpu_ieee L bottom tops = Inr (L', tops')"
  shows "2 \<le> length bottom" "count (bottom ! 0) \<le> length (cpu_data (ones L))" "tops \<noteq> []" "cpu_data (tops ! 0) \<noteq> []"
    "sigma2 L' = sigma2 L" "has_weights L' = has_weights L" "ones L' = ones L"
    "count (diff L') = count (diff L)"
    "length (cpu_data (diff L')) = length (cpu_data (diff L))"
    "length (cpu_data (errors L')) = length (cpu_data (errors L))"
    "count (bottom ! 0) \<le> length (cpu_data (diff L))"
    "count (bottom ! 0) \<le> length (cpu_data (errors L))"
    "\<And>i. i < count (bottom ! 0) \<Longrightarrow> cpu_data (diff L') ! i =
        (if has_weights L
         then ieee_mul to_float (cpu_data (bottom ! 2) ! i)
                (ieee_sub to_float (cpu_data (bottom ! 0) ! i) (cpu_data (bottom ! 1) ! i))
         else ieee_sub to_float (cpu_data (bottom ! 0) ! i) (cpu_data (bottom ! 1) ! i))"
    "\<And>i. i < count (bottom ! 0) \<Longrightarrow> cpu_data (errors L') ! i =
        (if has_weights L \<and> 3 < length bottom
         then ieee_mul to_float (cpu_data (bottom ! 3) ! i)
                (smooth_l1_ieee (sigma2 L) (cpu_data (diff L') ! i))
         else smooth_l1_ieee (sigma2 L) (cpu_data (diff L') ! i))"
    "cpu_data (tops' ! 0) ! 0 =
        ieee_div to_float
          (foldl (\<lambda>s i. ieee_add to_float s
                     (ieee_mul to_float (cpu_data (ones L) ! i) (cpu_data (errors L') ! i)))
             (Finite 0) [0..<count (bottom ! 0)])
          (Finite (real (num (bottom ! 0))))"
    "length tops' = length tops"
    "has_weights L \<longrightarrow> 3 \<le> length bottom"
proof -
  let ?cnt = "count (bottom ! 0)"
  from F have len: "2 \<le> length bottom"
    by (auto simp: SmoothL1Loss_Forward_cpu_ieee_def split: if_splits)
  with F obtain d0 d1 e0 e1 s where
    d0: "caffe_sub_ieee ?cnt (cpu_data (bottom ! 0)) (cpu_data (bottom ! 1)) (cpu_data (diff L)) = Inr d0"
    and d1: "(if has_weights L then
                if length bottom < 3 then Inl OutOfRange
                else caffe_mul_ieee ?cnt (cpu_data (bottom ! 2)) d0 d0
              else Inr d0) = Inr d1"
    and e0: "(if ?cnt \<le> length (cpu_data (errors L))
              then Inr (errors_loop_ieee (sigma2 L) d1 ?cnt (cpu_data (errors L)))
              else Inl OutOfRange) = Inr e0"
    and e1: "(if has_weights L \<and> 3 < length bottom
              then caffe_mul_ieee ?cnt (cpu_data (bottom ! 3)) e0 e0
              else Inr e0) = Inr e1"
    and s: "caffe_cpu_dot_ieee ?cnt (cpu_data (ones L)) e1 = Inr s"
    and rest: "(if tops = [] \<or> cpu_data (tops ! 0) = [] then Inl OutOfRange
          else
            Inr (L\<lparr>diff := (diff L)\<lparr>cpu_data := d1\<rparr>,
                   errors := (errors L)\<lparr>cpu_data := e1\<rparr>\<rparr>,
                 tops[0 := (tops ! 0)\<lparr>cpu_data :=
                    (cpu_data (tops ! 0))[0 := ieee_div to_float s (Finite (real (num (bottom ! 0))))]\<rparr>])) = Inr (L', tops')"
  proof -
    from len have "\<not> length bottom < 2" by simp
    from F [unfolded SmoothL1Loss_Forward_cpu_ieee_def Let_def if_not_P [OF this] and_then_eq_Inr]
    show ?thesis using that by blast
  qed
  from rest have t: "tops \<noteq> []" "cpu_data (tops ! 0) \<noteq> []"
    and L': "L' = L\<lparr>diff := (diff L)\<lparr>cpu_data := d1\<rparr>, errors := (errors L)\<lparr>cpu_data := e1\<rparr>\<rparr>"
    and tops': "tops' = tops[0 := (tops ! 0)\<lparr>cpu_data :=
                    (cpu_data (tops ! 0))[0 := ieee_div to_float s (Finite (real (num (bottom ! 0))))]\<rparr>]"
    by (auto split: if_splits)
  note D0 = caffe_sub_ieee_Inr [OF d0]
  have ld1: "length d1 = length d0"
    using d1 by (auto split: if_splits dest: caffe_mul_ieee_Inr(4))
  from e0 have le: "?cnt \<le> length (cpu_data (errors L))"
    and e0_eq: "e0 = errors_loop_ieee (sigma2 L) d1 ?cnt (cpu_data (errors L))"
    by (auto split: if_splits)
  have le0: "length e0 = length (cpu_data (errors L))"
    by (simp add: e0_eq)
  have le1: "length e1 = length e0"
    using e1 by (auto split: if_splits dest: caffe_mul_ieee_Inr(4))
  show "2 \<le> length bottom" by (rule len)
  show "count (bottom ! 0) \<le> length (cpu_data (ones L))" by (rule caffe_cpu_dot_ieee_Inr(1) [OF s])
  show "tops \<noteq> []" "cpu_data (tops ! 0) \<noteq> []" by (rule t)+
  show "sigma2 L' = sigma2 L" "has_weights L' = has_weights L" "ones L' = ones L"
    by (simp_all add: L')
  show "count (diff L') = count (diff L)" by (simp add: L' count_def)
  show "length (cpu_data (diff L')) = length (cpu_data (diff L))"
    by (simp add: L' ld1 D0(4))
  show "length (cpu_data (errors L')) = length (cpu_data (errors L))"
    by (simp add: L' le1 le0)
  show "?cnt \<le> length (cpu_data (diff L))" by (rule D0(3))
  show "?cnt \<le> length (cpu_data (errors L))" by (rule le)
  have dnth: "cpu_data (diff L') ! i =
        (if has_weights L
         then ieee_mul to_float (cpu_data (bottom ! 2) ! i)
                (ieee_sub to_float (cpu_data (bottom ! 0) ! i) (cpu_data (bottom ! 1) ! i))
         else ieee_sub to_float (cpu_data (bottom ! 0) ! i) (cpu_data (bottom ! 1) ! i))" if "i < ?cnt" for i
  proof (cases "has_weights L")
    case True
    with d1 have "caffe_mul_ieee ?cnt (cpu_data (bottom ! 2)) d0 d0 = Inr d1"
      by (auto split: if_splits)
    from caffe_mul_ieee_Inr(5) [OF this that] D0(5) [OF that] True show ?thesis
      by (simp add: L')
  next
    case False
    with d1 have "d1 = d0" by simp
    with D0(5) [OF that] False show ?thesis by (simp add: L')
  qed
  then show "\<And>i. i < count (bottom ! 0) \<Longrightarrow> cpu_data (diff L') ! i =
        (if has_weights L
         then ieee_mul to_float (cpu_data (bottom ! 2) ! i)
                (ieee_sub to_float (cpu_data (bottom ! 0) ! i) (cpu_data (bottom ! 1) ! i))
         else ieee_sub to_float (cpu_data (bottom ! 0) ! i) (cpu_data (bottom ! 1) ! i))" .
  have e0nth: "e0 ! i = smooth_l1_ieee (sigma2 L) (d1 ! i)" if "i < ?cnt" for i
    using that le by (simp add: e0_eq nth_errors_loop_ieee)
  show "cpu_data (errors L') ! i =
        (if has_weights L \<and> 3 < length bottom
         then ieee_mul to_float (cpu_data (bottom ! 3) ! i)
                (smooth_l1_ieee (sigma2 L) (cpu_data (diff L') ! i))
         else smooth_l1_ieee (sigma2 L) (cpu_data (diff L') ! i))" if "i < ?cnt" for i
  proof (cases "has_weights L \<and> 3 < length bottom")
    case True
    with e1 have "caffe_mul_ieee ?cnt (cpu_data (bottom ! 3)) e0 e0 = Inr e1"
      by (auto split: if_splits)
    from caffe_mul_ieee_Inr(5) [OF this that] e0nth [OF that] True show ?thesis
      by (simp add: L')
  next
    case False
    with e1 have "e1 = e0" by (auto split: if_splits)
    with e0nth [OF that] False show ?thesis by (auto simp add: L')
  qed
  show "cpu_data (tops' ! 0) ! 0 =
        ieee_div to_float
          (foldl (\<lambda>s i. ieee_add to_float s
                     (ieee_mul to_float (cpu_data (ones L) ! i) (cpu_data (errors L') ! i)))
             (Finite 0) [0..<count (bottom ! 0)])
          (Finite (real (num (bottom ! 0))))"
    using t caffe_cpu_dot_ieee_Inr(3) [OF s] by (simp add: tops' L')
  show "length tops' = length tops" by (simp add: tops')
  show "has_weights L \<longrightarrow> 3 \<le> length bottom"
    using d1 by (auto split: if_splits)
qed

lemma Backward_input_ieee_skip:
  "i < length propagate_down \<Longrightarrow> \<not> propagate_down ! i \<Longrightarrow>
   Backward_input_ieee L tops propagate_down i bottom = Inr bottom"
  by (simp add: Backward_input_ieee_def)

lemma Backward_input_ieee_Inr:
  assumes B: "Backward_input_ieee L tops propagate_down k bottom = Inr bottom'"
    and pd: "propagate_down ! k"
  obtains g where
    "k < length bottom" "tops \<noteq> []" "cpu_diff (tops ! 0) \<noteq> []"
    "bottom' = bottom[k := (bottom ! k)\<lparr>cpu_diff := g\<rparr>]"
    "length g = length (cpu_diff (bottom ! k))"
    "count (diff L) \<le> length g"
    "count (diff L) \<le> length (cpu_data (diff L))"
    "\<And>i. i < count (diff L) \<Longrightarrow> g ! i =
       (let alpha = ieee_div to_float
                      (ieee_mul to_float (if k = 0 then Finite 1 else Finite (- 1))
                         (cpu_diff (tops ! 0) ! 0))
                      (Finite (real (num (bottom ! k))));
            g0 = ieee_add to_float (ieee_mul to_float alpha (cpu_data (diff L) ! i))
                   (ieee_mul to_float (Finite 0) (cpu_diff (bottom ! k) ! i));
            g1 = (if has_weights L then ieee_mul to_float (cpu_data (bottom ! 2) ! i) g0 else g0)
        in if has_weights L \<and> 3 < length bottom
           then ieee_mul to_float (cpu_data (bottom ! 3) ! i) g1 else g1)"
    "\<And>i. count (diff L) \<le> i \<Longrightarrow> i < length g \<Longrightarrow> g ! i = cpu_diff (bottom ! k) ! i"
proof -
  let ?cnt = "count (diff L)"
  let ?alpha = "ieee_div to_float
      (ieee_mul to_float (if k = 0 then Finite 1 else Finite (- 1)) (cpu_diff (tops ! 0) ! 0))
      (Finite (real (num (bottom ! k))))"
  from B pd have c: "\<not> length propagate_down \<le> k"
    "\<not> (tops = [] \<or> cpu_diff (tops ! 0) = [] \<or> length bottom \<le> k)"
    by (auto simp: Backward_input_ieee_def Let_def split: if_splits)
  have pd': "\<not> \<not> propagate_down ! k" using pd by simp
  from B [unfolded Backward_input_ieee_def Let_def if_not_P [OF c(1)] if_not_P [OF pd']
      if_not_P [OF c(2)] and_then_eq_Inr]
  obtain g0 g1 g2 where
    g0: "caffe_cpu_axpby_ieee ?cnt ?alpha (cpu_data (diff L)) (Finite 0) (cpu_diff (bottom ! k)) = Inr g0"
    and g1: "(if has_weights L then
                if length bottom < 3 then Inl OutOfRange
                else caffe_mul_ieee ?cnt (cpu_data (bottom ! 2)) g0 g0
              else Inr g0) = Inr g1"
    and g2: "(if has_weights L \<and> 3 < length bottom
              then caffe_mul_ieee ?cnt (cpu_data (bottom ! 3)) g1 g1
              else Inr g1) = Inr g2"
    and b': "bottom' = bottom[k := (bottom ! k)\<lparr>cpu_diff := g2\<rparr>]"
    by auto
  note G0 = caffe_cpu_axpby_ieee_Inr [OF g0]
  have G1: "length g1 = length g0"
    "\<And>i. i < ?cnt \<Longrightarrow> g1 ! i = (if has_weights L then ieee_mul to_float (cpu_data (bottom ! 2) ! i) (g0 ! i) else g0 ! i)"
    "\<And>i. ?cnt \<le> i \<Longrightarrow> i < length g0 \<Longrightarrow> g1 ! i = g0 ! i"
    using g1 by (auto split: if_splits dest: caffe_mul_ieee_Inr(4,5,6))
  have G2: "length g2 = length g1"
    "\<And>i. i < ?cnt \<Longrightarrow> g2 ! i =
       (if has_weights L \<and> 3 < length bottom
        then ieee_mul to_float (cpu_data (bottom ! 3) ! i) (g1 ! i) else g1 ! i)"
    "\<And>i. ?cnt \<le> i \<Longrightarrow> i < length g1 \<Longrightarrow> g2 ! i = g1 ! i"
    using g2 by (auto split: if_splits dest: caffe_mul_ieee_Inr(4,5,6))
  show thesis
  proof (rule that [of g2])
    show "k < length bottom" "tops \<noteq> []" "cpu_diff (tops ! 0) \<noteq> []"
      using c(2) by auto
    show "bottom' = bottom[k := (bottom ! k)\<lparr>cpu_diff := g2\<rparr>]" by (rule b')
    show "length g2 = length (cpu_diff (bottom ! k))"
      by (simp add: G2(1) G1(1) G0(3))
    show "?cnt \<le> length g2"
      by (simp add: G2(1) G1(1) G0(3) G0(2))
    show "?cnt \<le> length (cpu_data (diff L))" by (rule G0(1))
    show "g2 ! i =
       (let alpha = ?alpha;
            g0 = ieee_add to_float (ieee_mul to_float alpha (cpu_data (diff L) ! i))
                   (ieee_mul to_float (Finite 0) (cpu_diff (bottom ! k) ! i));
            g1 = (if has_weights L then ieee_mul to_float (cpu_data (bottom ! 2) ! i) g0 else g0)
        in if has_weights L \<and> 3 < length bottom
           then ieee_mul to_float (cpu_data (bottom ! 3) ! i) g1 else g1)"
      if "i < ?cnt" for i
      using G2(2) [OF that] G1(2) [OF that] G0(4) [OF that]
      by (simp add: Let_def)
    show "g2 ! i = cpu_diff (bottom ! k) ! i" if "?cnt \<le> i" "i < length g2" for i
      using that G2(3) [of i] G1(3) [of i] G0(5) [of i]
      by (simp add: G2(1) G1(1) G0(3))
  qed
qed

lemma Forward_ieee_ok:
  assumes "2 \<le> length bottom" "has_weights L \<longrightarrow> 3 \<le> length bottom"
    and "\<And>k. k < length bottom \<Longrightarrow> count (bottom ! 0) \<le> length (cpu_data (bottom ! k))"
    and "count (bottom ! 0) \<le> length (cpu_data (diff L))"
    and "count (bottom ! 0) \<le> length (cpu_data (errors L))"
    and "count (bottom ! 0) \<le> length (cpu_data (ones L))"
    and "tops \<noteq> []" "cpu_data (tops ! 0) \<noteq> []"
  shows "\<exists>L' tops'. SmoothL1Loss_Forward_cpu_ieee L bottom tops = Inr (L', tops')"
proof -
  have b: "count (bottom ! 0) \<le> length (cpu_data (bottom ! 0))"
    "count (bottom ! 0) \<le> length (cpu_data (bottom ! 1))"
    "has_weights L \<Longrightarrow> count (bottom ! 0) \<le> length (cpu_data (bottom ! 2))"
    "3 < length bottom \<Longrightarrow> count (bottom ! 0) \<le> length (cpu_data (bottom ! 3))"
    using assms(1,2) by (auto intro!: assms(3))
  have l3: "has_weights L \<Longrightarrow> \<not> length bottom < 3" using assms(2) by auto
  show ?thesis
    using assms(1,4-) b l3
    by (simp add: SmoothL1Loss_Forward_cpu_ieee_def Let_def caffe_sub_ieee_def caffe_mul_ieee_def
        caffe_cpu_dot_ieee_def)
qed

lemma Reshape_ieee_Inr:
  assumes R: "SmoothL1Loss_Reshape (LayerSetUp_ieee sigma L0 bottom) bottom tops0 = Inr (L, tops)"
  shows "2 \<le> length bottom" "tops0 \<noteq> []"
    "L = reshaped_layer (LayerSetUp_ieee sigma L0 bottom) (bottom ! 0)"
    "tops = tops0[0 := Blob_Reshape 1 1 1 1 (tops0 ! 0)]"
    "sigma2 L = ieee_mul to_float sigma sigma" "has_weights L = (3 \<le> length bottom)"
    "count (diff L) = count (bottom ! 0)"
    "length (cpu_data (diff L)) = count (bottom ! 0)"
    "length (cpu_data (errors L)) = count (bottom ! 0)"
    "cpu_data (ones L) = replicate (count (bottom ! 0)) 1"
    "tops \<noteq> []" "cpu_data (tops ! 0) \<noteq> []"
    "same_chw (bottom ! 0) (bottom ! 1)"
    "3 \<le> length bottom \<Longrightarrow> same_chw (bottom ! 0) (bottom ! 2)"
    "3 < length bottom \<Longrightarrow> same_chw (bottom ! 0) (bottom ! 3)"
proof -
  from R show len: "2 \<le> length bottom" and t0: "tops0 \<noteq> []"
    by (auto simp: SmoothL1Loss_Reshape_def LossLayer_Reshape_def split: if_splits)
  have hw: "has_weights (LayerSetUp_ieee sigma L0 bottom) \<longrightarrow> 3 \<le> length bottom"
    by (simp add: LayerSetUp_ieee_def)
  from R [unfolded Reshape_eq [OF len t0 hw]]
  have ok: "\<not> (\<not> same_chw (bottom ! 0) (bottom ! 1)
        \<or> (has_weights (LayerSetUp_ieee sigma L0 bottom) \<and> \<not> same_chw (bottom ! 0) (bottom ! 2))
        \<or> (has_weights (LayerSetUp_ieee sigma L0 bottom) \<and> 3 < length bottom
              \<and> \<not> same_chw (bottom ! 0) (bottom ! 3)))"
    and L: "L = reshaped_layer (LayerSetUp_ieee sigma L0 bottom) (bottom ! 0)"
    and t: "tops = tops0[0 := Blob_Reshape 1 1 1 1 (tops0 ! 0)]"
    by (auto split: if_splits)
  show "L = reshaped_layer (LayerSetUp_ieee sigma L0 bottom) (bottom ! 0)" by (rule L)
  show "tops = tops0[0 := Blob_Reshape 1 1 1 1 (tops0 ! 0)]" by (rule t)
  show "sigma2 L = ieee_mul to_float sigma sigma" "has_weights L = (3 \<le> length bottom)"
    by (simp_all add: L reshaped_layer_def LayerSetUp_ieee_def)
  show "count (diff L) = count (bottom ! 0)"
    "length (cpu_data (diff L)) = count (bottom ! 0)"
    "length (cpu_data (errors L)) = count (bottom ! 0)"
    "cpu_data (ones L) = replicate (count (bottom ! 0)) 1"
    by (simp_all add: L reshaped_layer_def LayerSetUp_ieee_def count_def)
  show "tops \<noteq> []" "cpu_data (tops ! 0) \<noteq> []"
    using t0 by (auto simp: t dest: arg_cong [where f = length])
  show "same_chw (bottom ! 0) (bottom ! 1)" using ok by simp
  show "3 \<le> length bottom \<Longrightarrow> same_chw (bottom ! 0) (bottom ! 2)"
    using ok by (simp add: LayerSetUp_ieee_def)
  show "3 < length bottom \<Longrightarrow> same_chw (bottom ! 0) (bottom ! 3)"
    using ok by (simp add: LayerSetUp_ieee_def)
qed

lemma Forward_ieee_after_Reshape:
  assumes R: "SmoothL1Loss_Reshape (LayerSetUp_ieee sigma L0 bottom) bottom tops0 = Inr (L, tops)"
    and I: "inputs_ok bottom"
  shows "\<exists>L' tops'. SmoothL1Loss_Forward_cpu_ieee L bottom tops = Inr (L', tops')"
proof -
  note r = Reshape_ieee_Inr [OF R]
  show ?thesis
  proof (rule Forward_ieee_ok)
    show "2 \<le> length bottom" by (rule r(1))
    show "has_weights L \<longrightarrow> 3 \<le> length bottom" by (simp add: r(6))
    show "count (bottom ! 0) \<le> length (cpu_data (bottom ! k))" if "k < length bottom" for k
      using inputs_okD [OF I that] by simp
    show "count (bottom ! 0) \<le> length (cpu_data (diff L))" by (simp add: r(8))
    show "count (bottom ! 0) \<le> length (cpu_data (errors L))" by (simp add: r(9))
    show "count (bottom ! 0) \<le> length (cpu_data (ones L))" by (simp add: r(10))
    show "tops \<noteq> []" "cpu_data (tops ! 0) \<noteq> []" by (rule r(11) r(12))+
  qed
qed

lemma Backward_input_ieee_length:
  assumes "Backward_input_ieee L tops propagate_down k bottom = Inr bottom'"
  shows "k < length propagate_down"
  using assms by (auto simp: Backward_input_ieee_def split: if_splits)

lemma Backward_input_ieee_frame:
  assumes B: "Backward_input_ieee L tops propagate_down k bottom = Inr bottom'"
  shows "length bottom' = length bottom"
    "\<And>j. j \<noteq> k \<Longrightarrow> bottom' ! j = bottom ! j"
    "\<exists>g. bottom' ! k = (bottom ! k)\<lparr>cpu_diff := g\<rparr> \<and> length g = length (cpu_diff (bottom ! k))"
proof -
  have "length bottom' = length bottom \<and> (\<forall>j. j \<noteq> k \<longrightarrow> bottom' ! j = bottom ! j) \<and>
    (\<exists>g. bottom' ! k = (bottom ! k)\<lparr>cpu_diff := g\<rparr> \<and> length g = length (cpu_diff (bottom ! k)))"
  proof (cases "propagate_down ! k")
    case True
    from Backward_input_ieee_Inr [OF B True] obtain g where
      g: "k < length bottom" "bottom' = bottom[k := (bottom ! k)\<lparr>cpu_diff := g\<rparr>]"
         "length g = length (cpu_diff (bottom ! k))"
      by blast
    then show ?thesis by auto
  next
    case False
    with B Backward_input_ieee_length [OF B] have "bottom' = bottom"
      by (simp add: Backward_input_ieee_skip)
    moreover have "bottom ! k = (bottom ! k)\<lparr>cpu_diff := cpu_diff (bottom ! k)\<rparr>" by simp
    ultimately show ?thesis by blast
  qed
  then show "length bottom' = length bottom"
    "\<And>j. j \<noteq> k \<Longrightarrow> bottom' ! j = bottom ! j"
    "\<exists>g. bottom' ! k = (bottom ! k)\<lparr>cpu_diff := g\<rparr> \<and> length g = length (cpu_diff (bottom ! k))"
    by blast+
qed

lemma Backward_input_ieee_written:
  assumes B: "Backward_input_ieee L tops propagate_down k bottom = Inr bottom'"
    and pd: "propagate_down ! k"
  shows "count (diff L) \<le> length (cpu_diff (bottom ! k))"
    "\<And>i. i < count (diff L) \<Longrightarrow> cpu_diff (bottom' ! k) ! i = grad_written_ieee L tops bottom k i"
    "\<And>i. count (diff L) \<le> i \<Longrightarrow> i < length (cpu_diff (bottom ! k)) \<Longrightarrow>
       cpu_diff (bottom' ! k) ! i = cpu_diff (bottom ! k) ! i"
proof -
  from Backward_input_ieee_Inr [OF B pd] obtain g where
    g: "k < length bottom" "bottom' = bottom[k := (bottom ! k)\<lparr>cpu_diff := g\<rparr>]"
      "length g = length (cpu_diff (bottom ! k))" "count (diff L) \<le> length g"
      "\<And>i. i < count (diff L) \<Longrightarrow> g ! i = grad_written_ieee L tops bottom k i"
      "\<And>i. count (diff L) \<le> i \<Longrightarrow> i < length g \<Longrightarrow> g ! i = cpu_diff (bottom ! k) ! i"
    unfolding grad_written_ieee_def by blast
  from g(1,2) have gk: "cpu_diff (bottom' ! k) = g" by simp
  show "count (diff L) \<le> length (cpu_diff (bottom ! k))" using g(3,4) by simp
  show "\<And>i. i < count (diff L) \<Longrightarrow> cpu_diff (bottom' ! k) ! i = grad_written_ieee L tops bottom k i"
    by (simp add: gk g(5))
  show "\<And>i. count (diff L) \<le> i \<Longrightarrow> i < length (cpu_diff (bottom ! k)) \<Longrightarrow>
       cpu_diff (bottom' ! k) ! i = cpu_diff (bottom ! k) ! i"
    by (simp add: gk g(6) g(3))
qed

lemma Backward_input_ieee_ok:
  assumes "k < length propagate_down" "k < length bottom" "tops \<noteq> []" "cpu_diff (tops ! 0) \<noteq> []"
    and "count (diff L) \<le> length (cpu_data (diff L))"
    and "count (diff L) \<le> length (cpu_diff (bottom ! k))"
    and "has_weights L \<Longrightarrow> 3 \<le> length bottom \<and> count (diff L) \<le> length (cpu_data (bottom ! 2))"
    and "3 < length bottom \<Longrightarrow> count (diff L) \<le> length (cpu_data (bottom ! 3))"
  shows "\<exists>bottom'. Backward_input_ieee L tops propagate_down k bottom = Inr bottom'"
proof -
  have l3: "has_weights L \<Longrightarrow> \<not> length bottom < 3" using assms(7) by auto
  show ?thesis
    using assms l3
    by (auto simp add: Backward_input_ieee_def Let_def caffe_cpu_axpby_ieee_def caffe_mul_ieee_def)
qed

lemma grad_written_ieee_cong:
  assumes "length b' = length b" "num (b' ! k) = num (b ! k)"
    "cpu_diff (b' ! k) = cpu_diff (b ! k)"
    "cpu_data (b' ! 2) = cpu_data (b ! 2)" "cpu_data (b' ! 3) = cpu_data (b ! 3)"
  shows "grad_written_ieee L tops b' k i = grad_written_ieee L tops b k i"
  using assms by (simp add: grad_written_ieee_def Let_def)

lemma Backward_ieee_Inr:
  assumes B: "SmoothL1Loss_Backward_cpu_ieee L tops propagate_down bottom = Inr (L', bottom')"
  shows "count (diff L) \<le> length (cpu_data (diff L))"
    "L' = L\<lparr>diff := (diff L)\<lparr>cpu_data :=
             grad_loop_ieee (sigma2 L) (count (diff L)) (cpu_data (diff L))\<rparr>\<rparr>"
    "2 \<le> length propagate_down"
    "length bottom' = length bottom"
    "\<And>j. 2 \<le> j \<Longrightarrow> bottom' ! j = bottom ! j"
    "\<And>k. k < 2 \<Longrightarrow> \<not> propagate_down ! k \<Longrightarrow> bottom' ! k = bottom ! k"
    "\<And>k. k < 2 \<Longrightarrow> propagate_down ! k \<Longrightarrow>
       count (diff L) \<le> length (cpu_diff (bottom ! k)) \<and>
       length (cpu_diff (bottom' ! k)) = length (cpu_diff (bottom ! k))"
    "\<And>k i. k < 2 \<Longrightarrow> propagate_down ! k \<Longrightarrow> i < count (diff L) \<Longrightarrow>
       cpu_diff (bottom' ! k) ! i = grad_written_ieee L' tops bottom k i"
    "\<And>k i. k < 2 \<Longrightarrow> propagate_down ! k \<Longrightarrow> count (diff L) \<le> i \<Longrightarrow>
       i < length (cpu_diff (bottom ! k)) \<Longrightarrow>
       cpu_diff (bottom' ! k) ! i = cpu_diff (bottom ! k) ! i"
    "\<And>k. k < 2 \<Longrightarrow> propagate_down ! k \<Longrightarrow> k < length bottom"
proof -
  let ?cnt = "count (diff L)"
  let ?L' = "L\<lparr>diff := (diff L)\<lparr>cpu_data := grad_loop_ieee (sigma2 L) ?cnt (cpu_data (diff L))\<rparr>\<rparr>"
  from B have le: "\<not> length (cpu_data (diff L)) < ?cnt"
    by (auto simp: SmoothL1Loss_Backward_cpu_ieee_def Let_def split: if_splits)
  from B [unfolded SmoothL1Loss_Backward_cpu_ieee_def Let_def if_not_P [OF le] and_then_eq_Inr]
  obtain bottom0 where
    B0: "Backward_input_ieee ?L' tops propagate_down 0 bottom = Inr bottom0"
    and B1: "Backward_input_ieee ?L' tops propagate_down 1 bottom0 = Inr bottom'"
    and L': "L' = ?L'"
    by auto
  have cnt: "count (diff L') = ?cnt" by (simp add: L' count_def)
  note f0 = Backward_input_ieee_frame [OF B0]
  note f1 = Backward_input_ieee_frame [OF B1]
  show "?cnt \<le> length (cpu_data (diff L))" using le by simp
  show "L' = ?L'" by (rule L')
  show "2 \<le> length propagate_down" using Backward_input_ieee_length [OF B1] by simp
  show len: "length bottom' = length bottom" by (simp add: f1(1) f0(1))
  show "bottom' ! j = bottom ! j" if "2 \<le> j" for j
    using that by (simp add: f1(2) f0(2))
  have b0: "bottom' ! 0 = bottom0 ! 0" by (simp add: f1(2))
  have b1: "bottom0 ! 1 = bottom ! 1" "bottom0 ! 2 = bottom ! 2" "bottom0 ! 3 = bottom ! 3"
    by (simp_all add: f0(2))
  have skip0: "bottom0 = bottom" if "\<not> propagate_down ! 0"
    using B0 Backward_input_ieee_length [OF B0] that by (simp add: Backward_input_ieee_skip)
  have skip1: "bottom' = bottom0" if "\<not> propagate_down ! 1"
    using B1 Backward_input_ieee_length [OF B1] that by (simp add: Backward_input_ieee_skip)
  have k01: "k = 0 \<or> k = 1" if "k < 2" for k :: nat using that by auto
  show "bottom' ! k = bottom ! k" if "k < 2" "\<not> propagate_down ! k" for k
    using k01 [OF that(1)] that(2) skip0 skip1 b0 b1 by auto
  have w0: "?cnt \<le> length (cpu_diff (bottom ! 0))"
      "\<And>i. i < ?cnt \<Longrightarrow> cpu_diff (bottom' ! 0) ! i = grad_written_ieee L' tops bottom 0 i"
      "\<And>i. ?cnt \<le> i \<Longrightarrow> i < length (cpu_diff (bottom ! 0)) \<Longrightarrow>
         cpu_diff (bottom' ! 0) ! i = cpu_diff (bottom ! 0) ! i"
      "length (cpu_diff (bottom' ! 0)) = length (cpu_diff (bottom ! 0))"
    if pd: "propagate_down ! 0"
  proof -
    note w = Backward_input_ieee_written [OF B0 pd, unfolded L' [symmetric] cnt]
    show "?cnt \<le> length (cpu_diff (bottom ! 0))" by (rule w(1))
    show "\<And>i. i < ?cnt \<Longrightarrow> cpu_diff (bottom' ! 0) ! i = grad_written_ieee L' tops bottom 0 i"
      by (simp add: b0 w(2))
    show "\<And>i. ?cnt \<le> i \<Longrightarrow> i < length (cpu_diff (bottom ! 0)) \<Longrightarrow>
         cpu_diff (bottom' ! 0) ! i = cpu_diff (bottom ! 0) ! i"
      by (simp add: b0 w(3))
    from f0(3) show "length (cpu_diff (bottom' ! 0)) = length (cpu_diff (bottom ! 0))"
      by (auto simp: b0)
  qed
  have w1: "?cnt \<le> length (cpu_diff (bottom ! 1))"
      "\<And>i. i < ?cnt \<Longrightarrow> cpu_diff (bottom' ! 1) ! i = grad_written_ieee L' tops bottom 1 i"
      "\<And>i. ?cnt \<le> i \<Longrightarrow> i < length (cpu_diff (bottom ! 1)) \<Longrightarrow>
         cpu_diff (bottom' ! 1) ! i = cpu_diff (bottom ! 1) ! i"
      "length (cpu_diff (bottom' ! 1)) = length (cpu_diff (bottom ! 1))"
    if pd: "propagate_down ! 1"
  proof -
    note w = Backward_input_ieee_written [OF B1 pd, unfolded L' [symmetric] cnt b1]
    have gw: "grad_written_ieee L' tops bottom0 1 i = grad_written_ieee L' tops bottom 1 i" for i
      using b1 f0(1) by (intro grad_written_ieee_cong) simp_all
    show "?cnt \<le> length (cpu_diff (bottom ! 1))" by (rule w(1))
    show "\<And>i. i < ?cnt \<Longrightarrow> cpu_diff (bottom' ! 1) ! i = grad_written_ieee L' tops bottom 1 i"
      using w(2) gw by simp
    show "\<And>i. ?cnt \<le> i \<Longrightarrow> i < length (cpu_diff (bottom ! 1)) \<Longrightarrow>
         cpu_diff (bottom' ! 1) ! i = cpu_diff (bottom ! 1) ! i"
      using w(3) by simp
    show "length (cpu_diff (bottom' ! 1)) = length (cpu_diff (bottom ! 1))"
      using f1(3) b1 by auto
  qed
  show "?cnt \<le> length (cpu_diff (bottom ! k)) \<and>
       length (cpu_diff (bottom' ! k)) = length (cpu_diff (bottom ! k))"
    if "k < 2" "propagate_down ! k" for k
    using k01 [OF that(1)] that(2) w0(1,4) w1(1,4) by auto
  show "cpu_diff (bottom' ! k) ! i = grad_written_ieee L' tops bottom k i"
    if "k < 2" "propagate_down ! k" "i < ?cnt" for k i
    using k01 [OF that(1)] that(2,3) w0(2) w1(2) by auto
  show "cpu_diff (bottom' ! k) ! i = cpu_diff (bottom ! k) ! i"
    if "k < 2" "propagate_down ! k" "?cnt \<le> i" "i < length (cpu_diff (bottom ! k))" for k i
    using k01 [OF that(1)] that(2,3,4) w0(3) w1(3) by auto
  have "0 < length bottom" if "propagate_down ! 0"
    using Backward_input_ieee_Inr [OF B0 that] by blast
  moreover have "1 < length bottom" if "propagate_down ! 1"
    using Backward_input_ieee_Inr [OF B1 that] f0(1) by metis
  ultimately show "k < length bottom" if "k < 2" "propagate_down ! k" for k
    using k01 [OF that(1)] that(2) by auto
qed

lemma Backward_ieee_ok:
  assumes "2 \<le> length propagate_down" "2 \<le> length bottom" "tops \<noteq> []" "cpu_diff (tops ! 0) \<noteq> []"
    and "count (diff L) \<le> length (cpu_data (diff L))"
    and "\<And>k. k < 2 \<Longrightarrow> count (diff L) \<le> length (cpu_diff (bottom ! k))"
    and "has_weights L \<Longrightarrow> 3 \<le> length bottom \<and> count (diff L) \<le> length (cpu_data (bottom ! 2))"
    and "3 < length bottom \<Longrightarrow> count (diff L) \<le> length (cpu_data (bottom ! 3))"
  shows "\<exists>L' bottom'. SmoothL1Loss_Backward_cpu_ieee L tops propagate_down bottom = Inr (L', bottom')"
proof -
  let ?cnt = "count (diff L)"
  let ?L' = "L\<lparr>diff := (diff L)\<lparr>cpu_data := grad_loop_ieee (sigma2 L) ?cnt (cpu_data (diff L))\<rparr>\<rparr>"
  have cnt: "count (diff ?L') = ?cnt" by (simp add: count_def)
  have "\<exists>bottom0. Backward_input_ieee ?L' tops propagate_down 0 bottom = Inr bottom0"
  proof (rule Backward_input_ieee_ok)
    show "0 < length propagate_down" "0 < length bottom" using assms(1,2) by auto
    show "tops \<noteq> []" "cpu_diff (tops ! 0) \<noteq> []" by (rule assms(3,4))+
    show "count (diff ?L') \<le> length (cpu_data (diff ?L'))" using assms(5) by (simp add: cnt)
    show "count (diff ?L') \<le> length (cpu_diff (bottom ! 0))" using assms(6) [of 0] by (simp add: cnt)
    show "has_weights ?L' \<Longrightarrow>
        3 \<le> length bottom \<and> count (diff ?L') \<le> length (cpu_data (bottom ! 2))"
      using assms(7) by (simp add: cnt)
    show "3 < length bottom \<Longrightarrow> count (diff ?L') \<le> length (cpu_data (bottom ! 3))"
      using assms(8) by (simp add: cnt)
  qed
  then obtain bottom0 where B0: "Backward_input_ieee ?L' tops propagate_down 0 bottom = Inr bottom0" ..
  note f0 = Backward_input_ieee_frame [OF B0]
  have "\<exists>bottom1. Backward_input_ieee ?L' tops propagate_down 1 bottom0 = Inr bottom1"
  proof (rule Backward_input_ieee_ok)
    show "1 < length propagate_down" "1 < length bottom0" using assms(1,2) by (simp_all add: f0(1))
    show "tops \<noteq> []" "cpu_diff (tops ! 0) \<noteq> []" by (rule assms(3,4))+
    show "count (diff ?L') \<le> length (cpu_data (diff ?L'))" using assms(5) by (simp add: cnt)
    show "count (diff ?L') \<le> length (cpu_diff (bottom0 ! 1))"
      using assms(6) [of 1] by (simp add: cnt f0(2))
    show "has_weights ?L' \<Longrightarrow>
        3 \<le> length bottom0 \<and> count (diff ?L') \<le> length (cpu_data (bottom0 ! 2))"
      using assms(7) by (simp add: cnt f0(1) f0(2))
    show "3 < length bottom0 \<Longrightarrow> count (diff ?L') \<le> length (cpu_data (bottom0 ! 3))"
      using assms(8) by (simp add: cnt f0(1) f0(2))
  qed
  then obtain bottom1 where B1: "Backward_input_ieee ?L' tops propagate_down 1 bottom0 = Inr bottom1" ..
  have le: "\<not> length (cpu_data (diff L)) < ?cnt" using assms(5) by simp
  show ?thesis
    unfolding SmoothL1Loss_Backward_cpu_ieee_def Let_def if_not_P [OF le]
    using B0 B1 by simp
qed

lemma Backward_ieee_after_Forward:
  assumes R: "SmoothL1Loss_Reshape (LayerSetUp_ieee sigma L0 bottom) bottom tops0 = Inr (L, tops)"
    and I: "inputs_ok bottom"
    and F: "SmoothL1Loss_Forward_cpu_ieee L bottom tops = Inr (L1, tops1)"
    and T: "tops2 \<noteq> []" "cpu_diff (tops2 ! 0) \<noteq> []"
    and P: "2 \<le> length propagate_down"
  shows "\<exists>L2 bottom'. SmoothL1Loss_Backward_cpu_ieee L1 tops2 propagate_down bottom = Inr (L2, bottom')"
    and "count (diff L1) = count (bottom ! 0)"
    and "sigma2 L1 = ieee_mul to_float sigma sigma"
    and "has_weights L1 = (3 \<le> length bottom)"
    and "length (cpu_data (diff L1)) = count (bottom ! 0)"
proof -
  note r = Reshape_ieee_Inr [OF R]
  note f = Forward_ieee_Inr [OF F]
  show cnt: "count (diff L1) = count (bottom ! 0)" by (simp add: f(8) r(7))
  show "sigma2 L1 = ieee_mul to_float sigma sigma" by (simp add: f(5) r(5))
  show hw: "has_weights L1 = (3 \<le> length bottom)" by (simp add: f(6) r(6))
  show len: "length (cpu_data (diff L1)) = count (bottom ! 0)" by (simp add: f(9) r(8))
  show "\<exists>L2 bottom'. SmoothL1Loss_Backward_cpu_ieee L1 tops2 propagate_down bottom = Inr (L2, bottom')"
  proof (rule Backward_ieee_ok)
    show "2 \<le> length propagate_down" by (rule P)
    show "2 \<le> length bottom" by (rule r(1))
    show "tops2 \<noteq> []" "cpu_diff (tops2 ! 0) \<noteq> []" by (rule T)+
    show "count (diff L1) \<le> length (cpu_data (diff L1))" by (simp add: cnt len)
    show "count (diff L1) \<le> length (cpu_diff (bottom ! k))" if "k < 2" for k
      using inputs_okD [OF I, of k] that r(1) by (simp add: cnt)
    show "3 \<le> length bottom \<and> count (diff L1) \<le> length (cpu_data (bottom ! 2))"
      if "has_weights L1"
      using inputs_okD [OF I, of 2] that by (simp add: cnt hw)
    show "count (diff L1) \<le> length (cpu_data (bottom ! 3))" if "3 < length bottom"
      using inputs_okD [OF I, of 3] that by (simp add: cnt)
  qed
qed

lemma Backward_ieee_diff_nth:
  assumes B: "SmoothL1Loss_Backward_cpu_ieee L tops propagate_down bottom = Inr (L', bottom')"
    and i: "i < count (diff L)"
  shows "cpu_data (diff L') ! i = smooth_l1_grad_ieee (sigma2 L) (cpu_data (diff L) ! i)"
  using Backward_ieee_Inr(1) [OF B] i
  by (simp add: Backward_ieee_Inr(2) [OF B] nth_grad_loop_ieee)

lemma to_float_overflow: "\<exists>T. 0 < T \<and> to_float = overflow_to T"
  by (rule exI [of _ "2 ^ 128 - 2 ^ 103"]) (simp add: to_float_def)

lemma to_double_overflow: "\<exists>T. 0 < T \<and> to_double = overflow_to T"
  by (rule exI [of _ "2 ^ 1024 - 2 ^ 970"]) (simp add: to_double_def)

lemma overflow_to_0 [simp]: "0 < T \<Longrightarrow> overflow_to T 0 = Finite 0"
  by (simp add: overflow_to_def)

lemma to_float_0 [simp]: "to_float 0 = Finite 0"
  by (simp add: to_float_def)

lemma to_double_0 [simp]: "to_double 0 = Finite 0"
  by (simp add: to_double_def)

lemma float_threshold: "FLT_MAX < 2 ^ 128 - 2 ^ 103" "0 < FLT_MAX"
  by (simp_all add: FLT_MAX_def)

lemma to_float_in_range: "\<bar>r\<bar> \<le> FLT_MAX \<Longrightarrow> to_float r = Finite r"
  using float_threshold(1) by (auto simp add: to_float_def overflow_to_def)

lemma finite_floatD: "finite_float x \<Longrightarrow> \<exists>r. x = Finite r \<and> \<bar>r\<bar> \<le> FLT_MAX"
  by (cases x) (simp_all add: finite_float_def)

lemma is_finiteD: "is_finite x \<Longrightarrow> \<exists>r. x = Finite r"
  by (cases x) simp_all

lemma mul_zero_left: "is_finite x \<Longrightarrow> ieee_mul to_float (Finite 0) x = Finite 0"
  by (cases x) simp_all

lemma mul_zero_right: "is_finite x \<Longrightarrow> ieee_mul to_float x (Finite 0) = Finite 0"
  by (cases x) simp_all

lemma overflow_to_nonneg:
  "0 < T \<Longrightarrow> 0 \<le> r \<Longrightarrow> overflow_to T r = PosInf \<or> overflow_to T r = Finite r"
  by (auto simp add: overflow_to_def)

lemma sigma2_cases:
  assumes "finite_float sigma"
  shows "(\<exists>s. ieee_mul to_float sigma sigma = Finite s \<and> 0 \<le> s) \<or>
    ieee_mul to_float sigma sigma = PosInf"
proof -
  from finite_floatD [OF assms] obtain r where r: "sigma = Finite r" by blast
  from to_float_overflow obtain T where T: "0 < T" "to_float = overflow_to T" by blast
  have "0 \<le> r * r" by simp
  from overflow_to_nonneg [OF T(1) this] show ?thesis
    by (auto simp add: r T(2))
qed

lemma inv_less_zero:
  assumes "(\<exists>s. s2 = Finite s \<and> 0 \<le> s) \<or> s2 = PosInf"
  shows "s2 = PosInf \<or>
    (\<exists>s. s2 = Finite s \<and> 0 \<le> s \<and> ieee_less (Finite 0) (ieee_div to_double (Finite 1) s2))"
proof -
  from to_double_overflow obtain T where T: "0 < T" "to_double = overflow_to T" by blast
  show ?thesis
  proof (cases "s2 = PosInf")
    case True
    then show ?thesis by simp
  next
    case False
    with assms obtain s where s: "s2 = Finite s" "0 \<le> s" by blast
    show ?thesis
    proof (cases "s = 0")
      case True
      with s show ?thesis by simp
    next
      case False
      with s(2) have "0 < 1 / s" by simp
      then have "0 \<le> 1 / s" by simp
      from overflow_to_nonneg [OF T(1) this] \<open>0 < 1 / s\<close> False s show ?thesis
        by (auto simp add: T(2))
    qed
  qed
qed

lemma smooth_l1_ieee_zero:
  assumes "(\<exists>s. s2 = Finite s \<and> 0 \<le> s) \<or> s2 = PosInf"
  shows "smooth_l1_ieee s2 (Finite 0) = Finite 0"
  using inv_less_zero [OF assms]
  by (auto simp add: smooth_l1_ieee_def ieee_cast_def ieee_sub_def Let_def)

lemma smooth_l1_grad_ieee_zero:
  assumes "(\<exists>s. s2 = Finite s \<and> 0 \<le> s) \<or> s2 = PosInf"
  shows "smooth_l1_grad_ieee s2 (Finite 0) = Finite 0"
  using inv_less_zero [OF assms]
  by (auto simp add: smooth_l1_grad_ieee_def)

lemma finite_float_is_finite: "finite_float x \<Longrightarrow> is_finite x"
  by (cases x) (simp_all add: finite_float_def)

lemma finite_inputsD:
  assumes "finite_inputs bottom" "k < length bottom"
  shows "j < length (cpu_data (bottom ! k)) \<Longrightarrow> finite_float (cpu_data (bottom ! k) ! j)"
    "j < length (cpu_diff (bottom ! k)) \<Longrightarrow> finite_float (cpu_diff (bottom ! k) ! j)"
proof -
  from assms have b: "(\<forall>x \<in> set (cpu_data (bottom ! k)). finite_float x) \<and>
      (\<forall>x \<in> set (cpu_diff (bottom ! k)). finite_float x)"
    unfolding finite_inputs_def using nth_mem by blast
  show "j < length (cpu_data (bottom ! k)) \<Longrightarrow> finite_float (cpu_data (bottom ! k) ! j)"
    "j < length (cpu_diff (bottom ! k)) \<Longrightarrow> finite_float (cpu_diff (bottom ! k) ! j)"
    using b by simp_all
qed

lemma dot_zero:
  assumes "\<forall>i<n. e ! i = Finite 0" "\<forall>i<n. x ! i = Finite 1"
  shows "foldl (\<lambda>s i. ieee_add to_float s (ieee_mul to_float (x ! i) (e ! i))) (Finite 0) [0..<n]
    = Finite 0"
  using assms by (induction n) simp_all

lemma div_in_range:
  assumes "\<bar>r\<bar> \<le> FLT_MAX" "0 < n"
  shows "ieee_div to_float (Finite r) (Finite (real n)) = Finite (r / real n)"
proof -
  from assms(2) have "1 \<le> real n" by simp
  then have "\<bar>r\<bar> / real n \<le> \<bar>r\<bar> / 1"
    by (intro divide_left_mono) simp_all
  with assms(1) have "\<bar>r / real n\<bar> \<le> FLT_MAX" by simp
  from to_float_in_range [OF this] assms(2) show ?thesis by simp
qed

lemma alpha_finite:
  assumes "finite_float g" "0 < n"
  shows "is_finite (ieee_div to_float
    (ieee_mul to_float (if k = 0 then Finite 1 else Finite (- 1)) g) (Finite (real n)))"
proof -
  from finite_floatD [OF assms(1)] obtain r where r: "g = Finite r" "\<bar>r\<bar> \<le> FLT_MAX"
    by blast
  from r(2) have m: "\<bar>- r\<bar> \<le> FLT_MAX" by simp
  show ?thesis
    using div_in_range [OF r(2) assms(2)] div_in_range [OF m assms(2)]
    by (simp add: r(1) to_float_in_range [OF r(2)] to_float_in_range [OF m])
qed

text \<open>
  Claim C7 fails as stated. With \<open>sigma = 1\<close>, the prediction \<^verbatim>\<open>FLT_MAX\<close>, the target
  \<^verbatim>\<open>-FLT_MAX\<close> (both finite) and the inside weight 0, \<^verbatim>\<open>caffe_sub\<close> leaves the difference,
  which overflows, as \<open>+inf\<close> in \<^verbatim>\<open>diff_\<close>; \<^verbatim>\<open>caffe_mul\<close> with the zero weight makes it
  \<open>0 * inf\<close>, which is NaN; a comparison with NaN is false, so the error is
  \<open>NaN - 0.5\<close>, and the error and the loss are NaN, not 0.
\<close>

theorem zero_inside_weights_counterexample:
  "FLT_MAX = 340282346638528859811704183484516925440 \<and>
   SmoothL1Loss_Reshape (LayerSetUp_ieee (Finite 1) new_layer masked_overflow_inputs)
     masked_overflow_inputs [empty_blob] =
     Inr (float_layer (Finite 1) masked_overflow_inputs, example_tops) \<and>
   inputs_ok masked_overflow_inputs \<and> finite_inputs masked_overflow_inputs \<and>
   cpu_data (masked_overflow_inputs ! 0) = [Finite FLT_MAX] \<and>
   cpu_data (masked_overflow_inputs ! 1) = [Finite (- FLT_MAX)] \<and>
   cpu_data (masked_overflow_inputs ! 2) = [Finite 0] \<and>
   ieee_sub to_float (Finite FLT_MAX) (Finite (- FLT_MAX)) = PosInf \<and>
   ieee_mul to_float (Finite 0) PosInf = NaN \<and>
   SmoothL1Loss_Forward_cpu_ieee (float_layer (Finite 1) masked_overflow_inputs)
     masked_overflow_inputs example_tops =
     Inr ((float_layer (Finite 1) masked_overflow_inputs)
            \<lparr>diff := example_blob 1 [NaN], errors := example_blob 1 [NaN]\<rparr>,
          [example_blob 1 [NaN]]) \<and>
   NaN \<noteq> Finite 0"
proof -
  have 0: "FLT_MAX = 340282346638528859811704183484516925440"
    by (simp add: FLT_MAX_def)
  have 1: "SmoothL1Loss_Reshape (LayerSetUp_ieee (Finite 1) new_layer masked_overflow_inputs)
     masked_overflow_inputs [empty_blob] =
     Inr (float_layer (Finite 1) masked_overflow_inputs, example_tops)"
    by (simp add: Reshape_eq same_chw_def masked_overflow_inputs_def float_defs)
  have 2: "inputs_ok masked_overflow_inputs" "finite_inputs masked_overflow_inputs"
    "cpu_data (masked_overflow_inputs ! 0) = [Finite FLT_MAX]"
    "cpu_data (masked_overflow_inputs ! 1) = [Finite (- FLT_MAX)]"
    "cpu_data (masked_overflow_inputs ! 2) = [Finite 0]"
    by (simp_all add: inputs_ok_def blob_ok_def finite_inputs_def finite_float_def FLT_MAX_def
        masked_overflow_inputs_def float_defs)
  have 3: "ieee_sub to_float (Finite FLT_MAX) (Finite (- FLT_MAX)) = PosInf"
    "ieee_mul to_float (Finite 0) PosInf = NaN"
    by (simp_all add: ieee_sub_def to_float_def overflow_to_def FLT_MAX_def)
  have 4: "SmoothL1Loss_Forward_cpu_ieee (float_layer (Finite 1) masked_overflow_inputs)
     masked_overflow_inputs example_tops =
     Inr ((float_layer (Finite 1) masked_overflow_inputs)
            \<lparr>diff := example_blob 1 [NaN], errors := example_blob 1 [NaN]\<rparr>,
          [example_blob 1 [NaN]])"
    by (simp add: masked_overflow_inputs_def float_defs float_run_defs FLT_MAX_def)
  from 0 1 2 3 4 show ?thesis by simp
qed

text \<open>
  Claim C7, as amended. After \<^verbatim>\<open>LayerSetUp\<close> and a successful \<^verbatim>\<open>Reshape\<close>, on well-formed
  inputs with at least one sample, when the values and gradient elements of the inputs,
  \<open>sigma\<close> and the upstream gradient are finite \<^verbatim>\<open>float\<close> values, no difference
  \<open>prediction[j] - target[j]\<close> overflows, and the inside-weight buffer \<open>bottom[2]\<close> is
  supplied and holds only zeros: \<^verbatim>\<open>Forward_cpu\<close> returns and the loss it writes is 0, and
  the following \<^verbatim>\<open>Backward_cpu\<close> returns and every element it writes into the gradient
  buffer of a propagated input (prediction or target) is 0.
\<close>

theorem zero_inside_weights_no_overflow:
  assumes R: "SmoothL1Loss_Reshape (LayerSetUp_ieee sigma L0 bottom) bottom tops0 = Inr (L, tops)"
    and I: "inputs_ok bottom" and N: "0 < num (bottom ! 0)"
    and V: "finite_inputs bottom" "finite_float sigma" "finite_float (cpu_diff (tops2 ! 0) ! 0)"
    and D: "\<forall>j < count (bottom ! 0).
       is_finite (ieee_sub to_float (cpu_data (bottom ! 0) ! j) (cpu_data (bottom ! 1) ! j))"
    and W: "3 \<le> length bottom" and Z: "\<forall>w \<in> set (cpu_data (bottom ! 2)). w = Finite 0"
    and T: "tops2 \<noteq> []" "cpu_diff (tops2 ! 0) \<noteq> []"
    and P: "2 \<le> length propagate_down"
  shows "\<exists>L1 tops1 L2 bottom'.
    SmoothL1Loss_Forward_cpu_ieee L bottom tops = Inr (L1, tops1) \<and>
    cpu_data (tops1 ! 0) ! 0 = Finite 0 \<and>
    SmoothL1Loss_Backward_cpu_ieee L1 tops2 propagate_down bottom = Inr (L2, bottom') \<and>
    (\<forall>k < 2. propagate_down ! k \<longrightarrow>
       (\<forall>i < count (bottom ! 0). cpu_diff (bottom' ! k) ! i = Finite 0))"
proof -
  let ?cnt = "count (bottom ! 0)"
  from Forward_ieee_after_Reshape [OF R I] obtain L1 tops1
    where F: "SmoothL1Loss_Forward_cpu_ieee L bottom tops = Inr (L1, tops1)" by blast
  note r = Reshape_ieee_Inr [OF R]
  note f = Forward_ieee_Inr [OF F]
  note a = Backward_ieee_after_Forward [OF R I F T P]
  from a(1) obtain L2 bottom' where
    B: "SmoothL1Loss_Backward_cpu_ieee L1 tops2 propagate_down bottom = Inr (L2, bottom')"
    by blast
  note b = Backward_ieee_Inr [OF B, unfolded a(2)]
  have hw: "has_weights L" using W by (simp add: r(6))
  have s2: "(\<exists>s. sigma2 L = Finite s \<and> 0 \<le> s) \<or> sigma2 L = PosInf"
    using sigma2_cases [OF V(2)] by (simp add: r(5))
  have w0: "cpu_data (bottom ! 2) ! j = Finite 0" if "j < ?cnt" for j
  proof -
    from inputs_okD [OF I, of 2] W that have "j < length (cpu_data (bottom ! 2))" by simp
    with Z show ?thesis by simp
  qed
  have w3: "is_finite (cpu_data (bottom ! 3) ! j)" if "j < ?cnt" "3 < length bottom" for j
  proof -
    from inputs_okD [OF I that(2)] that(1) have "j < length (cpu_data (bottom ! 3))" by simp
    from finite_inputsD(1) [OF V(1) that(2) this] show ?thesis
      by (rule finite_float_is_finite)
  qed
  have d0: "cpu_data (diff L1) ! j = Finite 0" if "j < ?cnt" for j
    using f(13) [OF that] hw w0 [OF that] D that by (simp add: mul_zero_left)
  have e0: "cpu_data (errors L1) ! j = Finite 0" if "j < ?cnt" for j
    using f(14) [OF that] d0 [OF that] w3 [OF that]
    by (simp add: smooth_l1_ieee_zero [OF s2] mul_zero_right)
  have o1: "\<forall>j<?cnt. cpu_data (ones L) ! j = Finite 1"
    by (simp add: r(10) one_ieee_def)
  have loss: "cpu_data (tops1 ! 0) ! 0 = Finite 0"
    using N by (simp add: f(15) dot_zero [OF _ o1] e0)
  have g: "cpu_diff (bottom' ! k) ! i = Finite 0"
    if k: "k < 2" "propagate_down ! k" and i: "i < ?cnt" for k i
  proof -
    have kl: "k < length bottom" using k(1) r(1) by simp
    have c0: "0 < ?cnt" using i by simp
    have nk: "0 < num (bottom ! k)" by (rule inputs_ok_num [OF I kl c0])
    from alpha_finite [OF V(3) nk, of k] obtain al where
      al: "ieee_div to_float
        (ieee_mul to_float (if k = 0 then Finite 1 else Finite (- 1)) (cpu_diff (tops2 ! 0) ! 0))
        (Finite (real (num (bottom ! k)))) = Finite al"
      using is_finiteD by blast
    from inputs_okD [OF I kl] i have "i < length (cpu_diff (bottom ! k))" by simp
    from finite_inputsD(2) [OF V(1) kl this] obtain old where
      old: "cpu_diff (bottom ! k) ! i = Finite old"
      using finite_floatD by blast
    have s2': "(\<exists>s. sigma2 L1 = Finite s \<and> 0 \<le> s) \<or> sigma2 L1 = PosInf"
      using s2 by (simp add: f(5))
    have i': "i < count (diff L1)" using i by (simp add: a(2))
    have dv: "cpu_data (diff L2) ! i = Finite 0"
      using Backward_ieee_diff_nth [OF B i'] d0 [OF i]
      by (simp add: smooth_l1_grad_ieee_zero [OF s2'])
    have hw2: "has_weights L2" using hw by (simp add: b(2) f(6))
    show ?thesis
    proof (cases "3 < length bottom")
      case True
      from w3 [OF i True] obtain w where w: "cpu_data (bottom ! 3) ! i = Finite w"
        using is_finiteD by blast
      show ?thesis
        using b(8) [OF k i] w0 [OF i] True
        by (simp add: grad_written_ieee_def hw2 Let_def al old dv w)
    next
      case False
      show ?thesis
        using b(8) [OF k i] w0 [OF i] False
        by (simp add: grad_written_ieee_def hw2 Let_def al old dv)
    qed
  qed
  from F loss B g show ?thesis by blast
qed

theorem zero_inside_weights_no_overflow_witness:
  "\<exists>L1 tops1 L2 bottom'.
    SmoothL1Loss_Forward_cpu_ieee (float_layer (Finite 1) masked_float_inputs)
      masked_float_inputs example_tops = Inr (L1, tops1) \<and>
    cpu_data (tops1 ! 0) ! 0 = Finite 0 \<and>
    SmoothL1Loss_Backward_cpu_ieee L1 (example_top_grad (Finite 1)) [True, True, False]
      masked_float_inputs = Inr (L2, bottom') \<and>
    cpu_diff (masked_float_inputs ! 1) ! 0 = Finite 9 \<and>
    cpu_diff (bottom' ! 0) ! 0 = Finite 0 \<and> cpu_diff (bottom' ! 1) ! 0 = Finite 0"
proof -
  have R: "SmoothL1Loss_Reshape (LayerSetUp_ieee (Finite 1) new_layer masked_float_inputs)
     masked_float_inputs [empty_blob]
     = Inr (float_layer (Finite 1) masked_float_inputs, example_tops)"
    by (simp add: Reshape_eq same_chw_def masked_float_inputs_def float_defs)
  have I: "inputs_ok masked_float_inputs"
    by (simp add: inputs_ok_def blob_ok_def masked_float_inputs_def float_defs)
  have N: "0 < num (masked_float_inputs ! 0)" by (simp add: masked_float_inputs_def float_defs)
  have V: "finite_inputs masked_float_inputs" "finite_float (Finite 1)"
    "finite_float (cpu_diff (example_top_grad (Finite 1) ! 0) ! 0)"
    by (simp_all add: finite_inputs_def finite_float_def FLT_MAX_def masked_float_inputs_def
        example_top_grad_def float_defs)
  have D: "\<forall>j < count (masked_float_inputs ! 0).
       is_finite (ieee_sub to_float (cpu_data (masked_float_inputs ! 0) ! j)
         (cpu_data (masked_float_inputs ! 1) ! j))"
    by (simp add: masked_float_inputs_def float_defs ieee_sub_def to_float_def overflow_to_def)
  have W: "3 \<le> length masked_float_inputs" by (simp add: masked_float_inputs_def)
  have Z: "\<forall>w \<in> set (cpu_data (masked_float_inputs ! 2)). w = Finite 0"
    by (simp add: masked_float_inputs_def float_defs)
  have T: "example_top_grad (Finite 1) \<noteq> []" "cpu_diff (example_top_grad (Finite 1) ! 0) \<noteq> []"
    by (simp_all add: example_top_grad_def)
  have P: "2 \<le> length [True, True, False]" by simp
  from zero_inside_weights_no_overflow [OF R I N V D W Z T P] obtain L1 tops1 L2 bottom' where
    F: "SmoothL1Loss_Forward_cpu_ieee (float_layer (Finite 1) masked_float_inputs)
      masked_float_inputs example_tops = Inr (L1, tops1)"
    and loss: "cpu_data (tops1 ! 0) ! 0 = Finite 0"
    and B: "SmoothL1Loss_Backward_cpu_ieee L1 (example_top_grad (Finite 1)) [True, True, False]
      masked_float_inputs = Inr (L2, bottom')"
    and g: "\<forall>k < 2. [True, True, False] ! k \<longrightarrow>
       (\<forall>i < count (masked_float_inputs ! 0). cpu_diff (bottom' ! k) ! i = Finite 0)"
    by blast
  have c: "count (masked_float_inputs ! 0) = 1" by (simp add: masked_float_inputs_def float_defs)
  from g [rule_format, of 0 0] have g0: "cpu_diff (bottom' ! 0) ! 0 = Finite 0" by (simp add: c)
  from g [rule_format, of 1 0] have g1: "cpu_diff (bottom' ! 1) ! 0 = Finite 0" by (simp add: c)
  have old: "cpu_diff (masked_float_inputs ! 1) ! 0 = Finite 9"
    by (simp add: masked_float_inputs_def float_defs)
  from F loss B old g0 g1 show ?thesis by blast
qed





















end
